theory Spec2Isabelle
  imports Complex_Main "HOL-Library.Word" "HOL-Library.AList" "HOL-Library.Sublist"
begin

section \<open>JavaScript data\<close>

text \<open>
  A JavaScript string is a sequence of 16-bit code units; a \<open>Uint8Array\<close> is a sequence
  of bytes. String literals of the source are written \<open>js ''...''\<close>.
\<close>

type_synonym byte = "8 word"
type_synonym code_unit = "16 word"
type_synonym jsstring = "code_unit list"

definition js :: "string \<Rightarrow> jsstring" where
  "js s = map of_char s"

text \<open>
  The values that \<open>JSON.parse\<close> and \<open>response.json()\<close> produce, plus \<open>undefined\<close>
  (the result of reading a property that is not there). The number type is a
  parameter: the HTTP services only test numbers for truthiness and copy them
  (\<open>int\<close>, for sizes and timestamps); the envelope parser reads decimal literals
  exactly (\<open>rat\<close>). An object is its property table; a lookup takes the first
  binding of a name.
\<close>

datatype 'n jsval =
    JUndefined
  | JNull
  | JBool bool
  | JNum 'n
  | JStr jsstring
  | JArr "'n jsval list"
  | JObj "(jsstring \<times> 'n jsval) list"

text \<open>
  A thrown value: an instance of \<open>Error\<close> with its message, or anything else.
  The catch blocks of the source only ask \<open>error instanceof Error\<close> and read
  \<open>error.message\<close>.
\<close>

datatype exn = Error jsstring | NonError

text \<open>\<open>error instanceof Error ? error.message : fallback\<close>\<close>

definition message_or :: "exn \<Rightarrow> jsstring \<Rightarrow> jsstring" where
  "message_or e fallback = (case e of Error m \<Rightarrow> m | NonError \<Rightarrow> fallback)"

text \<open>Truthiness, and \<open>a || b\<close> on values already computed.\<close>

fun truthy :: "('n::zero) jsval \<Rightarrow> bool" where
  "truthy JUndefined = False"
| "truthy JNull = False"
| "truthy (JBool b) = b"
| "truthy (JNum n) = (n \<noteq> 0)"
| "truthy (JStr s) = (s \<noteq> [])"
| "truthy (JArr xs) = True"
| "truthy (JObj ps) = True"

definition isArray :: "'n jsval \<Rightarrow> bool" where
  "isArray v = (case v of JArr xs \<Rightarrow> True | _ \<Rightarrow> False)"

subsection \<open>Decimal rendering of integers\<close>

definition digit_unit :: "nat \<Rightarrow> code_unit" where
  "digit_unit d = of_nat (48 + d)"

fun nat_toString :: "nat \<Rightarrow> jsstring" where
  "nat_toString n = (if n < 10 then [digit_unit n] else nat_toString (n div 10) @ [digit_unit (n mod 10)])"

declare nat_toString.simps [simp del]

text \<open>
  \<open>Number.prototype.toString\<close> on an integer: the decimal digits, with a sign.
  (JavaScript switches to exponent notation from \<open>10^21\<close> on; sizes, counts and
  timestamps stay far below.)
\<close>

definition int_toString :: "int \<Rightarrow> jsstring" where
  "int_toString i = (if i < 0 then js ''-'' @ nat_toString (nat (- i)) else nat_toString (nat i))"

fun intercalate :: "'a list \<Rightarrow> 'a list list \<Rightarrow> 'a list" where
  "intercalate sep [] = []"
| "intercalate sep [x] = x"
| "intercalate sep (x # y # ys) = x @ sep @ intercalate sep (y # ys)"

text \<open>\<open>String(v)\<close>: what \<open>new Error(v)\<close> stores as its message.\<close>

fun ToString :: "int jsval \<Rightarrow> jsstring"
  and ToString_elements :: "int jsval list \<Rightarrow> jsstring list" where
  "ToString JUndefined = js ''undefined''"
| "ToString JNull = js ''null''"
| "ToString (JBool b) = (if b then js ''true'' else js ''false'')"
| "ToString (JNum n) = int_toString n"
| "ToString (JStr s) = s"
| "ToString (JArr xs) = intercalate (js '','') (ToString_elements xs)"
| "ToString (JObj ps) = js ''[object Object]''"
| "ToString_elements [] = []"
| "ToString_elements (x # xs) =
     (case x of JUndefined \<Rightarrow> [] | JNull \<Rightarrow> [] | _ \<Rightarrow> ToString x) # ToString_elements xs"

section \<open>The environment and the world\<close>

text \<open>
  A \<open>File\<close> (or \<open>Blob\<close>) of the browser: its name, MIME type and size, and what
  reading it with \<open>arrayBuffer()\<close> gives: the bytes, or a rejection.
\<close>

record File =
  name :: jsstring
  mime_type :: jsstring
  file_size :: nat
  arrayBuffer :: "exn + byte list"

text \<open>A request as \<open>fetch\<close> receives it; the body is a \<open>FormData\<close>.\<close>

record Request =
  url :: jsstring
  http_method :: jsstring
  headers :: "(jsstring \<times> jsstring) list"
  body :: "(jsstring \<times> File) list option"

text \<open>
  A response: \<open>ok\<close>, the outcome of \<open>json()\<close> and of \<open>blob()\<close> followed by
  \<open>arrayBuffer()\<close>, and \<open>headers.get\<close> (\<open>None\<close> is \<open>null\<close>).
\<close>

record Response =
  ok :: bool
  json :: "exn + int jsval"
  blob :: "exn + byte list"
  headers_get :: "jsstring \<Rightarrow> jsstring option"

text \<open>A number as \<open>ToNumber\<close> returns it.\<close>

datatype jsnumber = Finite rat | NaN | PosInfinity | NegInfinity

text \<open>
  Everything the code receives from outside: the network, the clock, the random
  generator, the dynamic import of the Seal library, and the parts of the
  JavaScript engine that are not fixed by the language (the texts of its own
  error messages, the largest typed array it allocates) or that this
  development does not spell out (\<open>ToNumber\<close> on a string). The \<open>k\<close>-th call of
  \<open>Date.now()\<close> returns \<open>Date_now k\<close>; the \<open>k\<close>-th call of \<open>Math.random()\<close> has
  the base-36 fraction digits \<open>Math_random k\<close>.
\<close>

record Env =
  fetch :: "Request \<Rightarrow> exn + Response"
  Date_now :: "nat \<Rightarrow> nat"
  Math_random :: "nat \<Rightarrow> nat list"
  import_seal :: "exn + unit"
  type_error_message :: jsstring
  syntax_error_message :: jsstring
  range_error_message :: jsstring
  StringToNumber :: "jsstring \<Rightarrow> jsnumber"
  max_typed_array_length :: nat

text \<open>The Seal library variable of the encryption module: \<open>null\<close>, the module, or the mock.\<close>

datatype seal_library = SealModule | MockLibrary

text \<open>The state of the \<open>useSealEncryption\<close> hook.\<close>

record EncryptionState =
  isInitializing :: bool
  isReady :: bool
  isEncrypting :: bool
  isDecrypting :: bool
  error :: "jsstring option"

text \<open>
  The mutable state: the fields of the \<open>SealEncryptionService\<close> singleton and its
  module-level \<open>SealLibrary\<close>, the hook's React state, the requests sent so far,
  and how often the clock and the random generator were read. Calls run one
  after the other, so a promise that exists has settled: \<open>initializationPromise\<close> is
  \<open>None\<close> for \<open>null\<close> and otherwise holds how the promise settled.
\<close>

record World =
  isInitialized :: bool
  initializationPromise :: "(exn + unit) option"
  SealLibrary :: "seal_library option"
  hook_state :: EncryptionState
  requests :: "Request list"
  clock_reads :: nat
  random_reads :: nat

text \<open>
  An \<open>async\<close> function (or a synchronous one that may throw) is a state
  transformer that ends with a value or with a thrown exception; \<open>await\<close> of a
  rejected promise throws.
\<close>

type_synonym 'a prog = "World \<Rightarrow> (exn + 'a) \<times> World"

definition ret :: "'a \<Rightarrow> 'a prog" where
  "ret x = (\<lambda>w. (Inr x, w))"

definition throw :: "exn \<Rightarrow> 'a prog" where
  "throw e = (\<lambda>w. (Inl e, w))"

definition lift :: "exn + 'a \<Rightarrow> 'a prog" where
  "lift r = (\<lambda>w. (r, w))"

definition pbind :: "'a prog \<Rightarrow> ('a \<Rightarrow> 'b prog) \<Rightarrow> 'b prog" where
  "pbind m f = (\<lambda>w. case m w of (Inl e, w') \<Rightarrow> (Inl e, w') | (Inr x, w') \<Rightarrow> f x w')"

text \<open>\<open>try { m } catch (error) { h error }\<close>\<close>

definition try_catch :: "'a prog \<Rightarrow> (exn \<Rightarrow> 'a prog) \<Rightarrow> 'a prog" where
  "try_catch m h = (\<lambda>w. case m w of (Inl e, w') \<Rightarrow> h e w' | (Inr x, w') \<Rightarrow> (Inr x, w'))"

text \<open>\<open>try { m } finally { f }\<close>, for an \<open>f\<close> that does not throw.\<close>

definition try_finally :: "'a prog \<Rightarrow> (World \<Rightarrow> World) \<Rightarrow> 'a prog" where
  "try_finally m f = (\<lambda>w. case m w of (r, w') \<Rightarrow> (r, f w'))"

definition modify :: "(World \<Rightarrow> World) \<Rightarrow> unit prog" where
  "modify f = (\<lambda>w. (Inr (), f w))"

definition do_fetch :: "Env \<Rightarrow> Request \<Rightarrow> Response prog" where
  "do_fetch env req = (\<lambda>w. (fetch env req, w\<lparr>requests := requests w @ [req]\<rparr>))"

definition Date_now_call :: "Env \<Rightarrow> nat prog" where
  "Date_now_call env = (\<lambda>w. (Inr (Date_now env (clock_reads w)), w\<lparr>clock_reads := Suc (clock_reads w)\<rparr>))"

text \<open>
  Reading a property \<open>v.k\<close> of a parsed value: a \<open>TypeError\<close> on \<open>null\<close> and
  \<open>undefined\<close>, the own property of an object, and \<open>undefined\<close> elsewhere (none of
  the names this program reads is a built-in property of a string, number,
  boolean or array).
\<close>

definition Get :: "Env \<Rightarrow> 'n jsval \<Rightarrow> jsstring \<Rightarrow> exn + 'n jsval" where
  "Get env v k =
     (case v of
        JUndefined \<Rightarrow> Inl (Error (type_error_message env))
      | JNull \<Rightarrow> Inl (Error (type_error_message env))
      | JObj ps \<Rightarrow> (case map_of ps k of Some x \<Rightarrow> Inr x | None \<Rightarrow> Inr JUndefined)
      | _ \<Rightarrow> Inr JUndefined)"

text \<open>\<open>a || v.k\<close>, with \<open>a\<close> already computed.\<close>

definition or_Get :: "Env \<Rightarrow> ('n::zero) jsval \<Rightarrow> 'n jsval \<Rightarrow> jsstring \<Rightarrow> exn + 'n jsval" where
  "or_Get env a v k = (if truthy a then Inr a else Get env v k)"

definition or_else :: "('n::zero) jsval \<Rightarrow> 'n jsval \<Rightarrow> 'n jsval" where
  "or_else a b = (if truthy a then a else b)"

definition try_bind :: "exn + 'a \<Rightarrow> ('a \<Rightarrow> exn + 'b) \<Rightarrow> exn + 'b" where
  "try_bind r f = (case r of Inl e \<Rightarrow> Inl e | Inr x \<Rightarrow> f x)"

fun map_exn :: "('a \<Rightarrow> exn + 'b) \<Rightarrow> 'a list \<Rightarrow> exn + 'b list" where
  "map_exn f [] = Inr []"
| "map_exn f (x # xs) = try_bind (f x) (\<lambda>y. try_bind (map_exn f xs) (\<lambda>ys. Inr (y # ys)))"


fun map_prog :: "('a \<Rightarrow> 'b prog) \<Rightarrow> 'a list \<Rightarrow> 'b list prog" where
  "map_prog f [] = ret []"
| "map_prog f (x # xs) = pbind (f x) (\<lambda>y. pbind (map_prog f xs) (\<lambda>ys. ret (y # ys)))"

section \<open>The file service\<close>

definition API_BASE_URL :: jsstring where
  "API_BASE_URL = js ''https://backend-96n2.onrender.com''"

text \<open>A token is \<open>string | null\<close>; \<open>if (token)\<close> also fails on the empty string.\<close>

definition token_truthy :: "jsstring option \<Rightarrow> bool" where
  "token_truthy token = (case token of None \<Rightarrow> False | Some t \<Rightarrow> t \<noteq> [])"

definition bearer :: "jsstring option \<Rightarrow> (jsstring \<times> jsstring) list" where
  "bearer token =
     (case token of
        None \<Rightarrow> []
      | Some t \<Rightarrow> if t \<noteq> [] then [(js ''Authorization'', js ''Bearer '' @ t)] else [])"

definition getAuthHeaders :: "jsstring option \<Rightarrow> (jsstring \<times> jsstring) list" where
  "getAuthHeaders token = (js ''Content-Type'', js ''application/json'') # bearer token"

record FileMetadata =
  cid :: "int jsval"
  filename :: "int jsval"
  fileSize :: "int jsval"
  uploadTimestamp :: "int jsval"
  uploader :: "int jsval"
  isOwner :: bool
  contentType :: "int jsval"
  isEncrypted :: "int jsval"
  encryptionKeys :: "int jsval"

record FilesData =
  files :: "FileMetadata list"

record Outcome =
  success :: bool

record FilesResponse = Outcome +
  data :: FilesData
  message :: "jsstring option"

record DeleteResponse = Outcome +
  message :: jsstring

record ErrorOutcome = Outcome +
  error :: "jsstring option"

record DownloadResult = ErrorOutcome +
  fileData :: "byte list option"
  filename :: "jsstring option"
  contentType :: "jsstring option"
  isEncrypted :: "bool option"

text \<open>The callback of \<open>backendFiles.map\<close> in \<open>getUserFiles\<close>.\<close>

definition format_file :: "Env \<Rightarrow> int jsval \<Rightarrow> FileMetadata prog" where
  "format_file env file =
     pbind (lift (try_bind (Get env file (js ''cid'')) (\<lambda>a. or_Get env a file (js ''fileCid'')))) (\<lambda>v_cid.
     pbind (lift (try_bind (Get env file (js ''filename'')) (\<lambda>a. or_Get env a file (js ''name'')))) (\<lambda>v_filename.
     pbind (lift (try_bind (Get env file (js ''fileSize'')) (\<lambda>a. or_Get env a file (js ''size'')))) (\<lambda>v_fileSize.
     pbind (lift (try_bind (Get env file (js ''uploadTimestamp'')) (\<lambda>a. or_Get env a file (js ''timestamp'')))) (\<lambda>t.
     pbind (if truthy t then ret t else pbind (Date_now_call env) (\<lambda>n. ret (JNum (int n)))) (\<lambda>v_uploadTimestamp.
     pbind (lift (Get env file (js ''uploader''))) (\<lambda>u.
     pbind (lift (Get env file (js ''contentType''))) (\<lambda>v_contentType.
     pbind (lift (Get env file (js ''isEncrypted''))) (\<lambda>v_isEncrypted.
     pbind (lift (Get env file (js ''encryptionKeys''))) (\<lambda>v_encryptionKeys.
     ret \<lparr> cid = v_cid,
           FileMetadata.filename = v_filename,
           fileSize = v_fileSize,
           uploadTimestamp = v_uploadTimestamp,
           uploader = or_else u (JStr (js ''user'')),
           isOwner = True,
           FileMetadata.contentType = v_contentType,
           FileMetadata.isEncrypted = v_isEncrypted,
           encryptionKeys = v_encryptionKeys \<rparr>)))))))))"

definition files_request :: "jsstring option \<Rightarrow> bool \<Rightarrow> Request" where
  "files_request token useTestMode =
     \<lparr> url = (if useTestMode then API_BASE_URL @ js ''/files-test'' else API_BASE_URL @ js ''/files''),
       http_method = js ''GET'',
       headers = getAuthHeaders token,
       body = None \<rparr>"

text \<open>\<open>data.files || data.data || data\<close>\<close>

definition backendFiles_of :: "Env \<Rightarrow> int jsval \<Rightarrow> exn + int jsval" where
  "backendFiles_of env d =
     try_bind (Get env d (js ''files'')) (\<lambda>a.
     try_bind (or_Get env a d (js ''data'')) (\<lambda>b.
     Inr (or_else b d)))"

text \<open>\<open>throw new Error(data.message || fallback)\<close>\<close>

definition throw_message :: "Env \<Rightarrow> int jsval \<Rightarrow> string \<Rightarrow> 'a prog" where
  "throw_message env d fallback =
     pbind (lift (Get env d (js ''message''))) (\<lambda>m.
     throw (Error (ToString (or_else m (JStr (js fallback))))))"

definition getUserFiles :: "Env \<Rightarrow> jsstring option \<Rightarrow> bool \<Rightarrow> FilesResponse prog" where
  "getUserFiles env token useTestMode =
     try_catch
       (pbind (do_fetch env (files_request token useTestMode)) (\<lambda>response.
        pbind (lift (json response)) (\<lambda>d.
        pbind (if \<not> ok response then throw_message env d ''Failed to fetch files'' else ret ()) (\<lambda>_.
        pbind (lift (backendFiles_of env d)) (\<lambda>backendFiles.
        (case backendFiles of
           JArr xs \<Rightarrow>
             pbind (map_prog (format_file env) xs) (\<lambda>formattedFiles.
             ret \<lparr> success = True, data = \<lparr> files = formattedFiles \<rparr>, FilesResponse.message = None \<rparr>)
         | _ \<Rightarrow> throw (Error (js ''Invalid response format from server''))))))))
       (\<lambda>e. ret \<lparr> success = False,
                   data = \<lparr> files = [] \<rparr>,
                   FilesResponse.message = Some (message_or e (js ''Failed to fetch files'')) \<rparr>)"

subsection \<open>Deleting\<close>

definition clear_request :: "jsstring option \<Rightarrow> bool \<Rightarrow> Request" where
  "clear_request token useTestMode =
     \<lparr> url = (if useTestMode then API_BASE_URL @ js ''/files-test'' else API_BASE_URL @ js ''/files''),
       http_method = js ''DELETE'',
       headers = getAuthHeaders token,
       body = None \<rparr>"

text \<open>The common tail of the two delete calls: the message of a successful reply.\<close>

definition reply_message :: "Env \<Rightarrow> int jsval \<Rightarrow> string \<Rightarrow> exn + jsstring" where
  "reply_message env d fallback =
     try_bind (Get env d (js ''message'')) (\<lambda>m. Inr (ToString (or_else m (JStr (js fallback)))))"

definition clearUserFiles :: "Env \<Rightarrow> jsstring option \<Rightarrow> bool \<Rightarrow> DeleteResponse prog" where
  "clearUserFiles env token useTestMode =
     try_catch
       (pbind (if \<not> token_truthy token \<and> \<not> useTestMode
               then throw (Error (js ''Authentication required to delete files'')) else ret ()) (\<lambda>_.
        pbind (do_fetch env (clear_request token useTestMode)) (\<lambda>response.
        pbind (lift (json response)) (\<lambda>d.
        pbind (if \<not> ok response then throw_message env d ''Failed to delete files'' else ret ()) (\<lambda>_.
        pbind (lift (reply_message env d ''Files deleted successfully'')) (\<lambda>m.
        ret \<lparr> success = True, DeleteResponse.message = m \<rparr>))))))
       (\<lambda>e. ret \<lparr> success = False,
                   DeleteResponse.message = message_or e (js ''Failed to delete files'') \<rparr>)"

definition delete_request :: "jsstring \<Rightarrow> jsstring option \<Rightarrow> bool \<Rightarrow> Request" where
  "delete_request c token useTestMode =
     \<lparr> url = (if useTestMode then API_BASE_URL @ js ''/file/'' @ c @ js ''/delete-test''
               else API_BASE_URL @ js ''/file/'' @ c @ js ''/delete''),
       http_method = js ''DELETE'',
       headers = getAuthHeaders token,
       body = None \<rparr>"

definition deleteFile :: "Env \<Rightarrow> jsstring \<Rightarrow> jsstring option \<Rightarrow> bool \<Rightarrow> DeleteResponse prog" where
  "deleteFile env c token useTestMode =
     try_catch
       (pbind (if \<not> token_truthy token \<and> \<not> useTestMode
               then throw (Error (js ''Authentication required to delete file'')) else ret ()) (\<lambda>_.
        pbind (do_fetch env (delete_request c token useTestMode)) (\<lambda>response.
        pbind (lift (json response)) (\<lambda>d.
        pbind (if \<not> ok response then throw_message env d ''Failed to delete file'' else ret ()) (\<lambda>_.
        pbind (lift (reply_message env d ''File deleted successfully'')) (\<lambda>m.
        ret \<lparr> success = True, DeleteResponse.message = m \<rparr>))))))
       (\<lambda>e. ret \<lparr> success = False,
                   DeleteResponse.message = message_or e (js ''Failed to delete file'') \<rparr>)"


subsection \<open>Downloading a shared file\<close>

definition dquote :: code_unit where
  "dquote = 0x22"

text \<open>The characters that \<open>.\<close> of a regular expression does not match.\<close>

definition line_terminator :: "code_unit \<Rightarrow> bool" where
  "line_terminator c = (c = 0x0A \<or> c = 0x0D \<or> c = 0x2028 \<or> c = 0x2029)"

text \<open>
  \<open>(.+)"\<close> tried at the text after \<open>filename="\<close>: the greedy \<open>.+\<close> takes the run up to
  the next line terminator and gives characters back until a quote follows, so
  the capture ends before the last quote of the run, and must not be empty.
\<close>

definition capture_at :: "jsstring \<Rightarrow> jsstring option" where
  "capture_at rest =
     (let run = takeWhile (\<lambda>c. \<not> line_terminator c) rest;
          upto_last_quote = dropWhile (\<lambda>c. c \<noteq> dquote) (rev run)
      in case upto_last_quote of
           [] \<Rightarrow> None
         | q # cap \<Rightarrow> if cap = [] then None else Some (rev cap))"

text \<open>
  \<open>contentDisposition.match(/filename="(.+)"/)\<close>: the pattern is tried at each
  position from the left; the result is capture group 1 of the first position
  where it matches, \<open>None\<close> when it matches nowhere.
\<close>

fun match_filename :: "jsstring \<Rightarrow> jsstring option" where
  "match_filename [] = None"
| "match_filename (c # cs) =
     (case (if prefix (js ''filename='' @ [dquote]) (c # cs) then capture_at (drop 10 (c # cs)) else None) of
        Some cap \<Rightarrow> Some cap
      | None \<Rightarrow> match_filename cs)"

definition download_request :: "jsstring \<Rightarrow> jsstring option \<Rightarrow> Request" where
  "download_request shareId token =
     \<lparr> url = API_BASE_URL @ js ''/file/shared/'' @ shareId @ js ''/download'',
       http_method = js ''GET'',
       headers = bearer token,
       body = None \<rparr>"

text \<open>The file name taken from the \<open>Content-Disposition\<close> header.\<close>

definition filename_of :: "jsstring option \<Rightarrow> jsstring" where
  "filename_of contentDisposition =
     (case contentDisposition of
        None \<Rightarrow> js ''shared-file''
      | Some cd \<Rightarrow>
          if cd \<noteq> [] then (case match_filename cd of Some cap \<Rightarrow> cap | None \<Rightarrow> js ''shared-file'')
          else js ''shared-file'')"

text \<open>\<open>headers.get('Content-Type') || 'application/octet-stream'\<close>\<close>

definition contentType_of :: "jsstring option \<Rightarrow> jsstring" where
  "contentType_of h = (case h of None \<Rightarrow> js ''application/octet-stream''
                       | Some t \<Rightarrow> if t \<noteq> [] then t else js ''application/octet-stream'')"

definition downloadSharedFile :: "Env \<Rightarrow> jsstring \<Rightarrow> jsstring option \<Rightarrow> DownloadResult prog" where
  "downloadSharedFile env shareId token =
     try_catch
       (pbind (do_fetch env (download_request shareId token)) (\<lambda>downloadResponse.
        pbind (if \<not> ok downloadResponse
               then throw_message env (case json downloadResponse of Inl e \<Rightarrow> JObj [] | Inr d \<Rightarrow> d)
                      ''Failed to download shared file''
               else ret ()) (\<lambda>_.
        pbind (lift (blob downloadResponse)) (\<lambda>bytes.
        ret \<lparr> success = True,
              error = None,
              fileData = Some bytes,
              DownloadResult.filename = Some (filename_of (headers_get downloadResponse (js ''Content-Disposition''))),
              DownloadResult.contentType = Some (contentType_of (headers_get downloadResponse (js ''Content-Type''))),
              DownloadResult.isEncrypted = Some (headers_get downloadResponse (js ''X-File-Encrypted'') = Some (js ''true'')) \<rparr>))))
       (\<lambda>e. ret \<lparr> success = False,
                   error = Some (message_or e (js ''Failed to download shared file'')),
                   fileData = None,
                   DownloadResult.filename = None,
                   DownloadResult.contentType = None,
                   DownloadResult.isEncrypted = None \<rparr>)"

section \<open>Regular expressions\<close>

text \<open>
  The patterns of the source that are only tested (\<open>regex.test(s)\<close>) are all anchored
  with \<open>^\<close> and \<open>$\<close> and have no flags, so a test asks whether the whole string is in
  the language of the pattern. A pattern is a term of \<open>rx\<close>, a character class a
  predicate on code units, and the test runs the pattern's derivatives along
  the string.
\<close>

datatype rx =
    Never
  | Eps
  | Cls "code_unit \<Rightarrow> bool"
  | Cat rx rx
  | Alt rx rx
  | Star rx

definition Plus :: "rx \<Rightarrow> rx" where
  "Plus r = Cat r (Star r)"

definition Opt :: "rx \<Rightarrow> rx" where
  "Opt r = Alt r Eps"

definition Lit :: "code_unit \<Rightarrow> rx" where
  "Lit a = Cls (\<lambda>c. c = a)"

fun nullable :: "rx \<Rightarrow> bool" where
  "nullable Never = False"
| "nullable Eps = True"
| "nullable (Cls p) = False"
| "nullable (Cat r s) = (nullable r \<and> nullable s)"
| "nullable (Alt r s) = (nullable r \<or> nullable s)"
| "nullable (Star r) = True"

fun deriv :: "code_unit \<Rightarrow> rx \<Rightarrow> rx" where
  "deriv c Never = Never"
| "deriv c Eps = Never"
| "deriv c (Cls p) = (if p c then Eps else Never)"
| "deriv c (Cat r s) =
     (if nullable r then Alt (Cat (deriv c r) s) (deriv c s) else Cat (deriv c r) s)"
| "deriv c (Alt r s) = Alt (deriv c r) (deriv c s)"
| "deriv c (Star r) = Cat (deriv c r) (Star r)"

text \<open>\<open>/^r$/.test(s)\<close>\<close>

definition rx_test :: "rx \<Rightarrow> jsstring \<Rightarrow> bool" where
  "rx_test r s = nullable (foldl (\<lambda>r c. deriv c r) r s)"

text \<open>
  \<open>\s\<close>, which is also what \<open>String.prototype.trim\<close> removes: the white space and
  line terminator code points of ECMAScript.
\<close>

definition is_space :: "code_unit \<Rightarrow> bool" where
  "is_space c =
     (c = 0x09 \<or> c = 0x0A \<or> c = 0x0B \<or> c = 0x0C \<or> c = 0x0D \<or> c = 0x20 \<or> c = 0xA0
      \<or> c = 0x1680 \<or> (0x2000 \<le> c \<and> c \<le> 0x200A) \<or> c = 0x2028 \<or> c = 0x2029
      \<or> c = 0x202F \<or> c = 0x205F \<or> c = 0x3000 \<or> c = 0xFEFF)"

definition is_digit :: "code_unit \<Rightarrow> bool" where
  "is_digit c = (0x30 \<le> c \<and> c \<le> 0x39)"

text \<open>\<open>[a-zA-Z0-9]\<close>\<close>

definition is_alnum :: "code_unit \<Rightarrow> bool" where
  "is_alnum c = ((0x61 \<le> c \<and> c \<le> 0x7A) \<or> (0x41 \<le> c \<and> c \<le> 0x5A) \<or> is_digit c)"

text \<open>\<open>[a-fA-F0-9]\<close>\<close>

definition is_hex :: "code_unit \<Rightarrow> bool" where
  "is_hex c = ((0x61 \<le> c \<and> c \<le> 0x66) \<or> (0x41 \<le> c \<and> c \<le> 0x46) \<or> is_digit c)"

section \<open>The access control service: validation\<close>

record AccessControlRule =
  conditionType :: jsstring
  allowedEmails :: "jsstring list option"
  allowedAddresses :: "jsstring list option"
  allowedSuiNS :: "jsstring list option"
  accessStartTime :: "int option"
  accessEndTime :: "int option"
  maxAccessDuration :: "int option"
  requireAllConditions :: "bool option"
  maxAccessCount :: "int option"

record ValidationResult =
  valid :: bool
  error :: "jsstring option"

text \<open>\<open>[^\s@]\<close>\<close>

definition not_space_or_at :: "code_unit \<Rightarrow> bool" where
  "not_space_or_at c = (\<not> (is_space c \<or> c = 0x40))"

text \<open>\<open>/^[^\s@]+@[^\s@]+\.[^\s@]+$/\<close>\<close>

definition emailRegex :: rx where
  "emailRegex =
     Cat (Plus (Cls not_space_or_at))
       (Cat (Lit 0x40)
         (Cat (Plus (Cls not_space_or_at))
           (Cat (Lit 0x2E) (Plus (Cls not_space_or_at)))))"

definition isValidEmail :: "jsstring \<Rightarrow> bool" where
  "isValidEmail email = rx_test emailRegex email"

text \<open>\<open>/^[a-zA-Z0-9][a-zA-Z0-9-]*[a-zA-Z0-9]\.sui$/\<close>\<close>

definition suiNSRegex :: rx where
  "suiNSRegex =
     Cat (Cls is_alnum)
       (Cat (Star (Cls (\<lambda>c. is_alnum c \<or> c = 0x2D)))
         (Cat (Cls is_alnum)
           (Cat (Lit 0x2E) (Cat (Lit 0x73) (Cat (Lit 0x75) (Lit 0x69))))))"

definition isValidSuiNS :: "jsstring \<Rightarrow> bool" where
  "isValidSuiNS suiNS = (rx_test suiNSRegex suiNS \<and> length suiNS \<ge> 4 \<and> length suiNS \<le> 64)"

text \<open>
  \<open>isValidSuiAddress\<close> is imported from the package \<open>@mysten/sui\<close> and is a
  parameter of the functions that call it. This is the check that package
  makes: a hexadecimal string, with or without \<open>0x\<close>, of 32 bytes.
\<close>

definition hexRegex :: rx where
  "hexRegex =
     Cat (Opt (Cat (Lit 0x30) (Cls (\<lambda>c. c = 0x78 \<or> c = 0x58)))) (Plus (Cls is_hex))"

definition has_0x :: "jsstring \<Rightarrow> bool" where
  "has_0x s = (case s of a # b # rest \<Rightarrow> a = 0x30 \<and> (b = 0x78 \<or> b = 0x58) | _ \<Rightarrow> False)"

definition isValidSuiAddress_lib :: "jsstring \<Rightarrow> bool" where
  "isValidSuiAddress_lib s =
     (rx_test hexRegex s \<and> even (length s)
      \<and> (if has_0x s then length s - 2 else length s) = 64)"

text \<open>
  The guarded loops \<open>if (list && list.length > 0) for (const x of list) if (!ok(x)) return ...\<close>:
  the first entry that fails the check, if there is one.
\<close>

definition first_invalid :: "(jsstring \<Rightarrow> bool) \<Rightarrow> jsstring list option \<Rightarrow> jsstring option" where
  "first_invalid check list =
     (case list of None \<Rightarrow> None | Some xs \<Rightarrow> find (\<lambda>x. \<not> check x) xs)"

text \<open>
  Truthiness of an optional number (\<open>undefined\<close> and \<open>0\<close> are falsy; the fields
  hold integers: milliseconds and counts) and of \<open>list && list.length > 0\<close>.
\<close>

definition num_truthy :: "int option \<Rightarrow> bool" where
  "num_truthy n = (case n of None \<Rightarrow> False | Some i \<Rightarrow> i \<noteq> 0)"

definition non_empty :: "jsstring list option \<Rightarrow> bool" where
  "non_empty list = (case list of None \<Rightarrow> False | Some xs \<Rightarrow> length xs > 0)"

definition invalid :: "jsstring \<Rightarrow> ValidationResult" where
  "invalid msg = \<lparr> valid = False, ValidationResult.error = Some msg \<rparr>"

definition validateAccessRule :: "(jsstring \<Rightarrow> bool) \<Rightarrow> AccessControlRule \<Rightarrow> ValidationResult" where
  "validateAccessRule isValidSuiAddress rule =
     (if conditionType rule \<notin> set [js ''email'', js ''wallet'', js ''time'', js ''hybrid'']
      then invalid (js ''Invalid condition type'')
      else case first_invalid isValidEmail (allowedEmails rule) of
        Some email \<Rightarrow> invalid (js ''Invalid email address: '' @ email)
      | None \<Rightarrow>
      (case first_invalid isValidSuiAddress (allowedAddresses rule) of
        Some address \<Rightarrow> invalid (js ''Invalid Sui address: '' @ address)
      | None \<Rightarrow>
      (case first_invalid isValidSuiNS (allowedSuiNS rule) of
        Some suiNS \<Rightarrow> invalid (js ''Invalid SuiNS name: '' @ suiNS)
      | None \<Rightarrow>
        if num_truthy (accessStartTime rule) \<and> num_truthy (accessEndTime rule)
           \<and> the (accessStartTime rule) \<ge> the (accessEndTime rule)
        then invalid (js ''Access start time must be before end time'')
        else if num_truthy (maxAccessDuration rule) \<and> the (maxAccessDuration rule) \<le> 0
        then invalid (js ''Max access duration must be positive'')
        else if num_truthy (maxAccessCount rule) \<and> the (maxAccessCount rule) \<le> 0
        then invalid (js ''Max access count must be positive'')
        else if conditionType rule = js ''hybrid''
                \<and> \<not> non_empty (allowedEmails rule)
                \<and> \<not> non_empty (allowedAddresses rule)
                \<and> \<not> (num_truthy (accessStartTime rule) \<or> num_truthy (accessEndTime rule)
                      \<or> num_truthy (maxAccessDuration rule))
        then invalid (js ''Hybrid access control must specify at least one access method'')
        else \<lparr> valid = True, ValidationResult.error = None \<rparr>)))"

section \<open>The access control service: bulk data\<close>

datatype FileType = csv | xlsx

record ParsedBulkData =
  emails :: "jsstring list"
  addresses :: "jsstring list"
  suiNSNames :: "jsstring list"
  errors :: "jsstring list"

text \<open>\<open>s.split(sep)\<close> for a separator of one character.\<close>

fun split_on :: "code_unit \<Rightarrow> jsstring \<Rightarrow> jsstring list" where
  "split_on sep [] = [[]]"
| "split_on sep (c # cs) =
     (if c = sep then [] # split_on sep cs
      else (case split_on sep cs of [] \<Rightarrow> [[c]] | x # xs \<Rightarrow> (c # x) # xs))"

definition trim :: "jsstring \<Rightarrow> jsstring" where
  "trim s = rev (dropWhile is_space (rev (dropWhile is_space s)))"

text \<open>The rows of the CSV branch: the lines that are not blank, each split at commas, each cell trimmed.\<close>

definition csv_rows :: "jsstring \<Rightarrow> jsstring list list" where
  "csv_rows content =
     map (\<lambda>line. map trim (split_on 0x2C line))
       (filter (\<lambda>line. trim line \<noteq> []) (split_on 0x0A content))"

text \<open>The body of the inner \<open>forEach\<close>, for a cell of the row with the given index.\<close>

definition process_cell :: "(jsstring \<Rightarrow> bool) \<Rightarrow> nat \<Rightarrow> ParsedBulkData \<Rightarrow> jsstring \<Rightarrow> ParsedBulkData" where
  "process_cell isValidSuiAddress index result cell =
     (let trimmedCell = trim cell in
      if trimmedCell = [] then result
      else if isValidEmail trimmedCell then
        (if trimmedCell \<in> set (emails result) then result
         else result\<lparr>emails := emails result @ [trimmedCell]\<rparr>)
      else if isValidSuiAddress trimmedCell then
        (if trimmedCell \<in> set (addresses result) then result
         else result\<lparr>addresses := addresses result @ [trimmedCell]\<rparr>)
      else if isValidSuiNS trimmedCell then
        (if trimmedCell \<in> set (suiNSNames result) then result
         else result\<lparr>suiNSNames := suiNSNames result @ [trimmedCell]\<rparr>)
      else result\<lparr>errors := errors result
              @ [js ''Row '' @ nat_toString (index + 1) @ js '': Invalid format - '' @ trimmedCell]\<rparr>)"

definition process_rows :: "(jsstring \<Rightarrow> bool) \<Rightarrow> ParsedBulkData \<Rightarrow> (nat \<times> jsstring list) list \<Rightarrow> ParsedBulkData" where
  "process_rows isValidSuiAddress result rows =
     foldl (\<lambda>res (index, row). foldl (process_cell isValidSuiAddress index) res row) result rows"

text \<open>
  \<open>parseBulkData\<close>. Nothing in its \<open>try\<close> block can throw (the content is a string),
  so the \<open>catch\<close> is not reached.
\<close>

definition parseBulkData :: "(jsstring \<Rightarrow> bool) \<Rightarrow> jsstring \<Rightarrow> FileType \<Rightarrow> ParsedBulkData" where
  "parseBulkData isValidSuiAddress content fileType =
     (let rows = (if fileType = csv then csv_rows content else [])
      in process_rows isValidSuiAddress
           \<lparr> emails = [], addresses = [], suiNSNames = [], errors = [] \<rparr>
           (enumerate 0 rows))"

subsection \<open>The language of a pattern\<close>

text \<open>What a pattern denotes; the derivative test decides membership (\<open>rx_test_iff\<close> below).\<close>

inductive_set star :: "jsstring set \<Rightarrow> jsstring set" for A :: "jsstring set" where
  star_empty: "[] \<in> star A"
| star_more: "u \<in> A \<Longrightarrow> v \<in> star A \<Longrightarrow> u @ v \<in> star A"

fun lang :: "rx \<Rightarrow> jsstring set" where
  "lang Never = {}"
| "lang Eps = {[]}"
| "lang (Cls p) = {[c] | c. p c}"
| "lang (Cat r s) = {u @ v | u v. u \<in> lang r \<and> v \<in> lang s}"
| "lang (Alt r s) = lang r \<union> lang s"
| "lang (Star r) = star (lang r)"

text \<open>Every character class of the pattern lies within \<open>P\<close>.\<close>

fun classes_within :: "(code_unit \<Rightarrow> bool) \<Rightarrow> rx \<Rightarrow> bool" where
  "classes_within P Never = True"
| "classes_within P Eps = True"
| "classes_within P (Cls p) = (\<forall>c. p c \<longrightarrow> P c)"
| "classes_within P (Cat r s) = (classes_within P r \<and> classes_within P s)"
| "classes_within P (Alt r s) = (classes_within P r \<and> classes_within P s)"
| "classes_within P (Star r) = classes_within P r"

section \<open>The validation rules as the specification lists them\<close>

definition entries :: "jsstring list option \<Rightarrow> jsstring list" where
  "entries list = (case list of None \<Rightarrow> [] | Some xs \<Rightarrow> xs)"

definition known_type :: "jsstring \<Rightarrow> bool" where
  "known_type t = (t = js ''email'' \<or> t = js ''wallet'' \<or> t = js ''time'' \<or> t = js ''hybrid'')"

text \<open>
  The specification's list, word for word: an unknown condition type, a
  malformed email or address, a SuiNS name that violates the length bounds (4 to
  64) or lacks the suffix \<open>.sui\<close>, a start time not before the end time when both
  are set, a duration or a count that is not positive, a hybrid rule with none of
  the condition families (emails, addresses, time) populated.
\<close>

definition listed_violation :: "(jsstring \<Rightarrow> bool) \<Rightarrow> AccessControlRule \<Rightarrow> bool" where
  "listed_violation isValidSuiAddress rule =
     (\<not> known_type (conditionType rule)
      \<or> (\<exists>e \<in> set (entries (allowedEmails rule)). \<not> isValidEmail e)
      \<or> (\<exists>a \<in> set (entries (allowedAddresses rule)). \<not> isValidSuiAddress a)
      \<or> (\<exists>n \<in> set (entries (allowedSuiNS rule)).
            length n < 4 \<or> 64 < length n \<or> \<not> suffix (js ''.sui'') n)
      \<or> (\<exists>a b. accessStartTime rule = Some a \<and> accessEndTime rule = Some b \<and> a \<ge> b)
      \<or> (\<exists>d. maxAccessDuration rule = Some d \<and> d \<le> 0)
      \<or> (\<exists>c. maxAccessCount rule = Some c \<and> c \<le> 0)
      \<or> (conditionType rule = js ''hybrid''
          \<and> entries (allowedEmails rule) = [] \<and> entries (allowedAddresses rule) = []
          \<and> accessStartTime rule = None \<and> accessEndTime rule = None
          \<and> maxAccessDuration rule = None))"

text \<open>
  The list as the code checks it: a SuiNS name is judged by \<open>isValidSuiNS\<close> itself
  (the pattern and the length bounds), and the numeric conditions are stated
  for values other than 0.
\<close>

definition violation :: "(jsstring \<Rightarrow> bool) \<Rightarrow> AccessControlRule \<Rightarrow> bool" where
  "violation isValidSuiAddress rule =
     (\<not> known_type (conditionType rule)
      \<or> (\<exists>e \<in> set (entries (allowedEmails rule)). \<not> isValidEmail e)
      \<or> (\<exists>a \<in> set (entries (allowedAddresses rule)). \<not> isValidSuiAddress a)
      \<or> (\<exists>n \<in> set (entries (allowedSuiNS rule)). \<not> isValidSuiNS n)
      \<or> (\<exists>a b. accessStartTime rule = Some a \<and> accessEndTime rule = Some b
                \<and> a \<noteq> 0 \<and> b \<noteq> 0 \<and> a \<ge> b)
      \<or> (\<exists>d. maxAccessDuration rule = Some d \<and> d < 0)
      \<or> (\<exists>c. maxAccessCount rule = Some c \<and> c < 0)
      \<or> (conditionType rule = js ''hybrid''
          \<and> entries (allowedEmails rule) = [] \<and> entries (allowedAddresses rule) = []
          \<and> accessStartTime rule = None \<and> accessEndTime rule = None
          \<and> maxAccessDuration rule = None))"

text \<open>No numeric field of the rule is present with the value 0.\<close>

definition no_zero_field :: "AccessControlRule \<Rightarrow> bool" where
  "no_zero_field rule =
     (accessStartTime rule \<noteq> Some 0 \<and> accessEndTime rule \<noteq> Some 0
      \<and> maxAccessDuration rule \<noteq> Some 0 \<and> maxAccessCount rule \<noteq> Some 0)"

section \<open>The invariant of the loops of \<open>parseBulkData\<close>\<close>

text \<open>
  After the cells \<open>seen\<close> the three lists have no duplicates, and every cell seen
  is in the list of the first check it passes.
\<close>

definition sorted_out :: "(jsstring \<Rightarrow> bool) \<Rightarrow> jsstring set \<Rightarrow> ParsedBulkData \<Rightarrow> bool" where
  "sorted_out isValidSuiAddress seen res =
     (distinct (emails res) \<and> distinct (addresses res) \<and> distinct (suiNSNames res)
      \<and> (\<forall>t \<in> seen. t \<noteq> [] \<longrightarrow>
            (isValidEmail t \<longrightarrow> t \<in> set (emails res))
          \<and> (\<not> isValidEmail t \<and> isValidSuiAddress t \<longrightarrow> t \<in> set (addresses res))
          \<and> (\<not> isValidEmail t \<and> \<not> isValidSuiAddress t \<and> isValidSuiNS t
               \<longrightarrow> t \<in> set (suiNSNames res))))"

section \<open>Text encoding\<close>

text \<open>
  \<open>TextEncoder.encode\<close> turns the code units into code points (a surrogate
  without its partner becomes U+FFFD) and writes each in UTF-8.
\<close>

definition high_surrogate :: "code_unit \<Rightarrow> bool" where
  "high_surrogate u = (0xD800 \<le> u \<and> u \<le> 0xDBFF)"

definition low_surrogate :: "code_unit \<Rightarrow> bool" where
  "low_surrogate u = (0xDC00 \<le> u \<and> u \<le> 0xDFFF)"

fun code_points :: "jsstring \<Rightarrow> nat list" where
  "code_points [] = []"
| "code_points [u] = (if high_surrogate u \<or> low_surrogate u then [0xFFFD] else [unat u])"
| "code_points (u # l # us) =
     (if high_surrogate u then
        (if low_surrogate l
         then (0x10000 + (unat u - 0xD800) * 0x400 + (unat l - 0xDC00)) # code_points us
         else 0xFFFD # code_points (l # us))
      else if low_surrogate u then 0xFFFD # code_points (l # us)
      else unat u # code_points (l # us))"

definition utf8_bytes :: "nat \<Rightarrow> byte list" where
  "utf8_bytes cp =
     (if cp < 0x80 then [of_nat cp]
      else if cp < 0x800 then [of_nat (0xC0 + cp div 0x40), of_nat (0x80 + cp mod 0x40)]
      else if cp < 0x10000 then
        [of_nat (0xE0 + cp div 0x1000), of_nat (0x80 + cp div 0x40 mod 0x40), of_nat (0x80 + cp mod 0x40)]
      else
        [of_nat (0xF0 + cp div 0x40000), of_nat (0x80 + cp div 0x1000 mod 0x40),
         of_nat (0x80 + cp div 0x40 mod 0x40), of_nat (0x80 + cp mod 0x40)])"

definition TextEncoder_encode :: "jsstring \<Rightarrow> byte list" where
  "TextEncoder_encode s = concat (map utf8_bytes (code_points s))"

text \<open>
  \<open>TextDecoder.decode\<close> (UTF-8, not fatal): the decoder of the Encoding standard.
  Its state is the code point being assembled, the continuation bytes still
  needed, and the range allowed for the next byte. A byte that cannot continue a
  sequence ends it with U+FFFD and is read again as the start of a new one.
\<close>

record utf8_state =
  code_point :: nat
  bytes_needed :: nat
  lower_boundary :: nat
  upper_boundary :: nat

definition utf8_initial :: utf8_state where
  "utf8_initial = \<lparr> code_point = 0, bytes_needed = 0, lower_boundary = 0x80, upper_boundary = 0xBF \<rparr>"

text \<open>A byte read with no sequence open: a code point to emit, or the state after a lead byte.\<close>

definition lead_byte :: "nat \<Rightarrow> nat + utf8_state" where
  "lead_byte b =
     (if b \<le> 0x7F then Inl b
      else if 0xC2 \<le> b \<and> b \<le> 0xDF then
        Inr \<lparr> code_point = b mod 0x20, bytes_needed = 1, lower_boundary = 0x80, upper_boundary = 0xBF \<rparr>
      else if 0xE0 \<le> b \<and> b \<le> 0xEF then
        Inr \<lparr> code_point = b mod 0x10, bytes_needed = 2,
              lower_boundary = (if b = 0xE0 then 0xA0 else 0x80),
              upper_boundary = (if b = 0xED then 0x9F else 0xBF) \<rparr>
      else if 0xF0 \<le> b \<and> b \<le> 0xF4 then
        Inr \<lparr> code_point = b mod 0x08, bytes_needed = 3,
              lower_boundary = (if b = 0xF0 then 0x90 else 0x80),
              upper_boundary = (if b = 0xF4 then 0x8F else 0xBF) \<rparr>
      else Inl 0xFFFD)"

fun utf8_decode :: "utf8_state \<Rightarrow> byte list \<Rightarrow> nat list" where
  "utf8_decode st [] = (if bytes_needed st \<noteq> 0 then [0xFFFD] else [])"
| "utf8_decode st (b # bs) =
     (if bytes_needed st = 0 then
        (case lead_byte (unat b) of
           Inl cp \<Rightarrow> cp # utf8_decode utf8_initial bs
         | Inr st' \<Rightarrow> utf8_decode st' bs)
      else if lower_boundary st \<le> unat b \<and> unat b \<le> upper_boundary st then
        (if bytes_needed st = 1
         then (code_point st * 0x40 + unat b mod 0x40) # utf8_decode utf8_initial bs
         else utf8_decode \<lparr> code_point = code_point st * 0x40 + unat b mod 0x40,
                             bytes_needed = bytes_needed st - 1,
                             lower_boundary = 0x80, upper_boundary = 0xBF \<rparr> bs)
      else
        0xFFFD # (case lead_byte (unat b) of
                    Inl cp \<Rightarrow> cp # utf8_decode utf8_initial bs
                  | Inr st' \<Rightarrow> utf8_decode st' bs))"

definition utf16_units :: "nat \<Rightarrow> jsstring" where
  "utf16_units cp =
     (if cp < 0x10000 then [of_nat cp]
      else [of_nat (0xD800 + (cp - 0x10000) div 0x400), of_nat (0xDC00 + (cp - 0x10000) mod 0x400)])"

text \<open>A byte order mark at the start is dropped (\<open>ignoreBOM\<close> is false).\<close>

definition strip_bom :: "nat list \<Rightarrow> nat list" where
  "strip_bom cps = (case cps of [] \<Rightarrow> [] | cp # rest \<Rightarrow> if cp = 0xFEFF then rest else cps)"

definition TextDecoder_decode :: "byte list \<Rightarrow> jsstring" where
  "TextDecoder_decode bytes = concat (map utf16_units (strip_bom (utf8_decode utf8_initial bytes)))"

section \<open>JSON\<close>

subsection \<open>\<open>JSON.stringify\<close>\<close>

definition hex_digit_unit :: "nat \<Rightarrow> code_unit" where
  "hex_digit_unit d = (if d < 10 then of_nat (48 + d) else of_nat (87 + d))"

text \<open>\<open>\uXXXX\<close>, with lower-case digits.\<close>

definition unicode_escape :: "code_unit \<Rightarrow> jsstring" where
  "unicode_escape u =
     [0x5C, 0x75, hex_digit_unit (unat u div 4096), hex_digit_unit (unat u div 256 mod 16),
      hex_digit_unit (unat u div 16 mod 16), hex_digit_unit (unat u mod 16)]"

text \<open>One code unit that is not part of a surrogate pair, as \<open>QuoteJSONString\<close> writes it.\<close>

definition quote_unit :: "code_unit \<Rightarrow> jsstring" where
  "quote_unit u =
     (if u = 0x22 then [0x5C, 0x22]
      else if u = 0x5C then [0x5C, 0x5C]
      else if u = 0x08 then [0x5C, 0x62]
      else if u = 0x0C then [0x5C, 0x66]
      else if u = 0x0A then [0x5C, 0x6E]
      else if u = 0x0D then [0x5C, 0x72]
      else if u = 0x09 then [0x5C, 0x74]
      else if u < 0x20 \<or> high_surrogate u \<or> low_surrogate u then unicode_escape u
      else [u])"

fun quote_units :: "jsstring \<Rightarrow> jsstring" where
  "quote_units [] = []"
| "quote_units [u] = quote_unit u"
| "quote_units (u # l # us) =
     (if high_surrogate u \<and> low_surrogate l then u # l # quote_units us
      else quote_unit u @ quote_units (l # us))"

definition QuoteJSONString :: "jsstring \<Rightarrow> jsstring" where
  "QuoteJSONString s = [0x22] @ quote_units s @ [0x22]"

text \<open>
  \<open>JSON.stringify\<close> of a value whose numbers are natural numbers (lengths,
  timestamps, bytes; written in decimal). A property whose value is \<open>undefined\<close>
  is left out; \<open>undefined\<close> in an array is written \<open>null\<close>.
\<close>

fun JSON_stringify :: "nat jsval \<Rightarrow> jsstring"
  and stringify_elements :: "nat jsval list \<Rightarrow> jsstring list"
  and stringify_members :: "(jsstring \<times> nat jsval) list \<Rightarrow> jsstring list" where
  "JSON_stringify JUndefined = js ''null''"
| "JSON_stringify JNull = js ''null''"
| "JSON_stringify (JBool b) = (if b then js ''true'' else js ''false'')"
| "JSON_stringify (JNum n) = nat_toString n"
| "JSON_stringify (JStr s) = QuoteJSONString s"
| "JSON_stringify (JArr xs) = js ''['' @ intercalate (js '','') (stringify_elements xs) @ js '']''"
| "JSON_stringify (JObj ps) = js ''{'' @ intercalate (js '','') (stringify_members ps) @ js ''}''"
| "stringify_elements [] = []"
| "stringify_elements (x # xs) = JSON_stringify x # stringify_elements xs"
| "stringify_members [] = []"
| "stringify_members (p # ps) =
     (case snd p of
        JUndefined \<Rightarrow> stringify_members ps
      | _ \<Rightarrow> (QuoteJSONString (fst p) @ js '':'' @ JSON_stringify (snd p)) # stringify_members ps)"

subsection \<open>\<open>JSON.parse\<close>\<close>

definition json_space :: "code_unit \<Rightarrow> bool" where
  "json_space c = (c = 0x20 \<or> c = 0x09 \<or> c = 0x0A \<or> c = 0x0D)"

definition skip_ws :: "jsstring \<Rightarrow> jsstring" where
  "skip_ws s = dropWhile json_space s"

definition hex_value :: "code_unit \<Rightarrow> nat option" where
  "hex_value c =
     (if is_digit c then Some (unat c - 0x30)
      else if 0x61 \<le> c \<and> c \<le> 0x66 then Some (unat c - 0x61 + 10)
      else if 0x41 \<le> c \<and> c \<le> 0x46 then Some (unat c - 0x41 + 10)
      else None)"

definition hex4_value :: "code_unit \<Rightarrow> code_unit \<Rightarrow> code_unit \<Rightarrow> code_unit \<Rightarrow> code_unit option" where
  "hex4_value a b c d =
     (case (hex_value a, hex_value b, hex_value c, hex_value d) of
        (Some x, Some y, Some z, Some w) \<Rightarrow> Some (of_nat (x * 4096 + y * 256 + z * 16 + w))
      | _ \<Rightarrow> None)"

text \<open>The character after a backslash.\<close>

definition unescape :: "code_unit \<Rightarrow> code_unit option" where
  "unescape e =
     (if e = 0x22 then Some 0x22
      else if e = 0x5C then Some 0x5C
      else if e = 0x2F then Some 0x2F
      else if e = 0x62 then Some 0x08
      else if e = 0x66 then Some 0x0C
      else if e = 0x6E then Some 0x0A
      else if e = 0x72 then Some 0x0D
      else if e = 0x74 then Some 0x09
      else None)"

definition cons_unit :: "code_unit \<Rightarrow> (jsstring \<times> jsstring) option \<Rightarrow> (jsstring \<times> jsstring) option" where
  "cons_unit u r = (case r of None \<Rightarrow> None | Some (s, rest) \<Rightarrow> Some (u # s, rest))"

text \<open>A string, read after its opening quote: its value and the text after the closing quote.\<close>

fun parse_string :: "jsstring \<Rightarrow> (jsstring \<times> jsstring) option" where
  "parse_string [] = None"
| "parse_string (c # r) =
     (if c = 0x22 then Some ([], r)
      else if c = 0x5C then
        (case r of
           [] \<Rightarrow> None
         | e # r1 \<Rightarrow>
             if e = 0x75 then
               (case r1 of
                  h1 # h2 # h3 # h4 # r2 \<Rightarrow>
                    (case hex4_value h1 h2 h3 h4 of
                       Some u \<Rightarrow> cons_unit u (parse_string r2)
                     | None \<Rightarrow> None)
                | _ \<Rightarrow> None)
             else (case unescape e of Some u \<Rightarrow> cons_unit u (parse_string r1) | None \<Rightarrow> None))
      else if c < 0x20 then None
      else cons_unit c (parse_string r))"

text \<open>The value of a run of decimal digits.\<close>

definition digits_value :: "jsstring \<Rightarrow> nat" where
  "digits_value ds = foldl (\<lambda>n d. 10 * n + (unat d - 0x30)) 0 ds"

text \<open>
  A number: \<open>-? (0 | [1-9][0-9]*) (. [0-9]+)? ([eE] [+-]? [0-9]+)?\<close>, read exactly
  (the rounding of a literal to a double is not modelled).
\<close>

definition parse_int_part :: "jsstring \<Rightarrow> (nat \<times> jsstring) option" where
  "parse_int_part s =
     (case s of
        [] \<Rightarrow> None
      | c # r \<Rightarrow>
          if c = 0x30 then Some (0, r)
          else if is_digit c then Some (digits_value (takeWhile is_digit s), dropWhile is_digit s)
          else None)"

definition parse_fraction :: "jsstring \<Rightarrow> (rat \<times> jsstring) option" where
  "parse_fraction s =
     (case s of
        c # r \<Rightarrow>
          if c = 0x2E then
            (let ds = takeWhile is_digit r in
             if ds = [] then None
             else Some (of_nat (digits_value ds) / 10 ^ length ds, dropWhile is_digit r))
          else Some (0, s)
      | [] \<Rightarrow> Some (0, s))"

definition parse_exponent :: "jsstring \<Rightarrow> (int \<times> jsstring) option" where
  "parse_exponent s =
     (case s of
        c # r \<Rightarrow>
          if c = 0x65 \<or> c = 0x45 then
            (let negative = (case r of sign # r1 \<Rightarrow> sign = 0x2D | [] \<Rightarrow> False);
                 r1 = (case r of sign # r1 \<Rightarrow> if sign = 0x2D \<or> sign = 0x2B then r1 else r | [] \<Rightarrow> r);
                 ds = takeWhile is_digit r1
             in if ds = [] then None
                else Some (if negative then - int (digits_value ds) else int (digits_value ds),
                           dropWhile is_digit r1))
          else Some (0, s)
      | [] \<Rightarrow> Some (0, s))"

definition parse_number :: "jsstring \<Rightarrow> (rat jsval \<times> jsstring) option" where
  "parse_number s =
     (let negative = (case s of c # r \<Rightarrow> c = 0x2D | [] \<Rightarrow> False);
          s1 = (if negative then tl s else s)
      in case parse_int_part s1 of
           None \<Rightarrow> None
         | Some (i, s2) \<Rightarrow>
         (case parse_fraction s2 of
           None \<Rightarrow> None
         | Some (f, s3) \<Rightarrow>
         (case parse_exponent s3 of
           None \<Rightarrow> None
         | Some (e, s4) \<Rightarrow>
             Some (JNum ((if negative then - 1 else 1) * (of_nat i + f) * (10 powi e)), s4))))"

text \<open>\<open>true\<close>, \<open>false\<close> and \<open>null\<close>.\<close>

definition parse_literal :: "jsstring \<Rightarrow> (rat jsval \<times> jsstring) option" where
  "parse_literal s =
     (if prefix (js ''true'') s then Some (JBool True, drop 4 s)
      else if prefix (js ''false'') s then Some (JBool False, drop 5 s)
      else if prefix (js ''null'') s then Some (JNull, drop 4 s)
      else None)"

text \<open>
  The recursive descent. The first argument bounds the depth of the calls; every
  second call at least consumes a character, so \<open>2 * length s + 2\<close> is never
  used up. \<open>parse_elements\<close> reads the elements of an array after \<open>[\<close> and
  \<open>parse_members\<close> the members of an object after \<open>{\<close>, both up to the closing
  bracket; a repeated member name keeps its place and takes the later value.
\<close>

fun parse_value :: "nat \<Rightarrow> jsstring \<Rightarrow> (rat jsval \<times> jsstring) option"
  and parse_elements :: "nat \<Rightarrow> jsstring \<Rightarrow> rat jsval list \<Rightarrow> (rat jsval \<times> jsstring) option"
  and parse_members :: "nat \<Rightarrow> jsstring \<Rightarrow> (jsstring \<times> rat jsval) list \<Rightarrow> (rat jsval \<times> jsstring) option" where
  "parse_value 0 s = None"
| "parse_value (Suc fuel) s =
     (case skip_ws s of
        [] \<Rightarrow> None
      | c # r \<Rightarrow>
          if c = 0x7B then
            (case skip_ws r of
               [] \<Rightarrow> None
             | c2 # r2 \<Rightarrow> if c2 = 0x7D then Some (JObj [], r2) else parse_members fuel (c2 # r2) [])
          else if c = 0x5B then
            (case skip_ws r of
               [] \<Rightarrow> None
             | c2 # r2 \<Rightarrow> if c2 = 0x5D then Some (JArr [], r2) else parse_elements fuel (c2 # r2) [])
          else if c = 0x22 then
            (case parse_string r of None \<Rightarrow> None | Some (str, r1) \<Rightarrow> Some (JStr str, r1))
          else if c = 0x2D \<or> is_digit c then parse_number (c # r)
          else parse_literal (c # r))"
| "parse_elements 0 s acc = None"
| "parse_elements (Suc fuel) s acc =
     (case parse_value fuel s of
        None \<Rightarrow> None
      | Some (v, r) \<Rightarrow>
          (case skip_ws r of
             [] \<Rightarrow> None
           | c # r1 \<Rightarrow>
               if c = 0x2C then parse_elements fuel r1 (acc @ [v])
               else if c = 0x5D then Some (JArr (acc @ [v]), r1)
               else None))"
| "parse_members 0 s acc = None"
| "parse_members (Suc fuel) s acc =
     (case skip_ws s of
        [] \<Rightarrow> None
      | q # r \<Rightarrow>
          if q = 0x22 then
            (case parse_string r of
               None \<Rightarrow> None
             | Some (k, r1) \<Rightarrow>
                 (case skip_ws r1 of
                    [] \<Rightarrow> None
                  | colon # r2 \<Rightarrow>
                      if colon = 0x3A then
                        (case parse_value fuel r2 of
                           None \<Rightarrow> None
                         | Some (v, r3) \<Rightarrow>
                             (case skip_ws r3 of
                                [] \<Rightarrow> None
                              | c # r4 \<Rightarrow>
                                  if c = 0x2C then parse_members fuel r4 (AList.update k v acc)
                                  else if c = 0x7D then Some (JObj (AList.update k v acc), r4)
                                  else None))
                      else None))
          else None)"

text \<open>\<open>JSON.parse\<close>: one value with nothing but white space after it, or a \<open>SyntaxError\<close>.\<close>

definition JSON_parse :: "Env \<Rightarrow> jsstring \<Rightarrow> exn + rat jsval" where
  "JSON_parse env s =
     (case parse_value (2 * length s + 2) s of
        None \<Rightarrow> Inl (Error (syntax_error_message env))
      | Some (v, rest) \<Rightarrow>
          if skip_ws rest = [] then Inr v else Inl (Error (syntax_error_message env)))"

section \<open>Typed arrays\<close>

text \<open>
  \<open>ToNumber\<close> on a parsed value. A string is converted by the engine
  (\<open>StringToNumber\<close>). An array is first joined into a string: the empty array
  gives the empty string, an array of one element the string of that element
  (a number comes back as itself, \<open>null\<close> is the empty string), and a longer one
  a string with a comma, which is no number; nor are \<open>true\<close>, \<open>false\<close> and
  \<open>[object Object]\<close>.
\<close>

fun ToNumber :: "Env \<Rightarrow> rat jsval \<Rightarrow> jsnumber" where
  "ToNumber env JUndefined = NaN"
| "ToNumber env JNull = Finite 0"
| "ToNumber env (JBool b) = Finite (if b then 1 else 0)"
| "ToNumber env (JNum r) = Finite r"
| "ToNumber env (JStr s) = StringToNumber env s"
| "ToNumber env (JObj ps) = NaN"
| "ToNumber env (JArr []) = StringToNumber env []"
| "ToNumber env (JArr [JUndefined]) = StringToNumber env []"
| "ToNumber env (JArr [JNull]) = StringToNumber env []"
| "ToNumber env (JArr [JBool b]) = NaN"
| "ToNumber env (JArr [JNum r]) = Finite r"
| "ToNumber env (JArr [JStr s]) = StringToNumber env s"
| "ToNumber env (JArr [JObj ps]) = NaN"
| "ToNumber env (JArr [JArr xs]) = ToNumber env (JArr xs)"
| "ToNumber env (JArr (x # y # zs)) = NaN"

text \<open>Rounding towards zero.\<close>

definition trunc_zero :: "rat \<Rightarrow> int" where
  "trunc_zero r = (if r \<ge> 0 then \<lfloor>r\<rfloor> else - \<lfloor>- r\<rfloor>)"

text \<open>\<open>ToUint8\<close>: the integer part modulo 256; 0 for \<open>NaN\<close> and the infinities.\<close>

definition ToUint8 :: "jsnumber \<Rightarrow> byte" where
  "ToUint8 n = (case n of Finite r \<Rightarrow> of_int (trunc_zero r) | _ \<Rightarrow> 0)"

text \<open>
  Allocation of a typed array of a given length: a \<open>RangeError\<close> when the length
  is negative or beyond what the engine allocates.
\<close>

definition allocate :: "Env \<Rightarrow> int \<Rightarrow> exn + byte list" where
  "allocate env n =
     (if n < 0 \<or> n > 2 ^ 53 - 1 \<or> nat n > max_typed_array_length env
      then Inl (Error (range_error_message env))
      else Inr (replicate (nat n) 0))"

text \<open>\<open>ToIntegerOrInfinity\<close>, with the infinities sent out of the range of \<open>ToIndex\<close> and \<open>ToLength\<close>.\<close>

definition ToInteger :: "jsnumber \<Rightarrow> int" where
  "ToInteger n =
     (case n of Finite r \<Rightarrow> trunc_zero r | NaN \<Rightarrow> 0 | PosInfinity \<Rightarrow> 2 ^ 53 | NegInfinity \<Rightarrow> - (2 ^ 53))"

text \<open>
  \<open>new Uint8Array(v)\<close> for a parsed value \<open>v\<close>. An array is copied element by
  element. Any other object is read as an array-like: its \<open>length\<close> property,
  then the properties \<open>0\<close>, \<open>1\<close>, ... A value that is not an object is read as a
  length, and the array is filled with zeros.
\<close>

definition array_like_length :: "Env \<Rightarrow> (jsstring \<times> rat jsval) list \<Rightarrow> int" where
  "array_like_length env ps =
     (case map_of ps (js ''length'') of
        None \<Rightarrow> 0
      | Some l \<Rightarrow> max 0 (min (ToInteger (ToNumber env l)) (2 ^ 53 - 1)))"

definition array_like_element :: "Env \<Rightarrow> (jsstring \<times> rat jsval) list \<Rightarrow> nat \<Rightarrow> byte" where
  "array_like_element env ps k =
     (case map_of ps (nat_toString k) of None \<Rightarrow> 0 | Some x \<Rightarrow> ToUint8 (ToNumber env x))"

definition Uint8Array_new :: "Env \<Rightarrow> rat jsval \<Rightarrow> exn + byte list" where
  "Uint8Array_new env v =
     (case v of
        JArr xs \<Rightarrow> Inr (map (\<lambda>x. ToUint8 (ToNumber env x)) xs)
      | JObj ps \<Rightarrow>
          try_bind (allocate env (array_like_length env ps))
            (\<lambda>zeros. Inr (map (array_like_element env ps) [0..<length zeros]))
      | _ \<Rightarrow> allocate env (ToInteger (ToNumber env v)))"

text \<open>\<open>v[0]\<close> on a parsed value.\<close>

definition Index0 :: "Env \<Rightarrow> 'n jsval \<Rightarrow> exn + 'n jsval" where
  "Index0 env v =
     (case v of
        JUndefined \<Rightarrow> Inl (Error (type_error_message env))
      | JNull \<Rightarrow> Inl (Error (type_error_message env))
      | JArr xs \<Rightarrow> (case xs of [] \<Rightarrow> Inr JUndefined | x # rest \<Rightarrow> Inr x)
      | JStr s \<Rightarrow> (case s of [] \<Rightarrow> Inr JUndefined | c # rest \<Rightarrow> Inr (JStr [c]))
      | JObj ps \<Rightarrow> (case map_of ps (js ''0'') of None \<Rightarrow> Inr JUndefined | Some x \<Rightarrow> Inr x)
      | _ \<Rightarrow> Inr JUndefined)"

section \<open>The encryption service\<close>

record EncryptionMetadata =
  originalSize :: nat
  encryptionAlgorithm :: jsstring
  timestamp :: nat

record EncryptionResult = ErrorOutcome +
  encryptedData :: "byte list option"
  publicKey :: "jsstring option"
  secretKey :: "jsstring option"
  metadata :: "EncryptionMetadata option"

record DecryptionResult = ErrorOutcome +
  decryptedData :: "byte list option"

text \<open>The results of the private helpers \<open>_generateKeyPair\<close> and \<open>_encryptData\<close>.\<close>

record KeyPairResult = ErrorOutcome +
  publicKey :: "jsstring option"
  secretKey :: "jsstring option"

record EncryptDataResult = ErrorOutcome +
  encryptedData :: "byte list option"

definition get_world :: "World prog" where
  "get_world = (\<lambda>w. (Inr w, w))"

text \<open>
  \<open>_initializeSeal\<close>: a failed import is caught and the mock takes the library's
  place, so the outer \<open>catch\<close> has nothing to catch.
\<close>

definition initializeSeal :: "Env \<Rightarrow> unit prog" where
  "initializeSeal env =
     try_catch
       (pbind (try_catch
                 (pbind (lift (import_seal env)) (\<lambda>_. modify (\<lambda>w. w\<lparr>SealLibrary := Some SealModule\<rparr>)))
                 (\<lambda>importError. modify (\<lambda>w. w\<lparr>SealLibrary := Some MockLibrary\<rparr>))) (\<lambda>_.
        modify (\<lambda>w. w\<lparr>isInitialized := True\<rparr>)))
       (\<lambda>e. throw (Error (js ''Seal initialization failed: '' @ message_or e (js ''Unknown error''))))"

definition initialize :: "Env \<Rightarrow> unit prog" where
  "initialize env =
     (\<lambda>w. if isInitialized w then (Inr (), w)
          else (case initializationPromise w of
                  Some outcome \<Rightarrow> (outcome, w)
                | None \<Rightarrow>
                    (case initializeSeal env w of
                       (outcome, w') \<Rightarrow> (outcome, w'\<lparr>initializationPromise := Some outcome\<rparr>))))"

definition isReady_service :: "World \<Rightarrow> bool" where
  "isReady_service w = (isInitialized w \<and> SealLibrary w \<noteq> None)"

subsection \<open>Keys\<close>

definition digit36_unit :: "nat \<Rightarrow> code_unit" where
  "digit36_unit d = hex_digit_unit (d mod 36)"

text \<open>\<open>n.toString(36)\<close> for an integer \<open>n\<close>.\<close>

fun toString36 :: "nat \<Rightarrow> jsstring" where
  "toString36 n = (if n < 36 then [digit36_unit n] else toString36 (n div 36) @ [digit36_unit (n mod 36)])"

declare toString36.simps [simp del]

text \<open>\<open>x.toString(36)\<close> for \<open>0 \<le> x < 1\<close> with the given fraction digits.\<close>

definition fraction_toString36 :: "nat list \<Rightarrow> jsstring" where
  "fraction_toString36 ds = (if ds = [] then js ''0'' else js ''0.'' @ map digit36_unit ds)"

definition Math_random_call :: "Env \<Rightarrow> nat list prog" where
  "Math_random_call env =
     (\<lambda>w. (Inr (Math_random env (random_reads w)), w\<lparr>random_reads := Suc (random_reads w)\<rparr>))"

definition generateKeyPair :: "Env \<Rightarrow> KeyPairResult prog" where
  "generateKeyPair env =
     try_catch
       (pbind (Date_now_call env) (\<lambda>now.
        pbind (Math_random_call env) (\<lambda>random.
        let keyId = toString36 now @ drop 2 (fraction_toString36 random) in
        ret \<lparr> success = True, ErrorOutcome.error = None,
              KeyPairResult.publicKey = Some (js ''seal_public_'' @ keyId),
              KeyPairResult.secretKey = Some (js ''seal_secret_'' @ keyId) \<rparr>)))
       (\<lambda>e. ret \<lparr> success = False, ErrorOutcome.error = Some (message_or e (js ''Key generation failed'')),
                   KeyPairResult.publicKey = None, KeyPairResult.secretKey = None \<rparr>)"

subsection \<open>The envelope\<close>

definition optional_string :: "jsstring option \<Rightarrow> 'n jsval" where
  "optional_string s = (case s of None \<Rightarrow> JUndefined | Some t \<Rightarrow> JStr t)"

text \<open>The object literal \<open>encryptionMetadata\<close> of \<open>_encryptData\<close>.\<close>

definition encryptionMetadata :: "byte list \<Rightarrow> jsstring option \<Rightarrow> nat \<Rightarrow> nat jsval" where
  "encryptionMetadata bytes key now =
     JObj [(js ''algorithm'', JStr (js ''Seal-BFV'')),
           (js ''publicKey'', optional_string key),
           (js ''originalSize'', JNum (length bytes)),
           (js ''timestamp'', JNum now),
           (js ''encryptedChunks'', JArr [JArr (map (\<lambda>b. JNum (unat b)) bytes)])]"

definition encryptData :: "Env \<Rightarrow> byte list \<Rightarrow> jsstring option \<Rightarrow> EncryptDataResult prog" where
  "encryptData env bytes key =
     try_catch
       (pbind (Date_now_call env) (\<lambda>now.
        ret \<lparr> success = True, ErrorOutcome.error = None,
              EncryptDataResult.encryptedData =
                Some (TextEncoder_encode (JSON_stringify (encryptionMetadata bytes key now))) \<rparr>))
       (\<lambda>e. ret \<lparr> success = False, ErrorOutcome.error = Some (message_or e (js ''Encryption failed'')),
                   EncryptDataResult.encryptedData = None \<rparr>)"

definition decryptData :: "Env \<Rightarrow> byte list \<Rightarrow> DecryptionResult prog" where
  "decryptData env bytes =
     try_catch
       (pbind (lift (JSON_parse env (TextDecoder_decode bytes))) (\<lambda>parsed.
        pbind (lift (Get env parsed (js ''encryptedChunks''))) (\<lambda>chunks.
        pbind (lift (Index0 env chunks)) (\<lambda>chunk.
        pbind (lift (Uint8Array_new env chunk)) (\<lambda>plain.
        ret \<lparr> success = True, ErrorOutcome.error = None, decryptedData = Some plain \<rparr>)))))
       (\<lambda>e. ret \<lparr> success = False, ErrorOutcome.error = Some (message_or e (js ''Decryption failed'')),
                   decryptedData = None \<rparr>)"

subsection \<open>\<open>encryptFile\<close> and \<open>decryptFile\<close>\<close>

text \<open>\<open>`${e}`\<close> for an optional string.\<close>

definition template :: "jsstring option \<Rightarrow> jsstring" where
  "template e = (case e of None \<Rightarrow> js ''undefined'' | Some s \<Rightarrow> s)"

definition encryption_failed :: "jsstring \<Rightarrow> EncryptionResult" where
  "encryption_failed msg =
     \<lparr> success = False, ErrorOutcome.error = Some msg,
       EncryptionResult.encryptedData = None, EncryptionResult.publicKey = None,
       EncryptionResult.secretKey = None, metadata = None \<rparr>"

definition encryptFile :: "Env \<Rightarrow> File \<Rightarrow> EncryptionResult prog" where
  "encryptFile env file =
     try_catch
       (pbind (initialize env) (\<lambda>_.
        pbind get_world (\<lambda>w.
        if \<not> isReady_service w then ret (encryption_failed (js ''Seal encryption service not ready''))
        else
        pbind (lift (arrayBuffer file)) (\<lambda>fileData.
        pbind (generateKeyPair env) (\<lambda>keyPair.
        if \<not> success keyPair
        then ret (encryption_failed (js ''Failed to generate encryption keys: '' @ template (ErrorOutcome.error keyPair)))
        else
        pbind (encryptData env fileData (KeyPairResult.publicKey keyPair)) (\<lambda>encryptionResult.
        if \<not> success encryptionResult
        then ret (encryption_failed (js ''Failed to encrypt file data: '' @ template (ErrorOutcome.error encryptionResult)))
        else
        pbind (Date_now_call env) (\<lambda>now.
        ret \<lparr> success = True, ErrorOutcome.error = None,
              EncryptionResult.encryptedData = EncryptDataResult.encryptedData encryptionResult,
              EncryptionResult.publicKey = KeyPairResult.publicKey keyPair,
              EncryptionResult.secretKey = KeyPairResult.secretKey keyPair,
              metadata = Some \<lparr> originalSize = file_size file,
                                encryptionAlgorithm = js ''Seal-BFV'',
                                timestamp = now \<rparr> \<rparr>)))))))
       (\<lambda>e. ret (encryption_failed (message_or e (js ''Unknown encryption error''))))"

definition decryptFile :: "Env \<Rightarrow> byte list \<Rightarrow> jsstring \<Rightarrow> DecryptionResult prog" where
  "decryptFile env bytes secretKey' =
     try_catch
       (pbind (initialize env) (\<lambda>_.
        pbind get_world (\<lambda>w.
        if \<not> isReady_service w
        then ret \<lparr> success = False, ErrorOutcome.error = Some (js ''Seal encryption service not ready''),
                   decryptedData = None \<rparr>
        else
        pbind (decryptData env bytes) (\<lambda>decryptionResult.
        if \<not> success decryptionResult
        then ret \<lparr> success = False,
                   ErrorOutcome.error = Some (js ''Failed to decrypt data: '' @ template (ErrorOutcome.error decryptionResult)),
                   decryptedData = None \<rparr>
        else ret \<lparr> success = True, ErrorOutcome.error = None,
                   decryptedData = decryptedData decryptionResult \<rparr>))))
       (\<lambda>e. ret \<lparr> success = False, ErrorOutcome.error = Some (message_or e (js ''Unknown decryption error'')),
                   decryptedData = None \<rparr>)"

section \<open>Plain text\<close>

text \<open>
  A printable ASCII character other than the quote and the backslash:
  \<open>JSON.stringify\<close> writes it as itself, \<open>JSON.parse\<close> reads it as itself, and it
  is one byte in UTF-8.
\<close>

definition plain_unit :: "code_unit \<Rightarrow> bool" where
  "plain_unit c = (0x20 \<le> c \<and> c < 0x7F \<and> c \<noteq> 0x22 \<and> c \<noteq> 0x5C)"

text \<open>The envelope as \<open>JSON.parse\<close> returns it.\<close>

definition parsed_envelope :: "byte list \<Rightarrow> jsstring \<Rightarrow> nat \<Rightarrow> rat jsval" where
  "parsed_envelope bytes pk now =
     JObj [(js ''algorithm'', JStr (js ''Seal-BFV'')),
           (js ''publicKey'', JStr pk),
           (js ''originalSize'', JNum (of_nat (length bytes))),
           (js ''timestamp'', JNum (of_nat now)),
           (js ''encryptedChunks'', JArr [JArr (map (\<lambda>b. JNum (of_nat (unat b))) bytes)])]"

section \<open>Uploading\<close>

subsection \<open>\<open>uploadFile\<close> of the file service\<close>

record EncryptionKeys =
  publicKey :: "jsstring option"
  secretKey :: "jsstring option"

record EncryptionData =
  encryptedFile :: File
  encryptionKeys :: EncryptionKeys

text \<open>The form holds one field, \<open>file\<close>: the encrypted file when there is one.\<close>

definition upload_request :: "File \<Rightarrow> jsstring option \<Rightarrow> bool \<Rightarrow> EncryptionData option \<Rightarrow> Request" where
  "upload_request original token useTestMode encryptionData =
     \<lparr> url = (if useTestMode then API_BASE_URL @ js ''/file/upload-test'' else API_BASE_URL @ js ''/file/upload''),
       http_method = js ''POST'',
       headers = bearer token,
       body = Some [(js ''file'', case encryptionData of None \<Rightarrow> original | Some d \<Rightarrow> encryptedFile d)] \<rparr>"

text \<open>
  The own enumerable properties that \<open>{...v}\<close> copies: those of an object, the
  indices of an array or of a string, none for a number or a boolean.
\<close>

fun indexed :: "nat \<Rightarrow> 'a list \<Rightarrow> (jsstring \<times> 'a) list" where
  "indexed k [] = []"
| "indexed k (x # xs) = (nat_toString k, x) # indexed (Suc k) xs"

definition spread :: "'n jsval \<Rightarrow> (jsstring \<times> 'n jsval) list" where
  "spread v =
     (case v of
        JObj ps \<Rightarrow> ps
      | JArr xs \<Rightarrow> indexed 0 xs
      | JStr s \<Rightarrow> indexed 0 (map (\<lambda>c. JStr [c]) s)
      | _ \<Rightarrow> [])"

text \<open>
  \<open>v.k = x\<close>, used where \<open>v.k\<close> was found truthy, which makes \<open>v\<close> an object.
\<close>

definition set_property :: "'n jsval \<Rightarrow> jsstring \<Rightarrow> 'n jsval \<Rightarrow> 'n jsval" where
  "set_property v k x = (case v of JObj ps \<Rightarrow> JObj (AList.update k x ps) | _ \<Rightarrow> v)"

definition keys_value :: "EncryptionKeys \<Rightarrow> 'n jsval" where
  "keys_value ks =
     JObj [(js ''publicKey'', optional_string (EncryptionKeys.publicKey ks)),
           (js ''secretKey'', optional_string (EncryptionKeys.secretKey ks))]"

text \<open>
  \<open>if (encryptionData && result.data) result.data = {...result.data, encryptionKeys, isEncrypted: true}\<close>:
  without \<open>encryptionData\<close> the result is not read.
\<close>

definition add_encryption :: "Env \<Rightarrow> EncryptionData option \<Rightarrow> int jsval \<Rightarrow> exn + int jsval" where
  "add_encryption env encryptionData result =
     (case encryptionData of
        None \<Rightarrow> Inr result
      | Some e \<Rightarrow>
          try_bind (Get env result (js ''data'')) (\<lambda>d.
          if truthy d
          then Inr (set_property result (js ''data'')
                      (JObj (AList.update (js ''isEncrypted'') (JBool True)
                            (AList.update (js ''encryptionKeys'') (keys_value (EncryptionData.encryptionKeys e))
                               (spread d)))))
          else Inr result))"

text \<open>What the \<open>catch\<close> blocks of \<open>uploadFile\<close> and \<open>uploadSingleFile\<close> return.\<close>

definition upload_failed :: "exn \<Rightarrow> int jsval" where
  "upload_failed e =
     JObj [(js ''success'', JBool False), (js ''message'', JStr (message_or e (js ''Upload failed'')))]"

definition uploadFile :: "Env \<Rightarrow> File \<Rightarrow> jsstring option \<Rightarrow> bool \<Rightarrow> EncryptionData option \<Rightarrow> int jsval prog" where
  "uploadFile env original token useTestMode encryptionData =
     try_catch
       (pbind (do_fetch env (upload_request original token useTestMode encryptionData)) (\<lambda>response.
        pbind (lift (json response)) (\<lambda>result.
        pbind (if \<not> ok response then throw_message env result ''Upload failed'' else ret ()) (\<lambda>_.
        lift (add_encryption env encryptionData result)))))
       (\<lambda>e. ret (upload_failed e))"

subsection \<open>\<open>encryptFile\<close> of the hook \<open>useSealEncryption\<close>\<close>

text \<open>
  The hook's functions close over the \<open>state\<close> of the render that created them;
  \<open>setState\<close> changes the state of the next render.
\<close>

definition setState :: "(EncryptionState \<Rightarrow> EncryptionState) \<Rightarrow> unit prog" where
  "setState f = modify (\<lambda>w. w\<lparr>hook_state := f (hook_state w)\<rparr>)"

text \<open>\<open>e || fallback\<close> for an optional string.\<close>

definition string_or :: "jsstring option \<Rightarrow> jsstring \<Rightarrow> jsstring" where
  "string_or e fallback = (case e of None \<Rightarrow> fallback | Some s \<Rightarrow> if s = [] then fallback else s)"

definition useSealEncryption_encryptFile :: "Env \<Rightarrow> EncryptionState \<Rightarrow> File \<Rightarrow> EncryptionResult prog" where
  "useSealEncryption_encryptFile env state original =
     (if \<not> isReady state
      then ret (encryption_failed (js ''Encryption service not ready. Please wait for initialization.''))
      else
        pbind (setState (\<lambda>prev. prev\<lparr>isEncrypting := True, EncryptionState.error := None\<rparr>)) (\<lambda>_.
        try_finally
          (try_catch
             (pbind (encryptFile env original) (\<lambda>result.
              pbind (if \<not> success result
                     then setState (\<lambda>prev. prev\<lparr>EncryptionState.error :=
                            Some (string_or (ErrorOutcome.error result) (js ''Encryption failed''))\<rparr>)
                     else ret ()) (\<lambda>_.
              ret result)))
             (\<lambda>e. pbind (setState (\<lambda>prev. prev\<lparr>EncryptionState.error :=
                            Some (message_or e (js ''Encryption failed''))\<rparr>)) (\<lambda>_.
                  ret (encryption_failed (message_or e (js ''Encryption failed''))))))
          (\<lambda>w. w\<lparr>hook_state := (hook_state w)\<lparr>isEncrypting := False\<rparr>\<rparr>)))"

subsection \<open>\<open>uploadSingleFile\<close> of the component \<open>FileUpload\<close>\<close>

text \<open>An entry of the upload queue; its name, size and type are those of \<open>the_file\<close>.\<close>

record AttachedFile =
  attachment_id :: jsstring
  the_file :: File
  uploaded :: bool
  uploading :: bool

text \<open>
  The file made of the encrypted data, and the keys. A \<open>Blob\<close> built from
  \<open>undefined\<close> holds the text \<open>undefined\<close>.
\<close>

definition encrypted_upload :: "File \<Rightarrow> EncryptionResult \<Rightarrow> EncryptionData" where
  "encrypted_upload original encryptionResult =
     (let bytes = (case EncryptionResult.encryptedData encryptionResult of
                     None \<Rightarrow> TextEncoder_encode (js ''undefined'')
                   | Some d \<Rightarrow> d)
      in \<lparr> encryptedFile =
             \<lparr> name = name original @ js ''.encrypted'',
               mime_type = js ''application/octet-stream'',
               file_size = length bytes,
               arrayBuffer = Inr bytes \<rparr>,
           EncryptionData.encryptionKeys =
             \<lparr> EncryptionKeys.publicKey = EncryptionResult.publicKey encryptionResult,
               EncryptionKeys.secretKey = EncryptionResult.secretKey encryptionResult \<rparr> \<rparr>)"

text \<open>
  The first half of the \<open>try\<close> block: the value of \<open>encryptionData\<close>, which is
  defined exactly when \<open>isEncrypted\<close> was set.
\<close>

definition encrypt_before_upload :: "Env \<Rightarrow> EncryptionState \<Rightarrow> AttachedFile \<Rightarrow> EncryptionData option prog" where
  "encrypt_before_upload env encryptionState attachedFile =
     (if isReady encryptionState
      then try_catch
             (pbind (useSealEncryption_encryptFile env encryptionState (the_file attachedFile)) (\<lambda>encryptionResult.
              if success encryptionResult
              then ret (Some (encrypted_upload (the_file attachedFile) encryptionResult))
              else ret None))
             (\<lambda>encryptError. ret None)
      else ret None)"

definition uploadSingleFile ::
  "Env \<Rightarrow> bool \<Rightarrow> jsstring option \<Rightarrow> bool \<Rightarrow> EncryptionState \<Rightarrow> AttachedFile \<Rightarrow> int jsval prog" where
  "uploadSingleFile env isAuthenticated token useTestMode encryptionState attachedFile =
     (if \<not> useTestMode \<and> \<not> isAuthenticated
      then throw (Error (js ''Please log in to upload files''))
      else
        try_catch
          (pbind (encrypt_before_upload env encryptionState attachedFile) (\<lambda>encryptionData.
           pbind (uploadFile env (the_file attachedFile) token useTestMode encryptionData) (\<lambda>result.
           pbind (lift (Get env result (js ''success''))) (\<lambda>s.
           if \<not> truthy s then throw_message env result ''Upload failed'' else ret result))))
          (\<lambda>e. ret (upload_failed e)))"

section \<open>Sample environment for instantiating the theorems\<close>

text \<open>
  The state of a freshly loaded page: the fields of the service as the class
  initialises them, the initial \<open>useState\<close> value of the hook, nothing sent yet.
\<close>

definition fresh_world :: World where
  "fresh_world =
     \<lparr> isInitialized = False,
       initializationPromise = None,
       SealLibrary = None,
       hook_state = \<lparr> isInitializing = False, isReady = False, isEncrypting = False,
                      isDecrypting = False, EncryptionState.error = None \<rparr>,
       requests = [],
       clock_reads = 0,
       random_reads = 0 \<rparr>"

text \<open>An environment around a given network behaviour.\<close>

definition sample_env :: "(Request \<Rightarrow> exn + Response) \<Rightarrow> Env" where
  "sample_env net =
     \<lparr> fetch = net,
       Date_now = (\<lambda>k. 1700000000000 + k),
       Math_random = (\<lambda>k. [7, 35, 0, 12]),
       import_seal = Inl (Error (js ''Failed to resolve module specifier'')),
       type_error_message = js ''Cannot read properties'',
       syntax_error_message = js ''Unexpected token'',
       range_error_message = js ''Invalid typed array length'',
       StringToNumber = (\<lambda>s. NaN),
       max_typed_array_length = 4294967296 \<rparr>"

definition offline :: "Request \<Rightarrow> exn + Response" where
  "offline req = Inl (Error (js ''Failed to fetch''))"

text \<open>A server that answers every request with status 200, the given JSON body and headers.\<close>

definition serving :: "int jsval \<Rightarrow> (jsstring \<Rightarrow> jsstring option) \<Rightarrow> Request \<Rightarrow> exn + Response" where
  "serving payload hdrs req =
     Inr \<lparr> ok = True, json = Inr payload, blob = Inr [1, 2, 3], headers_get = hdrs \<rparr>"

definition list_payload :: "int jsval" where
  "list_payload =
     JObj [(js ''data'',
            JArr [JObj [(js ''fileCid'', JStr (js ''x'')),
                        (js ''name'', JStr (js ''a.txt'')),
                        (js ''size'', JNum 10)]])]"

definition disposition_headers :: "jsstring \<Rightarrow> jsstring option" where
  "disposition_headers h =
     (if h = js ''Content-Disposition'' then Some (js ''attachment; filename='' @ [dquote] @ js ''a.txt'' @ [dquote])
      else if h = js ''X-File-Encrypted'' then Some (js ''true'')
      else None)"

definition email_rule :: AccessControlRule where
  "email_rule =
     \<lparr> conditionType = js ''email'',
       allowedEmails = Some [js ''a@b.c''],
       allowedAddresses = None,
       allowedSuiNS = None,
       accessStartTime = Some 10,
       accessEndTime = Some 20,
       maxAccessDuration = None,
       requireAllConditions = None,
       maxAccessCount = Some 3 \<rparr>"

text \<open>A rule whose only SuiNS name is a one-letter name.\<close>

definition short_name_rule :: AccessControlRule where
  "short_name_rule = email_rule\<lparr> allowedSuiNS := Some [js ''a.sui''] \<rparr>"

text \<open>A rule that allows an access duration of 0 milliseconds.\<close>

definition zero_duration_rule :: AccessControlRule where
  "zero_duration_rule = email_rule\<lparr> maxAccessDuration := Some 0 \<rparr>"

text \<open>Two lines of CSV in which an email, an address and a SuiNS name each occur twice.\<close>

definition sample_address :: jsstring where
  "sample_address = js ''0x00000000000000000000000000000000000000000000000000000000000000a2''"

definition sample_csv :: jsstring where
  "sample_csv = js ''a@b.c, ab.sui ,'' @ sample_address @ [0x0A]
                @ js ''ab.sui,a@b.c,oops, '' @ sample_address"

text \<open>A file that cannot be read, and a file of three bytes.\<close>

definition unreadable_file :: File where
  "unreadable_file =
     \<lparr> name = js ''a.txt'', mime_type = js ''text/plain'', file_size = 3,
       arrayBuffer = Inl (Error (js ''The file could not be read'')) \<rparr>"

definition small_file :: File where
  "small_file =
     \<lparr> name = js ''a.txt'', mime_type = js ''text/plain'', file_size = 3,
       arrayBuffer = Inr [0x68, 0x69, 0xFF] \<rparr>"

text \<open>
  A queue entry for a file, the state of a hook that is ready, the body of a
  successful upload, and one in which the backend itself reports \<open>isEncrypted\<close>.
\<close>

definition attached :: "File \<Rightarrow> AttachedFile" where
  "attached f = \<lparr> attachment_id = js ''1700000000000-0'', the_file = f, uploaded = False, uploading = False \<rparr>"

definition ready_state :: EncryptionState where
  "ready_state = (hook_state fresh_world)\<lparr> isReady := True \<rparr>"

definition upload_payload :: "int jsval" where
  "upload_payload =
     JObj [(js ''success'', JBool True),
           (js ''data'', JObj [(js ''fileCid'', JStr (js ''x''))]),
           (js ''message'', JStr (js ''File uploaded successfully''))]"

definition flagged_payload :: "int jsval" where
  "flagged_payload =
     JObj [(js ''success'', JBool True),
           (js ''data'', JObj [(js ''fileCid'', JStr (js ''x'')), (js ''isEncrypted'', JBool True)]),
           (js ''message'', JStr (js ''File uploaded successfully''))]"
section \<open>Facts about the program monad\<close>

lemma pbind_ret [simp]: "pbind (ret x) f w = f x w"
  by (simp add: pbind_def ret_def)

lemma pbind_throw [simp]: "pbind (throw e) f w = (Inl e, w)"
  by (simp add: pbind_def throw_def)

lemma pbind_lift_Inr [simp]: "pbind (lift (Inr x)) f w = f x w"
  by (simp add: pbind_def lift_def)

lemma pbind_lift_Inl [simp]: "pbind (lift (Inl e)) f w = (Inl e, w)"
  by (simp add: pbind_def lift_def)

section \<open>The file service: the authentication guard\<close>

text \<open>
  Claim C4. With \<open>useTestMode\<close> false and no token, \<open>clearUserFiles\<close> and \<open>deleteFile\<close>
  return \<open>{success: false}\<close> with a message that contains "Authentication required",
  and the world is left as it was: in particular no request was sent.
\<close>

theorem auth_gate:
  "(\<exists>r. clearUserFiles env None False w = (Inr r, w) \<and> \<not> success r
        \<and> sublist (js ''Authentication required'') (DeleteResponse.message r))
   \<and> (\<exists>r. deleteFile env c None False w = (Inr r, w) \<and> \<not> success r
        \<and> sublist (js ''Authentication required'') (DeleteResponse.message r))"
proof -
  have p1: "prefix (js ''Authentication required'') (js ''Authentication required to delete files'')"
    by (simp add: js_def)
  have p2: "prefix (js ''Authentication required'') (js ''Authentication required to delete file'')"
    by (simp add: js_def)
  have "clearUserFiles env None False w =
          (Inr \<lparr> success = False, DeleteResponse.message = js ''Authentication required to delete files'' \<rparr>, w)"
    by (simp add: clearUserFiles_def try_catch_def token_truthy_def ret_def message_or_def)
  moreover have "deleteFile env c None False w =
          (Inr \<lparr> success = False, DeleteResponse.message = js ''Authentication required to delete file'' \<rparr>, w)"
    by (simp add: deleteFile_def try_catch_def token_truthy_def ret_def message_or_def)
  ultimately show ?thesis
    using p1 p2 by (simp add: prefix_imp_sublist)
qed

theorem auth_gate_witness:
  "requests (snd (clearUserFiles (sample_env offline) None False fresh_world)) = []
   \<and> requests (snd (deleteFile (sample_env offline) (js ''bafy'') None False fresh_world)) = []"
  using auth_gate [of "sample_env offline" fresh_world "js ''bafy''"]
  by (auto simp: fresh_world_def)

section \<open>The file service: listing\<close>

text \<open>
  Claim C5. When the list request is answered with a 2xx status and the body
  \<open>{data: [{fileCid: "x", name: "a.txt", size: 10}]}\<close>, \<open>getUserFiles\<close> returns
  \<open>success: true\<close> and exactly one \<open>FileMetadata\<close>, with \<open>cid\<close> "x", \<open>filename\<close> "a.txt",
  \<open>fileSize\<close> 10 and \<open>isOwner\<close> true (the timestamp is the clock's, the uploader
  "user", the optional fields undefined).
\<close>

theorem getUserFiles_normalizes_list:
  assumes "fetch env (files_request token useTestMode) = Inr response"
    and "ok response"
    and "json response =
           Inr (JObj [(js ''data'',
                       JArr [JObj [(js ''fileCid'', JStr (js ''x'')),
                                   (js ''name'', JStr (js ''a.txt'')),
                                   (js ''size'', JNum 10)]])])"
  shows "\<exists>w'. getUserFiles env token useTestMode w =
    (Inr \<lparr> success = True,
           data = \<lparr> files = [\<lparr> cid = JStr (js ''x''),
                              FileMetadata.filename = JStr (js ''a.txt''),
                              fileSize = JNum 10,
                              uploadTimestamp = JNum (int (Date_now env (clock_reads w))),
                              uploader = JStr (js ''user''),
                              isOwner = True,
                              FileMetadata.contentType = JUndefined,
                              FileMetadata.isEncrypted = JUndefined,
                              encryptionKeys = JUndefined \<rparr>] \<rparr>,
           FilesResponse.message = None \<rparr>, w')"
  using assms
  by (simp add: getUserFiles_def try_catch_def do_fetch_def pbind_def lift_def ret_def
        backendFiles_of_def Get_def or_Get_def or_else_def try_bind_def format_file_def
        Date_now_call_def js_def)

theorem getUserFiles_normalizes_list_witness:
  "map cid (files (data (projr (fst (getUserFiles (sample_env (serving list_payload (\<lambda>h. None)))
        (Some (js ''token'')) False fresh_world))))) = [JStr (js ''x'')]
   \<and> map fileSize (files (data (projr (fst (getUserFiles (sample_env (serving list_payload (\<lambda>h. None)))
        (Some (js ''token'')) False fresh_world))))) = [JNum 10]"
proof -
  let ?env = "sample_env (serving list_payload (\<lambda>h. None))"
  let ?resp = "\<lparr> ok = True, json = Inr list_payload, blob = Inr [1, 2, 3], headers_get = (\<lambda>h. None) \<rparr>"
  have f: "fetch ?env (files_request (Some (js ''token'')) False) = Inr ?resp"
    by (simp add: sample_env_def serving_def)
  have "\<exists>w'. getUserFiles ?env (Some (js ''token'')) False fresh_world =
    (Inr \<lparr> success = True,
           data = \<lparr> files = [\<lparr> cid = JStr (js ''x''),
                              FileMetadata.filename = JStr (js ''a.txt''),
                              fileSize = JNum 10,
                              uploadTimestamp = JNum (int (Date_now ?env (clock_reads fresh_world))),
                              uploader = JStr (js ''user''),
                              isOwner = True,
                              FileMetadata.contentType = JUndefined,
                              FileMetadata.isEncrypted = JUndefined,
                              encryptionKeys = JUndefined \<rparr>] \<rparr>,
           FilesResponse.message = None \<rparr>, w')"
    by (rule getUserFiles_normalizes_list [OF f]) (simp_all add: list_payload_def)
  then show ?thesis by auto
qed

text \<open>
  Claim C9. \<open>getUserFiles\<close> never throws: it always returns a response. A response
  that is not a success has \<open>data.files = []\<close>; and it is a success only if the
  request was answered, with a 2xx status and a body that parsed, and
  \<open>data.files || data.data || data\<close> was an array. So a rejected fetch, a non-2xx
  status and a body whose list is not an array each end in
  \<open>{success: false, data: {files: []}}\<close>.
\<close>

theorem getUserFiles_never_throws:
  "\<exists>r w'. getUserFiles env token useTestMode w = (Inr r, w') \<and>
     (\<not> success r \<longrightarrow> files (data r) = []) \<and>
     (success r \<longrightarrow>
        (\<exists>response d xs. fetch env (files_request token useTestMode) = Inr response \<and> ok response
           \<and> json response = Inr d \<and> backendFiles_of env d = Inr (JArr xs)))"
  unfolding getUserFiles_def try_catch_def
  by (auto simp: do_fetch_def pbind_def lift_def ret_def throw_def throw_message_def
      split: sum.splits prod.splits if_splits jsval.splits)

theorem getUserFiles_never_throws_witness:
  "\<exists>r w'. getUserFiles (sample_env offline) None False fresh_world = (Inr r, w')
      \<and> \<not> success r \<and> files (data r) = []"
  using getUserFiles_never_throws [of "sample_env offline" None False fresh_world]
  by (auto simp: sample_env_def offline_def)

section \<open>The file service: shared downloads\<close>

lemma capture_at_sound:
  assumes "capture_at rest = Some cap"
  shows "\<exists>post. rest = cap @ [dquote] @ post \<and> cap \<noteq> [] \<and> (\<forall>c\<in>set cap. \<not> line_terminator c)"
proof -
  define run where "run = takeWhile (\<lambda>c. \<not> line_terminator c) rest"
  define T where "T = takeWhile (\<lambda>c. c \<noteq> dquote) (rev run)"
  from assms obtain q cap' where q: "dropWhile (\<lambda>c. c \<noteq> dquote) (rev run) = q # cap'"
    and cap: "cap = rev cap'" and ne: "cap' \<noteq> []"
    by (auto simp: capture_at_def Let_def run_def split: list.splits if_splits)
  have "\<not> (hd (dropWhile (\<lambda>c. c \<noteq> dquote) (rev run)) \<noteq> dquote)"
    by (rule hd_dropWhile) (simp add: q)
  then have qd: "q = dquote" by (simp add: q)
  have "rev run = T @ q # cap'"
    unfolding T_def q [symmetric] by simp
  then have "rev (rev run) = rev (T @ q # cap')" by simp
  then have run: "run = cap @ [dquote] @ rev T" by (simp add: cap qd)
  have rest: "rest = run @ dropWhile (\<lambda>c. \<not> line_terminator c) rest"
    by (simp add: run_def)
  have "\<forall>c\<in>set run. \<not> line_terminator c"
    unfolding run_def by (auto dest: set_takeWhileD)
  then have lt: "\<forall>c\<in>set cap. \<not> line_terminator c" by (simp add: run)
  have "rest = cap @ [dquote] @ (rev T @ dropWhile (\<lambda>c. \<not> line_terminator c) rest)"
    using rest run by simp
  with ne cap lt show ?thesis by blast
qed

lemma dropWhile_keeps_tail:
  "\<not> P d \<Longrightarrow> \<exists>zs. dropWhile P (xs @ d # ys) = zs @ d # ys"
proof (induction xs)
  case Nil
  then have "dropWhile P ([] @ d # ys) = [] @ d # ys" by simp
  then show ?case by blast
next
  case (Cons a xs)
  show ?case
  proof (cases "P a")
    case True
    with Cons show ?thesis by simp
  next
    case False
    then have "dropWhile P ((a # xs) @ d # ys) = (a # xs) @ d # ys" by simp
    then show ?thesis by blast
  qed
qed

lemma capture_at_complete:
  assumes "rest = cap @ [dquote] @ post" and "cap \<noteq> []" and "\<forall>c\<in>set cap. \<not> line_terminator c"
  shows "capture_at rest \<noteq> None"
proof -
  define run where "run = takeWhile (\<lambda>c. \<not> line_terminator c) rest"
  have nd: "\<not> line_terminator dquote" by (simp add: line_terminator_def dquote_def)
  have "run = cap @ dquote # takeWhile (\<lambda>c. \<not> line_terminator c) post"
    unfolding run_def assms(1) using assms(3) nd by simp
  then have run: "rev run = rev (takeWhile (\<lambda>c. \<not> line_terminator c) post) @ dquote # rev cap" by simp
  obtain zs where D: "dropWhile (\<lambda>c. c \<noteq> dquote) (rev run) = zs @ dquote # rev cap"
    unfolding run using dropWhile_keeps_tail [of "\<lambda>c. c \<noteq> dquote" dquote] by auto
  show ?thesis
  proof (cases zs)
    case Nil
    with D assms(2) show ?thesis by (simp add: capture_at_def run_def)
  next
    case (Cons z zs')
    with D show ?thesis by (simp add: capture_at_def run_def)
  qed
qed

lemma match_filename_sound:
  "match_filename s = Some cap \<Longrightarrow>
     \<exists>pre post. s = pre @ js ''filename='' @ [dquote] @ cap @ [dquote] @ post \<and> cap \<noteq> []
        \<and> (\<forall>c\<in>set cap. \<not> line_terminator c)"
proof (induction s)
  case Nil
  then show ?case by simp
next
  case (Cons c cs)
  show ?case
  proof (cases "prefix (js ''filename='' @ [dquote]) (c # cs) \<and> capture_at (drop 10 (c # cs)) = Some cap")
    case True
    then obtain rest where rest: "c # cs = (js ''filename='' @ [dquote]) @ rest"
      by (auto simp: prefix_def)
    have "length (js ''filename='' @ [dquote]) = 10" by (simp add: js_def)
    then have "drop 10 (c # cs) = rest" using rest by (metis append_eq_conv_conj)
    with True obtain post where "rest = cap @ [dquote] @ post" "cap \<noteq> []" "\<forall>c\<in>set cap. \<not> line_terminator c"
      using capture_at_sound by blast
    with rest have "c # cs = [] @ js ''filename='' @ [dquote] @ cap @ [dquote] @ post" by simp
    with \<open>cap \<noteq> []\<close> \<open>\<forall>c\<in>set cap. \<not> line_terminator c\<close> show ?thesis by blast
  next
    case False
    with Cons.prems have "match_filename cs = Some cap"
      by (auto split: if_splits option.splits)
    from Cons.IH [OF this] obtain pre post where
      "cs = pre @ js ''filename='' @ [dquote] @ cap @ [dquote] @ post" "cap \<noteq> []" "\<forall>c\<in>set cap. \<not> line_terminator c"
      by blast
    then have "c # cs = (c # pre) @ js ''filename='' @ [dquote] @ cap @ [dquote] @ post" by simp
    with \<open>cap \<noteq> []\<close> \<open>\<forall>c\<in>set cap. \<not> line_terminator c\<close> show ?thesis by blast
  qed
qed

lemma match_filename_complete:
  assumes "cap \<noteq> []" and "\<forall>c\<in>set cap. \<not> line_terminator c"
  shows "match_filename (pre @ js ''filename='' @ [dquote] @ cap @ [dquote] @ post) \<noteq> None"
proof (induction pre)
  case Nil
  have l: "length (js ''filename='' @ [dquote]) = 10" by (simp add: js_def)
  obtain c cs where ccs: "js ''filename='' @ [dquote] @ cap @ [dquote] @ post = c # cs"
    by (simp add: js_def)
  have p: "prefix (js ''filename='' @ [dquote]) (c # cs)"
    unfolding ccs [symmetric] by (simp add: prefix_def)
  have "c # cs = (js ''filename='' @ [dquote]) @ (cap @ [dquote] @ post)" using ccs by simp
  then have d: "drop 10 (c # cs) = cap @ [dquote] @ post" using l by (metis append_eq_conv_conj)
  have "capture_at (cap @ [dquote] @ post) \<noteq> None"
    using capture_at_complete [OF refl assms] .
  then show ?case using p d ccs by (auto split: option.splits)
next
  case (Cons a pre)
  then show ?case by (auto split: option.splits)
qed

lemma match_filename_sample:
  "match_filename (js ''attachment; filename='' @ [dquote] @ js ''a.txt'' @ [dquote]) = Some (js ''a.txt'')"
  by (simp add: js_def dquote_def capture_at_def line_terminator_def)

text \<open>
  Claim C10. On a successful \<open>downloadSharedFile\<close>, the file name is the capture of
  the first match of \<open>filename="(.+)"\<close> in the \<open>Content-Disposition\<close> header, and
  "shared-file" when the header is absent or does not match; \<open>isEncrypted\<close> is true
  exactly when the \<open>X-File-Encrypted\<close> header is the string "true".
\<close>

theorem downloadSharedFile_headers:
  assumes "downloadSharedFile env shareId token w = (Inr r, w')" and "success r"
  shows "\<exists>resp. fetch env (download_request shareId token) = Inr resp \<and> ok resp \<and>
    DownloadResult.filename r =
      Some (case headers_get resp (js ''Content-Disposition'') of
              None \<Rightarrow> js ''shared-file''
            | Some cd \<Rightarrow> (case match_filename cd of Some cap \<Rightarrow> cap | None \<Rightarrow> js ''shared-file'')) \<and>
    DownloadResult.isEncrypted r = Some (headers_get resp (js ''X-File-Encrypted'') = Some (js ''true''))"
  using assms
  unfolding downloadSharedFile_def try_catch_def
  by (auto simp: do_fetch_def pbind_def lift_def ret_def throw_def throw_message_def filename_of_def
      split: sum.splits prod.splits if_splits option.splits)

theorem downloadSharedFile_headers_witness:
  "\<exists>r w'. downloadSharedFile (sample_env (serving JNull disposition_headers)) (js ''abc'') None fresh_world = (Inr r, w')
     \<and> success r \<and> DownloadResult.filename r = Some (js ''a.txt'') \<and> DownloadResult.isEncrypted r = Some True"
proof -
  let ?env = "sample_env (serving JNull disposition_headers)"
  obtain r w' where run: "downloadSharedFile ?env (js ''abc'') None fresh_world = (Inr r, w')" and s: "success r"
    by (simp add: downloadSharedFile_def try_catch_def do_fetch_def pbind_def lift_def ret_def
          sample_env_def serving_def)
  have cd: "disposition_headers (js ''Content-Disposition'') = Some (js ''attachment; filename='' @ [dquote] @ js ''a.txt'' @ [dquote])"
    by (simp add: disposition_headers_def)
  have xe: "disposition_headers (js ''X-File-Encrypted'') = Some (js ''true'')"
    by (simp add: disposition_headers_def js_def)
  from downloadSharedFile_headers [OF run s] cd xe match_filename_sample
  have "DownloadResult.filename r = Some (js ''a.txt'') \<and> DownloadResult.isEncrypted r = Some True"
    by (auto simp: sample_env_def serving_def)
  with run s show ?thesis by blast
qed


section \<open>Regular expressions: the test decides the language\<close>

lemma nullable_iff: "nullable r \<longleftrightarrow> [] \<in> lang r"
  by (induction r) (auto intro: star.star_empty)

lemma star_Cons_D:
  "x \<in> star A \<Longrightarrow> x = c # w \<Longrightarrow> \<exists>u v. w = u @ v \<and> c # u \<in> A \<and> v \<in> star A"
proof (induction arbitrary: w rule: star.induct)
  case star_empty
  then show ?case by simp
next
  case (star_more u v)
  show ?case
  proof (cases u)
    case Nil
    with star_more show ?thesis by simp
  next
    case (Cons a u')
    with star_more.prems have "a = c" "w = u' @ v" by simp_all
    with Cons star_more.hyps show ?thesis by blast
  qed
qed

lemma star_Cons_iff:
  "c # w \<in> star A \<longleftrightarrow> (\<exists>u v. w = u @ v \<and> c # u \<in> A \<and> v \<in> star A)"
proof
  assume "c # w \<in> star A"
  then show "\<exists>u v. w = u @ v \<and> c # u \<in> A \<and> v \<in> star A"
    by (rule star_Cons_D) simp
next
  assume "\<exists>u v. w = u @ v \<and> c # u \<in> A \<and> v \<in> star A"
  then obtain u v where "w = u @ v" "c # u \<in> A" "v \<in> star A" by blast
  then have "(c # u) @ v \<in> star A" by (intro star.star_more)
  with \<open>w = u @ v\<close> show "c # w \<in> star A" by simp
qed

lemma deriv_iff: "w \<in> lang (deriv c r) \<longleftrightarrow> c # w \<in> lang r"
proof (induction r arbitrary: w)
  case (Cat r s)
  have "c # w \<in> lang (Cat r s) \<longleftrightarrow>
          ([] \<in> lang r \<and> c # w \<in> lang s) \<or> (\<exists>u v. w = u @ v \<and> c # u \<in> lang r \<and> v \<in> lang s)"
    by (auto simp: Cons_eq_append_conv)
  with Cat show ?case by (auto simp: nullable_iff)
next
  case (Star r)
  then show ?case by (auto simp: star_Cons_iff)
qed auto

lemma rx_test_iff: "rx_test r s \<longleftrightarrow> s \<in> lang r"
  unfolding rx_test_def
  by (induction s arbitrary: r) (simp_all add: nullable_iff deriv_iff)



lemma star_within:
  assumes "s \<in> star A" and "\<forall>u\<in>A. \<forall>c\<in>set u. P c"
  shows "\<forall>c\<in>set s. P c"
  using assms(1)
proof (induction rule: star.induct)
  case star_empty
  then show ?case by simp
next
  case (star_more u v)
  with assms(2) show ?case by auto
qed

lemma lang_within:
  "s \<in> lang r \<Longrightarrow> classes_within P r \<Longrightarrow> \<forall>c\<in>set s. P c"
proof (induction r arbitrary: s)
  case Never
  then show ?case by simp
next
  case Eps
  then show ?case by simp
next
  case (Cls p)
  then show ?case by auto
next
  case (Cat r1 r2)
  from Cat.prems obtain u v where "s = u @ v" "u \<in> lang r1" "v \<in> lang r2" by auto
  moreover have "classes_within P r1" "classes_within P r2" using Cat.prems by simp_all
  ultimately have "\<forall>c\<in>set u. P c" "\<forall>c\<in>set v. P c" using Cat.IH by blast+
  with \<open>s = u @ v\<close> show ?case by auto
next
  case (Alt r1 r2)
  then show ?case by auto
next
  case (Star r)
  then have "\<forall>u\<in>lang r. \<forall>c\<in>set u. P c" by simp
  moreover have "s \<in> star (lang r)" using Star.prems by simp
  ultimately show ?case by (rule star_within [rotated])
qed


lemma lang_Cat_Lit: "s \<in> lang (Cat (Lit a) r) \<longleftrightarrow> (\<exists>t. s = a # t \<and> t \<in> lang r)"
  by (auto simp: Lit_def)

lemma isValidEmail_has_at: "isValidEmail s \<Longrightarrow> 0x40 \<in> set s"
proof -
  assume "isValidEmail s"
  then have "s \<in> lang emailRegex" by (simp add: isValidEmail_def rx_test_iff)
  then obtain u v where "s = u @ v" "v \<in> lang (Cat (Lit 0x40)
         (Cat (Plus (Cls not_space_or_at))
           (Cat (Lit 0x2E) (Plus (Cls not_space_or_at)))))"
    unfolding emailRegex_def lang.simps(4) by blast
  then show ?thesis unfolding lang_Cat_Lit by auto
qed


lemma lang_Lit: "lang (Lit a) = {[a]}"
  by (auto simp: Lit_def)

lemma lang_CatD: "s \<in> lang (Cat r1 r2) \<Longrightarrow> \<exists>u v. s = u @ v \<and> u \<in> lang r1 \<and> v \<in> lang r2"
  by auto

lemma lang_ClsD: "s \<in> lang (Cls p) \<Longrightarrow> \<exists>c. s = [c] \<and> p c"
  by auto

lemma suiNSRegex_shape:
  assumes "s \<in> lang suiNSRegex"
  shows "\<exists>a m b. s = a # m @ b # js ''.sui''"
proof -
  from assms obtain u1 v1 where s: "s = u1 @ v1" and u1: "u1 \<in> lang (Cls is_alnum)"
    and v1: "v1 \<in> lang (Cat (Star (Cls (\<lambda>c. is_alnum c \<or> c = 0x2D)))
         (Cat (Cls is_alnum)
           (Cat (Lit 0x2E) (Cat (Lit 0x73) (Cat (Lit 0x75) (Lit 0x69))))))"
    unfolding suiNSRegex_def by (blast dest: lang_CatD)
  from lang_CatD [OF v1] obtain m v2 where v1': "v1 = m @ v2"
    and v2: "v2 \<in> lang (Cat (Cls is_alnum) (Cat (Lit 0x2E) (Cat (Lit 0x73) (Cat (Lit 0x75) (Lit 0x69)))))"
    by blast
  from lang_CatD [OF v2] obtain u3 v3 where v2': "v2 = u3 @ v3" and u3: "u3 \<in> lang (Cls is_alnum)"
    and v3: "v3 \<in> lang (Cat (Lit 0x2E) (Cat (Lit 0x73) (Cat (Lit 0x75) (Lit 0x69))))"
    by blast
  from v3 have "v3 = [0x2E, 0x73, 0x75, 0x69]"
    by (simp only: lang_Cat_Lit lang_Lit) blast
  then have "v3 = js ''.sui''" by (simp add: js_def)
  moreover from lang_ClsD [OF u1] obtain a where "u1 = [a]" by blast
  moreover from lang_ClsD [OF u3] obtain b where "u3 = [b]" by blast
  ultimately have "s = a # m @ b # js ''.sui''" using s v1' v2' by simp
  then show ?thesis by blast
qed


lemma isValidSuiNS_suffix: "isValidSuiNS s \<Longrightarrow> suffix (js ''.sui'') s"
proof -
  assume "isValidSuiNS s"
  then have "s \<in> lang suiNSRegex" by (simp add: isValidSuiNS_def rx_test_iff)
  then obtain a m b where "s = a # m @ b # js ''.sui''" using suiNSRegex_shape by blast
  then have "s = (a # m @ [b]) @ js ''.sui''" by simp
  then show ?thesis unfolding suffix_def by blast
qed

lemma isValidSuiNS_has_dot: "isValidSuiNS s \<Longrightarrow> 0x2E \<in> set s"
proof -
  assume "isValidSuiNS s"
  then have "s \<in> lang suiNSRegex" by (simp add: isValidSuiNS_def rx_test_iff)
  then obtain a m b where "s = a # m @ b # js ''.sui''" using suiNSRegex_shape by blast
  then show ?thesis by (simp add: js_def)
qed

lemma isValidSuiNS_chars: "isValidSuiNS s \<Longrightarrow> \<forall>c\<in>set s. is_alnum c \<or> c = 0x2D \<or> c = 0x2E"
proof -
  assume "isValidSuiNS s"
  then have "s \<in> lang suiNSRegex" by (simp add: isValidSuiNS_def rx_test_iff)
  moreover have "classes_within (\<lambda>c. is_alnum c \<or> c = 0x2D \<or> c = 0x2E) suiNSRegex"
    by (simp add: suiNSRegex_def Lit_def is_alnum_def is_digit_def)
  ultimately show ?thesis by (rule lang_within)
qed

lemma isValidSuiNS_not_email: "isValidSuiNS s \<Longrightarrow> \<not> isValidEmail s"
proof
  assume "isValidSuiNS s" "isValidEmail s"
  then have "0x40 \<in> set s" "\<forall>c\<in>set s. is_alnum c \<or> c = 0x2D \<or> c = 0x2E"
    using isValidEmail_has_at isValidSuiNS_chars by auto
  then have "is_alnum (0x40 :: code_unit) \<or> (0x40 :: code_unit) = 0x2D \<or> (0x40 :: code_unit) = 0x2E" by blast
  then show False by (simp add: is_alnum_def is_digit_def)
qed

lemma lib_chars: "isValidSuiAddress_lib s \<Longrightarrow> \<forall>c\<in>set s. is_hex c \<or> c = 0x78 \<or> c = 0x58"
proof -
  assume "isValidSuiAddress_lib s"
  then have "s \<in> lang hexRegex" by (simp add: isValidSuiAddress_lib_def rx_test_iff)
  moreover have "classes_within (\<lambda>c. is_hex c \<or> c = 0x78 \<or> c = 0x58) hexRegex"
    by (simp add: hexRegex_def Lit_def Opt_def Plus_def is_hex_def is_digit_def)
  ultimately show ?thesis by (rule lang_within)
qed

lemma lib_disjoint: "isValidSuiAddress_lib s \<Longrightarrow> \<not> isValidEmail s \<and> \<not> isValidSuiNS s"
proof -
  assume "isValidSuiAddress_lib s"
  then have h: "\<forall>c\<in>set s. is_hex c \<or> c = 0x78 \<or> c = 0x58" by (rule lib_chars)
  have "\<not> (is_hex (0x40 :: code_unit) \<or> (0x40 :: code_unit) = 0x78 \<or> (0x40 :: code_unit) = 0x58)"
    by (simp add: is_hex_def is_digit_def)
  moreover have "\<not> (is_hex (0x2E :: code_unit) \<or> (0x2E :: code_unit) = 0x78 \<or> (0x2E :: code_unit) = 0x58)"
    by (simp add: is_hex_def is_digit_def)
  ultimately have "0x40 \<notin> set s" "0x2E \<notin> set s" using h by blast+
  then show ?thesis using isValidEmail_has_at isValidSuiNS_has_dot by blast
qed


section \<open>The access control service: validation\<close>

lemma first_invalid_None_iff:
  "first_invalid check list = None \<longleftrightarrow> (\<forall>x \<in> set (entries list). check x)"
  by (auto simp: first_invalid_def entries_def find_None_iff split: option.splits)

lemma non_empty_iff: "non_empty list \<longleftrightarrow> entries list \<noteq> []"
  by (auto simp: non_empty_def entries_def split: option.splits)

lemma known_type_iff:
  "known_type t \<longleftrightarrow> t \<in> set [js ''email'', js ''wallet'', js ''time'', js ''hybrid'']"
  by (auto simp: known_type_def)

lemma valid_invalid [simp]: "\<not> valid (invalid m)"
  by (simp add: invalid_def)

lemma valid_validateAccessRule_iff:
  "valid (validateAccessRule va rule) \<longleftrightarrow>
     known_type (conditionType rule)
     \<and> first_invalid isValidEmail (allowedEmails rule) = None
     \<and> first_invalid va (allowedAddresses rule) = None
     \<and> first_invalid isValidSuiNS (allowedSuiNS rule) = None
     \<and> \<not> (num_truthy (accessStartTime rule) \<and> num_truthy (accessEndTime rule)
           \<and> the (accessStartTime rule) \<ge> the (accessEndTime rule))
     \<and> \<not> (num_truthy (maxAccessDuration rule) \<and> the (maxAccessDuration rule) \<le> 0)
     \<and> \<not> (num_truthy (maxAccessCount rule) \<and> the (maxAccessCount rule) \<le> 0)
     \<and> \<not> (conditionType rule = js ''hybrid''
           \<and> \<not> non_empty (allowedEmails rule)
           \<and> \<not> non_empty (allowedAddresses rule)
           \<and> \<not> (num_truthy (accessStartTime rule) \<or> num_truthy (accessEndTime rule)
                 \<or> num_truthy (maxAccessDuration rule)))"
  unfolding validateAccessRule_def known_type_iff
  by (simp split: option.split)

lemma times_iff:
  "(num_truthy s \<and> num_truthy e \<and> the s \<ge> the e)
     \<longleftrightarrow> (\<exists>a b. s = Some a \<and> e = Some b \<and> a \<noteq> 0 \<and> b \<noteq> 0 \<and> a \<ge> b)"
  by (cases s; cases e) (auto simp: num_truthy_def)

lemma negative_iff:
  "(num_truthy d \<and> the d \<le> 0) \<longleftrightarrow> (\<exists>x. d = Some x \<and> x < 0)"
  by (cases d) (auto simp: num_truthy_def)

lemma not_truthy_None: "d = None \<Longrightarrow> \<not> num_truthy d"
  by (simp add: num_truthy_def)

lemma truthy_present: "d \<noteq> Some 0 \<Longrightarrow> num_truthy d \<longleftrightarrow> d \<noteq> None"
  by (cases d) (auto simp: num_truthy_def)

lemma violation_not_valid:
  assumes "violation va rule"
  shows "\<not> valid (validateAccessRule va rule)"
proof
  assume "valid (validateAccessRule va rule)"
  then have v: "known_type (conditionType rule)"
     "\<forall>x \<in> set (entries (allowedEmails rule)). isValidEmail x"
     "\<forall>x \<in> set (entries (allowedAddresses rule)). va x"
     "\<forall>x \<in> set (entries (allowedSuiNS rule)). isValidSuiNS x"
     "\<not> (\<exists>a b. accessStartTime rule = Some a \<and> accessEndTime rule = Some b \<and> a \<noteq> 0 \<and> b \<noteq> 0 \<and> a \<ge> b)"
     "\<not> (\<exists>x. maxAccessDuration rule = Some x \<and> x < 0)"
     "\<not> (\<exists>x. maxAccessCount rule = Some x \<and> x < 0)"
     "\<not> (conditionType rule = js ''hybrid''
           \<and> entries (allowedEmails rule) = []
           \<and> entries (allowedAddresses rule) = []
           \<and> \<not> (num_truthy (accessStartTime rule) \<or> num_truthy (accessEndTime rule)
                 \<or> num_truthy (maxAccessDuration rule)))"
    unfolding valid_validateAccessRule_iff first_invalid_None_iff non_empty_iff times_iff negative_iff
    by simp_all
  from assms v(1-7) have "conditionType rule = js ''hybrid''
          \<and> entries (allowedEmails rule) = [] \<and> entries (allowedAddresses rule) = []
          \<and> accessStartTime rule = None \<and> accessEndTime rule = None
          \<and> maxAccessDuration rule = None"
    unfolding violation_def by blast
  with v(8) show False by (simp add: not_truthy_None)
qed

lemma no_violation_valid:
  assumes "no_zero_field rule" and "\<not> violation va rule"
  shows "valid (validateAccessRule va rule)"
proof -
  from assms(1) have z: "accessStartTime rule \<noteq> Some 0" "accessEndTime rule \<noteq> Some 0"
    "maxAccessDuration rule \<noteq> Some 0"
    by (simp_all add: no_zero_field_def)
  from assms(2) have n: "known_type (conditionType rule)"
     "\<forall>x \<in> set (entries (allowedEmails rule)). isValidEmail x"
     "\<forall>x \<in> set (entries (allowedAddresses rule)). va x"
     "\<forall>x \<in> set (entries (allowedSuiNS rule)). isValidSuiNS x"
     "\<not> (\<exists>a b. accessStartTime rule = Some a \<and> accessEndTime rule = Some b \<and> a \<noteq> 0 \<and> b \<noteq> 0 \<and> a \<ge> b)"
     "\<not> (\<exists>x. maxAccessDuration rule = Some x \<and> x < 0)"
     "\<not> (\<exists>x. maxAccessCount rule = Some x \<and> x < 0)"
     "\<not> (conditionType rule = js ''hybrid''
          \<and> entries (allowedEmails rule) = [] \<and> entries (allowedAddresses rule) = []
          \<and> accessStartTime rule = None \<and> accessEndTime rule = None
          \<and> maxAccessDuration rule = None)"
    unfolding violation_def by blast+
  from n(8) have "\<not> (conditionType rule = js ''hybrid''
           \<and> entries (allowedEmails rule) = []
           \<and> entries (allowedAddresses rule) = []
           \<and> \<not> (num_truthy (accessStartTime rule) \<or> num_truthy (accessEndTime rule)
                 \<or> num_truthy (maxAccessDuration rule)))"
    by (simp only: truthy_present [OF z(1)] truthy_present [OF z(2)] truthy_present [OF z(3)]) simp
  with n(1-7) show ?thesis
    unfolding valid_validateAccessRule_iff first_invalid_None_iff non_empty_iff times_iff negative_iff
    by simp
qed

lemma short_or_unsuffixed_name:
  "length n < 4 \<or> 64 < length n \<or> \<not> suffix (js ''.sui'') n \<Longrightarrow> \<not> isValidSuiNS n"
  using isValidSuiNS_suffix [of n] by (auto simp: isValidSuiNS_def)


lemmas rx_eval = rx_test_def Plus_def Opt_def Lit_def js_def is_space_def is_alnum_def is_digit_def
  is_hex_def not_space_or_at_def

lemma sample_email_valid: "isValidEmail (js ''a@b.c'')"
  by (simp add: isValidEmail_def emailRegex_def rx_eval)

lemma one_letter_name_invalid: "\<not> isValidSuiNS (js ''a.sui'')"
  by (simp add: isValidSuiNS_def suiNSRegex_def rx_eval)

lemma email_rule_fields:
  "conditionType email_rule = js ''email''"
  "entries (allowedEmails email_rule) = [js ''a@b.c'']"
  "entries (allowedAddresses email_rule) = []"
  "entries (allowedSuiNS email_rule) = []"
  "accessStartTime email_rule = Some 10"
  "accessEndTime email_rule = Some 20"
  "maxAccessDuration email_rule = None"
  "maxAccessCount email_rule = Some 3"
  by (simp_all add: email_rule_def entries_def)

lemma known_email: "known_type (js ''email'')"
  by (simp add: known_type_def)

lemma email_not_hybrid: "js ''email'' \<noteq> js ''hybrid''"
  by (simp add: js_def)

lemma email_rule_ok: "no_zero_field email_rule \<and> \<not> violation va email_rule"
  by (simp add: no_zero_field_def violation_def email_rule_fields known_email email_not_hybrid
        sample_email_valid)

lemma short_name_rule_fields:
  "conditionType short_name_rule = js ''email''"
  "entries (allowedEmails short_name_rule) = [js ''a@b.c'']"
  "entries (allowedAddresses short_name_rule) = []"
  "entries (allowedSuiNS short_name_rule) = [js ''a.sui'']"
  "accessStartTime short_name_rule = Some 10"
  "accessEndTime short_name_rule = Some 20"
  "maxAccessDuration short_name_rule = None"
  "maxAccessCount short_name_rule = Some 3"
  by (simp_all add: short_name_rule_def email_rule_def entries_def)

lemma one_letter_name_listed: "length (js ''a.sui'') = 5 \<and> suffix (js ''.sui'') (js ''a.sui'')"
  by (simp add: js_def suffix_to_prefix)

text \<open>
  Claim C2, amended. \<open>validateAccessRule\<close> returns \<open>valid: false\<close> whenever the rule has
  an unknown condition type, an entry of \<open>allowedEmails\<close> that fails the email
  pattern, an entry of \<open>allowedAddresses\<close> that fails \<open>isValidSuiAddress\<close>, an entry of
  \<open>allowedSuiNS\<close> that fails \<open>isValidSuiNS\<close> (among them every name shorter than 4,
  longer than 64 or without the suffix \<open>.sui\<close>), start and end times both set and
  not 0 with start \<open>\<ge>\<close> end, a negative duration, a negative count, or the type
  \<open>hybrid\<close> with no email, no address and no time field; and it returns
  \<open>valid: true\<close> for every rule without such a violation in which no numeric field
  is 0.
\<close>

theorem validateAccessRule_rules:
  "(violation va rule \<longrightarrow> \<not> valid (validateAccessRule va rule))
   \<and> (no_zero_field rule \<and> \<not> violation va rule \<longrightarrow> valid (validateAccessRule va rule))
   \<and> (\<forall>n. length n < 4 \<or> 64 < length n \<or> \<not> suffix (js ''.sui'') n \<longrightarrow> \<not> isValidSuiNS n)"
  using violation_not_valid no_violation_valid short_or_unsuffixed_name by blast

theorem validateAccessRule_rules_witness:
  "valid (validateAccessRule isValidSuiAddress_lib email_rule)
   \<and> \<not> valid (validateAccessRule isValidSuiAddress_lib short_name_rule)"
proof -
  have "violation isValidSuiAddress_lib short_name_rule"
    by (simp add: violation_def short_name_rule_fields one_letter_name_invalid)
  then show ?thesis
    using validateAccessRule_rules [of isValidSuiAddress_lib email_rule]
      validateAccessRule_rules [of isValidSuiAddress_lib short_name_rule]
      email_rule_ok [of isValidSuiAddress_lib]
    by simp
qed

text \<open>
  The list as the specification words it does not describe the code: a rule
  whose SuiNS name is \<open>a.sui\<close> (5 characters, with the suffix) has none of the listed
  defects, and is rejected, because the pattern asks for two characters before
  the suffix.
\<close>

theorem validateAccessRule_listed_counterexample:
  "\<not> listed_violation isValidSuiAddress_lib short_name_rule
   \<and> \<not> valid (validateAccessRule isValidSuiAddress_lib short_name_rule)"
proof -
  have "\<not> listed_violation isValidSuiAddress_lib short_name_rule"
    by (simp add: listed_violation_def short_name_rule_fields known_email email_not_hybrid
          sample_email_valid one_letter_name_listed)
  moreover have "violation isValidSuiAddress_lib short_name_rule"
    by (simp add: violation_def short_name_rule_fields one_letter_name_invalid)
  ultimately show ?thesis using violation_not_valid by blast
qed

text \<open>
  A duration of 0 passes: \<open>rule.maxAccessDuration && rule.maxAccessDuration <= 0\<close> is
  false for 0, although the message of that check is "Max access duration must
  be positive".
\<close>

lemma zero_duration_accepted:
  "valid (validateAccessRule isValidSuiAddress_lib zero_duration_rule)"
  by (simp add: valid_validateAccessRule_iff known_email email_not_hybrid first_invalid_def
        zero_duration_rule_def email_rule_def num_truthy_def non_empty_def sample_email_valid)


section \<open>The access control service: bulk data\<close>

lemma dropWhile_id: "xs = [] \<or> \<not> P (hd xs) \<Longrightarrow> dropWhile P xs = xs"
  by (cases xs) auto

lemma dropWhile_hd: "dropWhile P xs = [] \<or> \<not> P (hd (dropWhile P xs))"
  using hd_dropWhile [of P xs] by blast

lemma dropWhile_last: "dropWhile P xs \<noteq> [] \<Longrightarrow> last (dropWhile P xs) = last xs"
  by (induction xs) (auto split: if_splits)

lemma trim_shape: "trim s = [] \<or> (\<not> is_space (hd (trim s)) \<and> \<not> is_space (last (trim s)))"
proof -
  define a where "a = dropWhile is_space s"
  define b where "b = dropWhile is_space (rev a)"
  have t: "trim s = rev b" by (simp add: trim_def a_def b_def)
  show ?thesis
  proof (cases "b = []")
    case True
    then show ?thesis by (simp add: t)
  next
    case False
    then have bne: "dropWhile is_space (rev a) \<noteq> []" by (simp add: b_def)
    have "\<not> is_space (hd b)" unfolding b_def using bne by (rule hd_dropWhile)
    moreover have "last b = last (rev a)" using False unfolding b_def by (rule dropWhile_last)
    moreover have ane: "a \<noteq> []" using False by (auto simp: b_def)
    then have "dropWhile is_space s \<noteq> []" by (simp add: a_def)
    then have "\<not> is_space (hd a)" unfolding a_def by (rule hd_dropWhile)
    moreover have "last (rev a) = hd a" using ane by (simp add: last_rev)
    ultimately show ?thesis using False by (simp add: t hd_rev last_rev)
  qed
qed

lemma trim_fixed: "s = [] \<or> (\<not> is_space (hd s) \<and> \<not> is_space (last s)) \<Longrightarrow> trim s = s"
proof (cases "s = []")
  case True
  then show ?thesis by (simp add: trim_def)
next
  case False
  assume "s = [] \<or> (\<not> is_space (hd s) \<and> \<not> is_space (last s))"
  with False have h: "\<not> is_space (hd s)" "\<not> is_space (last s)" by simp_all
  have 1: "dropWhile is_space s = s" using h(1) by (simp add: dropWhile_id)
  have "hd (rev s) = last s" using False by (simp add: hd_rev)
  then have 2: "dropWhile is_space (rev s) = rev s" using h(2) by (simp add: dropWhile_id)
  show ?thesis by (simp add: trim_def 1 2)
qed

lemma trim_trim: "trim (trim s) = trim s"
  using trim_shape [of s] by (rule trim_fixed)

lemma csv_cells_trimmed: "t \<in> set (concat (csv_rows content)) \<Longrightarrow> trim t = t"
  by (auto simp: csv_rows_def trim_trim)


lemma process_cell_keeps:
  "t \<in> set (emails res) \<Longrightarrow> t \<in> set (emails (process_cell va i res c))"
  "t \<in> set (addresses res) \<Longrightarrow> t \<in> set (addresses (process_cell va i res c))"
  "t \<in> set (suiNSNames res) \<Longrightarrow> t \<in> set (suiNSNames (process_cell va i res c))"
  by (simp_all add: process_cell_def Let_def)

lemma process_cell_distinct:
  assumes "distinct (emails res)" "distinct (addresses res)" "distinct (suiNSNames res)"
  shows "distinct (emails (process_cell va i res c))
       \<and> distinct (addresses (process_cell va i res c))
       \<and> distinct (suiNSNames (process_cell va i res c))"
  using assms by (simp add: process_cell_def Let_def)

lemma process_cell_files:
  assumes "trim c = c" "c \<noteq> []"
  shows "(isValidEmail c \<longrightarrow> c \<in> set (emails (process_cell va i res c)))
       \<and> (\<not> isValidEmail c \<and> va c \<longrightarrow> c \<in> set (addresses (process_cell va i res c)))
       \<and> (\<not> isValidEmail c \<and> \<not> va c \<and> isValidSuiNS c \<longrightarrow> c \<in> set (suiNSNames (process_cell va i res c)))"
  using assms by (simp add: process_cell_def Let_def)

lemma process_cell_sorted_out:
  assumes "sorted_out va seen res" and "trim c = c"
  shows "sorted_out va (insert c seen) (process_cell va i res c)"
proof -
  let ?res' = "process_cell va i res c"
  have d: "distinct (emails ?res') \<and> distinct (addresses ?res') \<and> distinct (suiNSNames ?res')"
    using assms(1) by (intro process_cell_distinct) (simp_all add: sorted_out_def)
  have filed: "(isValidEmail t \<longrightarrow> t \<in> set (emails ?res'))
          \<and> (\<not> isValidEmail t \<and> va t \<longrightarrow> t \<in> set (addresses ?res'))
          \<and> (\<not> isValidEmail t \<and> \<not> va t \<and> isValidSuiNS t \<longrightarrow> t \<in> set (suiNSNames ?res'))"
    if t: "t \<in> insert c seen" "t \<noteq> []" for t
  proof (cases "t = c")
    case True
    with t(2) assms(2) show ?thesis using process_cell_files [of c va i res] by simp
  next
    case False
    with t(1) have "t \<in> seen" by simp
    with assms(1) t(2) have "(isValidEmail t \<longrightarrow> t \<in> set (emails res))
          \<and> (\<not> isValidEmail t \<and> va t \<longrightarrow> t \<in> set (addresses res))
          \<and> (\<not> isValidEmail t \<and> \<not> va t \<and> isValidSuiNS t \<longrightarrow> t \<in> set (suiNSNames res))"
      by (simp add: sorted_out_def)
    then show ?thesis
      using process_cell_keeps [of t res va i c] by (cases "isValidEmail t"; cases "va t"; simp)
  qed
  show ?thesis unfolding sorted_out_def using d filed by simp
qed

lemma process_row_sorted_out:
  assumes "sorted_out va seen res" and "\<forall>c \<in> set row. trim c = c"
  shows "sorted_out va (seen \<union> set row) (foldl (process_cell va i) res row)"
  using assms
proof (induction row arbitrary: seen res)
  case Nil
  then show ?case by simp
next
  case (Cons c row)
  from Cons.prems have "sorted_out va (insert c seen) (process_cell va i res c)"
    by (intro process_cell_sorted_out) simp_all
  moreover have "\<forall>c \<in> set row. trim c = c" using Cons.prems by simp
  ultimately have "sorted_out va (insert c seen \<union> set row) (foldl (process_cell va i) (process_cell va i res c) row)"
    by (rule Cons.IH)
  then show ?case by simp
qed

lemma process_rows_sorted_out:
  assumes "sorted_out va seen res" and "\<forall>c \<in> set (concat (map snd rows)). trim c = c"
  shows "sorted_out va (seen \<union> set (concat (map snd rows))) (process_rows va res rows)"
  using assms
proof (induction rows arbitrary: seen res)
  case Nil
  then show ?case by (simp add: process_rows_def)
next
  case (Cons r rows)
  obtain i row where r: "r = (i, row)" by (cases r)
  from Cons.prems have "sorted_out va (seen \<union> set row) (foldl (process_cell va i) res row)"
    by (intro process_row_sorted_out) (simp_all add: r)
  moreover have "\<forall>c \<in> set (concat (map snd rows)). trim c = c" using Cons.prems by simp
  ultimately have "sorted_out va ((seen \<union> set row) \<union> set (concat (map snd rows)))
      (process_rows va (foldl (process_cell va i) res row) rows)"
    by (rule Cons.IH)
  then show ?case by (simp add: process_rows_def r Un_assoc)
qed

lemma distinct_count_list: "distinct xs \<Longrightarrow> x \<in> set xs \<Longrightarrow> count_list xs x = 1"
  by (induction xs) auto

lemma parseBulkData_sorted_out:
  "sorted_out va (set (concat (csv_rows content))) (parseBulkData va content csv)"
proof -
  have 0: "sorted_out va {} \<lparr> emails = [], addresses = [], suiNSNames = [], errors = [] \<rparr>"
    by (simp add: sorted_out_def)
  have m: "map snd (enumerate 0 (csv_rows content)) = csv_rows content"
    by (simp add: enumerate_eq_zip)
  have "\<forall>c \<in> set (concat (map snd (enumerate 0 (csv_rows content)))). trim c = c"
    unfolding m by (simp add: csv_cells_trimmed)
  from process_rows_sorted_out [OF 0 this] show ?thesis
    by (simp add: parseBulkData_def m)
qed

lemma isValidEmail_nonempty: "isValidEmail t \<Longrightarrow> t \<noteq> []"
  using isValidEmail_has_at [of t] by auto

lemma isValidSuiNS_nonempty: "isValidSuiNS t \<Longrightarrow> t \<noteq> []"
  by (auto simp: isValidSuiNS_def)

text \<open>
  Claim C8. If a token occurs in two or more cells of the CSV text, then
  \<open>parseBulkData\<close> returns it exactly once in \<open>emails\<close> when it is a valid email,
  exactly once in \<open>addresses\<close> when it is a valid Sui address, and exactly once in
  \<open>suiNSNames\<close> when it is a valid SuiNS name. The address check is the imported
  one; what is used of it is that it accepts neither the empty string nor a
  string that passes the email or the SuiNS check (it accepts hexadecimal
  strings).
\<close>

theorem parseBulkData_deduplicates:
  assumes "2 \<le> count_list (concat (csv_rows content)) t"
    and "\<forall>s. isValidSuiAddress s \<longrightarrow> s \<noteq> [] \<and> \<not> isValidEmail s \<and> \<not> isValidSuiNS s"
  shows "(isValidEmail t \<longrightarrow> count_list (emails (parseBulkData isValidSuiAddress content csv)) t = 1)
       \<and> (isValidSuiAddress t \<longrightarrow> count_list (addresses (parseBulkData isValidSuiAddress content csv)) t = 1)
       \<and> (isValidSuiNS t \<longrightarrow> count_list (suiNSNames (parseBulkData isValidSuiAddress content csv)) t = 1)"
proof -
  let ?r = "parseBulkData isValidSuiAddress content csv"
  from assms(1) have "count_list (concat (csv_rows content)) t \<noteq> 0" by simp
  then have mem: "t \<in> set (concat (csv_rows content))" by (simp add: count_list_0_iff)
  have inv: "sorted_out isValidSuiAddress (set (concat (csv_rows content))) ?r"
    by (rule parseBulkData_sorted_out)
  then have d: "distinct (emails ?r)" "distinct (addresses ?r)" "distinct (suiNSNames ?r)"
    by (simp_all add: sorted_out_def)
  from inv mem have f: "t \<noteq> [] \<longrightarrow>
            (isValidEmail t \<longrightarrow> t \<in> set (emails ?r))
          \<and> (\<not> isValidEmail t \<and> isValidSuiAddress t \<longrightarrow> t \<in> set (addresses ?r))
          \<and> (\<not> isValidEmail t \<and> \<not> isValidSuiAddress t \<and> isValidSuiNS t \<longrightarrow> t \<in> set (suiNSNames ?r))"
    unfolding sorted_out_def by (elim conjE) (erule bspec)
  have 1: "count_list (emails ?r) t = 1" if "isValidEmail t"
    using that f d(1) isValidEmail_nonempty by (intro distinct_count_list) auto
  have 2: "count_list (addresses ?r) t = 1" if "isValidSuiAddress t"
    using that f d(2) assms(2) by (intro distinct_count_list) auto
  have 3: "count_list (suiNSNames ?r) t = 1" if "isValidSuiNS t"
    using that f d(3) assms(2) isValidSuiNS_nonempty isValidSuiNS_not_email
    by (intro distinct_count_list) auto
  from 1 2 3 show ?thesis by simp
qed


lemma lib_validator_ok:
  "\<forall>s. isValidSuiAddress_lib s \<longrightarrow> s \<noteq> [] \<and> \<not> isValidEmail s \<and> \<not> isValidSuiNS s"
proof (intro allI impI)
  fix s assume a: "isValidSuiAddress_lib s"
  then have "s \<noteq> []" by (auto simp: isValidSuiAddress_lib_def has_0x_def)
  with lib_disjoint [OF a] show "s \<noteq> [] \<and> \<not> isValidEmail s \<and> \<not> isValidSuiNS s" by simp
qed

lemma sample_csv_rows:
  "csv_rows sample_csv =
     [[js ''a@b.c'', js ''ab.sui'', sample_address], [js ''ab.sui'', js ''a@b.c'', js ''oops'', sample_address]]"
  by (simp add: csv_rows_def sample_csv_def sample_address_def js_def trim_def is_space_def)

lemma sample_address_valid: "isValidSuiAddress_lib sample_address"
  by (simp add: isValidSuiAddress_lib_def hexRegex_def sample_address_def has_0x_def rx_eval)

lemma sample_name_valid: "isValidSuiNS (js ''ab.sui'')"
  by (simp add: isValidSuiNS_def suiNSRegex_def rx_eval)

theorem parseBulkData_deduplicates_witness:
  "count_list (emails (parseBulkData isValidSuiAddress_lib sample_csv csv)) (js ''a@b.c'') = 1
   \<and> count_list (addresses (parseBulkData isValidSuiAddress_lib sample_csv csv)) sample_address = 1
   \<and> count_list (suiNSNames (parseBulkData isValidSuiAddress_lib sample_csv csv)) (js ''ab.sui'') = 1"
proof -
  have 1: "2 \<le> count_list (concat (csv_rows sample_csv)) (js ''a@b.c'')"
    by (simp add: sample_csv_rows)
  have 2: "2 \<le> count_list (concat (csv_rows sample_csv)) sample_address"
    by (simp add: sample_csv_rows)
  have 3: "2 \<le> count_list (concat (csv_rows sample_csv)) (js ''ab.sui'')"
    by (simp add: sample_csv_rows)
  show ?thesis
    using parseBulkData_deduplicates [OF 1 lib_validator_ok]
      parseBulkData_deduplicates [OF 2 lib_validator_ok]
      parseBulkData_deduplicates [OF 3 lib_validator_ok]
      sample_email_valid sample_address_valid sample_name_valid
    by simp
qed


section \<open>The encryption service\<close>

lemma try_catch_ret:
  "\<exists>r w'. try_catch m (\<lambda>e. ret (h e)) w = (Inr r, w') \<and>
     ((\<exists>e. m w = (Inl e, w') \<and> r = h e) \<or> m w = (Inr r, w'))"
  by (cases "m w") (auto simp: try_catch_def ret_def split: sum.splits)

lemma pbind_InrD:
  "pbind m f w = (Inr r, w') \<Longrightarrow> \<exists>x w1. m w = (Inr x, w1) \<and> f x w1 = (Inr r, w')"
  by (auto simp: pbind_def split: prod.splits sum.splits)

lemma ret_InrD: "ret x w = (Inr r, w') \<Longrightarrow> r = x \<and> w' = w"
  by (simp add: ret_def)

lemma encryption_failed_fields [simp]:
  "\<not> success (encryption_failed m)" "ErrorOutcome.error (encryption_failed m) = Some m"
  by (simp_all add: encryption_failed_def)

lemma encryptFile_returns:
  "\<exists>r w'. encryptFile env file w = (Inr r, w') \<and> (\<not> success r \<longrightarrow> (\<exists>m. ErrorOutcome.error r = Some m))"
proof -
  let ?body = "(pbind (initialize env) (\<lambda>_.
        pbind get_world (\<lambda>w.
        if \<not> isReady_service w then ret (encryption_failed (js ''Seal encryption service not ready''))
        else
        pbind (lift (arrayBuffer file)) (\<lambda>fileData.
        pbind (generateKeyPair env) (\<lambda>keyPair.
        if \<not> success keyPair
        then ret (encryption_failed (js ''Failed to generate encryption keys: '' @ template (ErrorOutcome.error keyPair)))
        else
        pbind (encryptData env fileData (KeyPairResult.publicKey keyPair)) (\<lambda>encryptionResult.
        if \<not> success encryptionResult
        then ret (encryption_failed (js ''Failed to encrypt file data: '' @ template (ErrorOutcome.error encryptionResult)))
        else
        pbind (Date_now_call env) (\<lambda>now.
        ret \<lparr> success = True, ErrorOutcome.error = None,
              EncryptionResult.encryptedData = EncryptDataResult.encryptedData encryptionResult,
              EncryptionResult.publicKey = KeyPairResult.publicKey keyPair,
              EncryptionResult.secretKey = KeyPairResult.secretKey keyPair,
              metadata = Some \<lparr> originalSize = file_size file,
                                encryptionAlgorithm = js ''Seal-BFV'',
                                timestamp = now \<rparr> \<rparr>)))))))"
  have body: "\<not> success r \<longrightarrow> (\<exists>m. ErrorOutcome.error r = Some m)" if "?body w = (Inr r, w')" for r w'
    using that
    by (auto dest!: pbind_InrD ret_InrD split: if_splits)
  obtain r w' where r: "encryptFile env file w = (Inr r, w')"
    and c: "(\<exists>e. ?body w = (Inl e, w') \<and> r = encryption_failed (message_or e (js ''Unknown encryption error''))) \<or> ?body w = (Inr r, w')"
    unfolding encryptFile_def
    using try_catch_ret [of ?body "\<lambda>e. encryption_failed (message_or e (js ''Unknown encryption error''))" w]
    by blast
  from c body have "\<not> success r \<longrightarrow> (\<exists>m. ErrorOutcome.error r = Some m)" by auto
  with r show ?thesis by blast
qed

lemma decryptFile_returns:
  "\<exists>r w'. decryptFile env bytes key w = (Inr r, w') \<and> (\<not> success r \<longrightarrow> (\<exists>m. ErrorOutcome.error r = Some m))"
  unfolding decryptFile_def try_catch_def
  by (auto simp: pbind_def ret_def split: sum.splits prod.splits)

text \<open>
  Claim C6. \<open>encryptFile\<close> and \<open>decryptFile\<close> never throw: for every environment,
  file, byte sequence and state each ends with a result object, and a result
  that is not a success carries an error string.
\<close>

theorem adapter_never_throws:
  "(\<exists>r w'. encryptFile env file w = (Inr r, w')
        \<and> (\<not> success r \<longrightarrow> (\<exists>m. ErrorOutcome.error r = Some m)))
   \<and> (\<exists>r w'. decryptFile env bytes key w = (Inr r, w')
        \<and> (\<not> success r \<longrightarrow> (\<exists>m. ErrorOutcome.error r = Some m)))"
  using encryptFile_returns decryptFile_returns by blast

lemma parse_value_unfold:
  "fuel \<noteq> 0 \<Longrightarrow> parse_value fuel s =
     (case skip_ws s of
        [] \<Rightarrow> None
      | c # r \<Rightarrow>
          if c = 0x7B then
            (case skip_ws r of
               [] \<Rightarrow> None
             | c2 # r2 \<Rightarrow> if c2 = 0x7D then Some (JObj [], r2) else parse_members (fuel - 1) (c2 # r2) [])
          else if c = 0x5B then
            (case skip_ws r of
               [] \<Rightarrow> None
             | c2 # r2 \<Rightarrow> if c2 = 0x5D then Some (JArr [], r2) else parse_elements (fuel - 1) (c2 # r2) [])
          else if c = 0x22 then
            (case parse_string r of None \<Rightarrow> None | Some (str, r1) \<Rightarrow> Some (JStr str, r1))
          else if c = 0x2D \<or> is_digit c then parse_number (c # r)
          else parse_literal (c # r))"
proof -
  assume "fuel \<noteq> 0"
  then obtain n where "fuel = Suc n" by (cases fuel) auto
  then show ?thesis by (simp only: parse_value.simps diff_Suc_1)
qed

lemma initialize_fresh:
  "initialize env fresh_world =
     (Inr (), fresh_world\<lparr> SealLibrary := Some (case import_seal env of Inl e \<Rightarrow> MockLibrary | Inr u \<Rightarrow> SealModule),
                           isInitialized := True, initializationPromise := Some (Inr ()) \<rparr>)"
  by (cases "import_seal env")
     (simp_all add: initialize_def initializeSeal_def fresh_world_def try_catch_def pbind_def lift_def modify_def)

lemma unreadable_file_fails:
  "\<exists>w'. encryptFile (sample_env offline) unreadable_file fresh_world =
   (Inr (encryption_failed (js ''The file could not be read'')), w')"
  by (simp add: encryptFile_def try_catch_def pbind_def initialize_fresh get_world_def isReady_service_def
      lift_def unreadable_file_def ret_def message_or_def)

lemma not_json: "JSON_parse env [0x41] = Inl (Error (syntax_error_message env))"
  by (simp add: JSON_parse_def parse_value_unfold skip_ws_def json_space_def
      is_digit_def parse_literal_def js_def)

lemma decode_A: "TextDecoder_decode [0x41] = [0x41]"
  by (simp add: TextDecoder_decode_def lead_byte_def utf8_initial_def strip_bom_def utf16_units_def)

lemma garbage_fails:
  "\<exists>w'. decryptFile env [0x41] key fresh_world =
   (Inr \<lparr> success = False,
          ErrorOutcome.error = Some (js ''Failed to decrypt data: '' @ syntax_error_message env),
          decryptedData = None \<rparr>, w')"
  by (simp add: decryptFile_def try_catch_def pbind_def initialize_fresh get_world_def isReady_service_def
      lift_def ret_def message_or_def decryptData_def decode_A not_json template_def)

theorem adapter_never_throws_witness:
  "(\<exists>r w'. encryptFile (sample_env offline) unreadable_file fresh_world = (Inr r, w')
        \<and> \<not> success r \<and> ErrorOutcome.error r = Some (js ''The file could not be read''))
   \<and> (\<exists>r w'. decryptFile (sample_env offline) [0x41] (js ''key'') fresh_world = (Inr r, w')
        \<and> \<not> success r \<and> (\<exists>m. ErrorOutcome.error r = Some m))"
proof -
  obtain w1 where 1: "encryptFile (sample_env offline) unreadable_file fresh_world =
       (Inr (encryption_failed (js ''The file could not be read'')), w1)"
    using unreadable_file_fails by blast
  obtain w2 where 2: "decryptFile (sample_env offline) [0x41] (js ''key'') fresh_world =
   (Inr \<lparr> success = False,
          ErrorOutcome.error = Some (js ''Failed to decrypt data: '' @ syntax_error_message (sample_env offline)),
          decryptedData = None \<rparr>, w2)"
    using garbage_fails by blast
  show ?thesis
    using adapter_never_throws [of "sample_env offline" unreadable_file fresh_world "[0x41]" "js ''key''"] 1 2
    by auto
qed

text \<open>
  Claim C7. The result of \<open>decryptFile\<close> does not depend on the secret key: with
  the same bytes, environment and state, any two keys give the same result (and
  the same state).
\<close>

theorem decryptFile_ignores_key:
  "decryptFile env bytes k1 w = decryptFile env bytes k2 w"
  by (simp add: decryptFile_def)

theorem decryptFile_ignores_key_witness:
  "decryptFile (sample_env offline) [0x41] (js ''seal_secret_a'') fresh_world
     = decryptFile (sample_env offline) [0x41] (js ''wrong'') fresh_world"
  by (rule decryptFile_ignores_key)

section \<open>The envelope is read back\<close>

subsection \<open>Decimal digits\<close>

lemma unat_of_nat16: "n < 65536 \<Longrightarrow> unat (of_nat n :: code_unit) = n"
  by (simp only: unat_of_nat) simp

lemma unat_digit_unit: "d < 10 \<Longrightarrow> unat (digit_unit d) = 48 + d"
  unfolding digit_unit_def by (rule unat_of_nat16) simp

lemma is_digit_iff: "is_digit c \<longleftrightarrow> 48 \<le> unat c \<and> unat c \<le> 57"
  by (simp add: is_digit_def word_le_nat_alt)

lemma is_digit_digit_unit: "d < 10 \<Longrightarrow> is_digit (digit_unit d)"
  by (simp add: is_digit_iff unat_digit_unit)

lemma digit_unit_zero_iff: "d < 10 \<Longrightarrow> digit_unit d = 0x30 \<longleftrightarrow> d = 0"
proof -
  assume d: "d < 10"
  have "digit_unit d = 0x30 \<longleftrightarrow> unat (digit_unit d) = unat (0x30 :: code_unit)"
    by (simp only: word_unat_eq_iff)
  then show ?thesis using d by (simp add: unat_digit_unit)
qed

lemma nat_toString_digits: "\<forall>c \<in> set (nat_toString n). is_digit c"
proof (induction n rule: nat_toString.induct)
  case (1 n)
  show ?case
  proof (cases "n < 10")
    case True
    then show ?thesis by (subst nat_toString.simps) (simp add: is_digit_digit_unit)
  next
    case False
    with 1 show ?thesis by (subst nat_toString.simps) (simp add: is_digit_digit_unit)
  qed
qed

lemma nat_toString_nonempty: "nat_toString n \<noteq> []"
  by (subst nat_toString.simps) simp

lemma digits_value_snoc: "digits_value (ds @ [d]) = 10 * digits_value ds + (unat d - 0x30)"
  by (simp add: digits_value_def)

lemma digits_value_nat_toString: "digits_value (nat_toString n) = n"
proof (induction n rule: nat_toString.induct)
  case (1 n)
  show ?case
  proof (cases "n < 10")
    case True
    then show ?thesis
      by (subst nat_toString.simps) (simp add: digits_value_def unat_digit_unit)
  next
    case False
    then have "digits_value (nat_toString n) = 10 * digits_value (nat_toString (n div 10)) + (unat (digit_unit (n mod 10)) - 0x30)"
      by (subst nat_toString.simps) (simp add: digits_value_snoc)
    with 1 False show ?thesis by (simp add: unat_digit_unit)
  qed
qed

lemma hd_nat_toString: "n \<noteq> 0 \<Longrightarrow> hd (nat_toString n) \<noteq> 0x30"
proof (induction n rule: nat_toString.induct)
  case (1 n)
  show ?case
  proof (cases "n < 10")
    case True
    with 1(2) show ?thesis by (subst nat_toString.simps) (simp add: digit_unit_zero_iff)
  next
    case False
    then have "n div 10 \<noteq> 0" by simp
    with 1 False have "hd (nat_toString (n div 10)) \<noteq> 0x30" by simp
    with False show ?thesis
      by (subst nat_toString.simps) (simp add: nat_toString_nonempty)
  qed
qed

lemma nat_toString_zero: "nat_toString 0 = [0x30]"
  by (subst nat_toString.simps) (simp add: digit_unit_def)

text \<open>What may follow a number: nothing, or a character that cannot continue it.\<close>

lemma takeWhile_digits:
  assumes "\<forall>c \<in> set ds. is_digit c" and "rest = [] \<or> \<not> is_digit (hd rest)"
  shows "takeWhile is_digit (ds @ rest) = ds" and "dropWhile is_digit (ds @ rest) = rest"
  using assms by (cases rest; simp add: takeWhile_append2 dropWhile_append2)+

lemma parse_int_part_nat_toString:
  assumes "rest = [] \<or> \<not> is_digit (hd rest)"
  shows "parse_int_part (nat_toString n @ rest) = Some (n, rest)"
proof (cases "n = 0")
  case True
  then show ?thesis by (simp add: nat_toString_zero parse_int_part_def)
next
  case False
  obtain c r where cr: "nat_toString n = c # r"
    using nat_toString_nonempty [of n] by (cases "nat_toString n") auto
  have c: "c \<noteq> 0x30" "is_digit c"
    using hd_nat_toString [OF False] nat_toString_digits [of n] by (simp_all add: cr)
  have "takeWhile is_digit (nat_toString n @ rest) = nat_toString n"
       "dropWhile is_digit (nat_toString n @ rest) = rest"
    using takeWhile_digits [OF nat_toString_digits assms] by simp_all
  then have "takeWhile is_digit (c # r @ rest) = c # r" "dropWhile is_digit (c # r @ rest) = rest"
    by (simp_all add: cr del: takeWhile.simps dropWhile.simps)
  with c show ?thesis
    using digits_value_nat_toString [of n]
    by (simp add: parse_int_part_def cr del: takeWhile.simps dropWhile.simps)
qed

lemma parse_number_nat_toString:
  assumes "rest = [] \<or> (\<not> is_digit (hd rest) \<and> hd rest \<noteq> 0x2E \<and> hd rest \<noteq> 0x65 \<and> hd rest \<noteq> 0x45)"
  shows "parse_number (nat_toString n @ rest) = Some (JNum (of_nat n), rest)"
proof -
  obtain c r where cr: "nat_toString n = c # r"
    using nat_toString_nonempty [of n] by (cases "nat_toString n") auto
  have "is_digit c" using nat_toString_digits [of n] by (simp add: cr)
  then have neg: "c \<noteq> 0x2D" by (auto simp: is_digit_def)
  have i: "parse_int_part (nat_toString n @ rest) = Some (n, rest)"
    using assms by (intro parse_int_part_nat_toString) auto
  have f: "parse_fraction rest = Some (0, rest)"
    using assms by (cases rest) (auto simp: parse_fraction_def)
  have e: "parse_exponent rest = Some (0, rest)"
    using assms by (cases rest) (auto simp: parse_exponent_def)
  have "parse_number (c # r @ rest) = Some (JNum (of_nat n), rest)"
    using i f e neg by (simp add: parse_number_def cr)
  then show ?thesis by (simp add: cr)
qed


subsection \<open>Plain strings\<close>

lemma plain_unit_iff:
  "plain_unit c \<longleftrightarrow> 32 \<le> unat c \<and> unat c < 127 \<and> unat c \<noteq> 34 \<and> unat c \<noteq> 92"
proof -
  have "c \<noteq> 0x22 \<longleftrightarrow> unat c \<noteq> unat (0x22 :: code_unit)"
       "c \<noteq> 0x5C \<longleftrightarrow> unat c \<noteq> unat (0x5C :: code_unit)"
    by (simp_all only: word_unat_eq_iff)
  then show ?thesis
    by (simp add: plain_unit_def word_le_nat_alt word_less_nat_alt)
qed

lemma plain_not_special:
  assumes "plain_unit c"
  shows "c \<noteq> 0x22" "c \<noteq> 0x5C" "\<not> c < 0x20" "\<not> high_surrogate c" "\<not> low_surrogate c"
    "c \<noteq> 0x08" "c \<noteq> 0x0C" "c \<noteq> 0x0A" "c \<noteq> 0x0D" "c \<noteq> 0x09" "\<not> json_space c \<or> c = 0x20"
  using assms
  by (auto simp: plain_unit_iff high_surrogate_def low_surrogate_def json_space_def
      word_le_nat_alt word_less_nat_alt)

lemma quote_unit_plain: "plain_unit c \<Longrightarrow> quote_unit c = [c]"
  using plain_not_special [of c] by (simp add: quote_unit_def)

lemma quote_units_plain: "\<forall>c \<in> set s. plain_unit c \<Longrightarrow> quote_units s = s"
proof (induction s rule: quote_units.induct)
  case 1
  then show ?case by simp
next
  case (2 u)
  then show ?case by (simp add: quote_unit_plain)
next
  case (3 u l us)
  then have "\<not> high_surrogate u" using plain_not_special(4) by simp
  with 3 show ?case by (simp add: quote_unit_plain)
qed

lemma QuoteJSONString_plain:
  "\<forall>c \<in> set s. plain_unit c \<Longrightarrow> QuoteJSONString s = 0x22 # s @ [0x22]"
  by (simp add: QuoteJSONString_def quote_units_plain)

lemma parse_string_plain:
  "\<forall>c \<in> set s. plain_unit c \<Longrightarrow> parse_string (s @ 0x22 # rest) = Some (s, rest)"
proof (induction s)
  case Nil
  then show ?case by simp
next
  case (Cons c s)
  then have "plain_unit c" by simp
  from plain_not_special(1-3) [OF this] Cons show ?case
    by (simp add: cons_unit_def)
qed


subsection \<open>Values\<close>

lemma skip_ws_Cons: "\<not> json_space c \<Longrightarrow> skip_ws (c # r) = c # r"
  by (simp add: skip_ws_def)

lemma not_space_punct:
  "\<not> json_space 0x22" "\<not> json_space 0x2C" "\<not> json_space 0x3A" "\<not> json_space 0x5B"
  "\<not> json_space 0x5D" "\<not> json_space 0x7B" "\<not> json_space 0x7D"
  by (simp_all add: json_space_def)

lemma digit_not_space: "is_digit c \<Longrightarrow> \<not> json_space c"
  by (auto simp: is_digit_def json_space_def)

lemma digit_not_punct:
  assumes "is_digit c"
  shows "c \<noteq> 0x7B" "c \<noteq> 0x5B" "c \<noteq> 0x22"
  using assms by (auto simp: is_digit_def)

lemma parse_value_string:
  assumes "fuel \<noteq> 0" and "\<forall>c \<in> set s. plain_unit c"
  shows "parse_value fuel (0x22 # s @ 0x22 # rest) = Some (JStr s, rest)"
  using assms
  by (simp add: parse_value_unfold skip_ws_Cons not_space_punct parse_string_plain)

lemma parse_value_number:
  assumes "fuel \<noteq> 0"
    and "rest = [] \<or> (\<not> is_digit (hd rest) \<and> hd rest \<noteq> 0x2E \<and> hd rest \<noteq> 0x65 \<and> hd rest \<noteq> 0x45)"
  shows "parse_value fuel (nat_toString n @ rest) = Some (JNum (of_nat n), rest)"
proof -
  obtain c r where cr: "nat_toString n = c # r"
    using nat_toString_nonempty [of n] by (cases "nat_toString n") auto
  have d: "is_digit c" using nat_toString_digits [of n] by (simp add: cr)
  have "parse_number (c # r @ rest) = Some (JNum (of_nat n), rest)"
    using parse_number_nat_toString [OF assms(2), of n] by (simp add: cr)
  then have "parse_value fuel (c # r @ rest) = Some (JNum (of_nat n), rest)"
    using assms(1) d digit_not_punct [OF d]
    by (simp add: parse_value_unfold skip_ws_Cons digit_not_space)
  then show ?thesis by (simp add: cr)
qed

lemma closer_ends_number:
  "\<not> is_digit 0x2C \<and> (0x2C :: code_unit) \<noteq> 0x2E \<and> (0x2C :: code_unit) \<noteq> 0x65 \<and> (0x2C :: code_unit) \<noteq> 0x45"
  "\<not> is_digit 0x5D \<and> (0x5D :: code_unit) \<noteq> 0x2E \<and> (0x5D :: code_unit) \<noteq> 0x65 \<and> (0x5D :: code_unit) \<noteq> 0x45"
  "\<not> is_digit 0x7D \<and> (0x7D :: code_unit) \<noteq> 0x2E \<and> (0x7D :: code_unit) \<noteq> 0x65 \<and> (0x7D :: code_unit) \<noteq> 0x45"
  by (simp_all add: is_digit_def)

lemma parse_elements_unfold:
  "fuel \<noteq> 0 \<Longrightarrow> parse_elements fuel s acc =
     (case parse_value (fuel - 1) s of
        None \<Rightarrow> None
      | Some (v, r) \<Rightarrow>
          (case skip_ws r of
             [] \<Rightarrow> None
           | c # r1 \<Rightarrow>
               if c = 0x2C then parse_elements (fuel - 1) r1 (acc @ [v])
               else if c = 0x5D then Some (JArr (acc @ [v]), r1)
               else None))"
proof -
  assume "fuel \<noteq> 0"
  then obtain n where "fuel = Suc n" by (cases fuel) auto
  then show ?thesis by (simp only: parse_elements.simps diff_Suc_1)
qed

text \<open>The numbers of an array, after its opening bracket.\<close>

lemma parse_elements_numbers:
  assumes "ns \<noteq> []" and "length ns < fuel"
  shows "parse_elements fuel (intercalate [0x2C] (map nat_toString ns) @ 0x5D # rest) acc
           = Some (JArr (acc @ map (\<lambda>n. JNum (of_nat n)) ns), rest)"
  using assms
proof (induction ns arbitrary: fuel acc)
  case Nil
  then show ?case by simp
next
  case (Cons n ns)
  from Cons.prems have f: "fuel \<noteq> 0" "fuel - 1 \<noteq> 0" by simp_all
  show ?case
  proof (cases ns)
    case Nil
    have "parse_value (fuel - 1) (nat_toString n @ 0x5D # rest) = Some (JNum (of_nat n), 0x5D # rest)"
      using f(2) closer_ends_number(2) by (intro parse_value_number) simp_all
    then show ?thesis
      using f(1) by (simp add: Nil parse_elements_unfold skip_ws_Cons not_space_punct)
  next
    case (Cons m ms)
    let ?tail = "intercalate [0x2C] (map nat_toString (m # ms)) @ 0x5D # rest"
    have v: "parse_value (fuel - 1) (nat_toString n @ 0x2C # ?tail) = Some (JNum (of_nat n), 0x2C # ?tail)"
      using f(2) closer_ends_number(1) by (intro parse_value_number) simp_all
    have "length ns < fuel - 1" using Cons.prems by simp
    then have "parse_elements (fuel - 1) ?tail (acc @ [JNum (of_nat n)])
                 = Some (JArr ((acc @ [JNum (of_nat n)]) @ map (\<lambda>n. JNum (of_nat n)) ns), rest)"
      using Cons.IH [of "fuel - 1" "acc @ [JNum (of_nat n)]"] by (simp add: Cons)
    then show ?thesis
      using f(1) v by (simp add: Cons parse_elements_unfold skip_ws_Cons not_space_punct)
  qed
qed


subsection \<open>The array of bytes\<close>

lemma js_punct:
  "js ''['' = [0x5B]" "js '']'' = [0x5D]" "js ''{'' = [0x7B]" "js ''}'' = [0x7D]"
  "js '','' = [0x2C]" "js '':'' = [0x3A]"
  by (simp_all add: js_def)

lemma stringify_bytes:
  "stringify_elements (map (\<lambda>b. JNum (unat b)) bytes) = map (\<lambda>b. nat_toString (unat b)) bytes"
  by (induction bytes) simp_all

lemma JSON_stringify_bytes:
  "JSON_stringify (JArr (map (\<lambda>b. JNum (unat b)) bytes))
     = 0x5B # intercalate [0x2C] (map (\<lambda>b. nat_toString (unat b)) bytes) @ [0x5D]"
  by (simp add: stringify_bytes js_punct)

lemma intercalate_numbers_start:
  assumes "ns \<noteq> []"
  shows "\<exists>c r. intercalate [0x2C] (map nat_toString ns) = c # r \<and> is_digit c"
proof -
  obtain n ms where ns: "ns = n # ms" using assms by (cases ns) auto
  obtain c r where cr: "nat_toString n = c # r"
    using nat_toString_nonempty [of n] by (cases "nat_toString n") auto
  have d: "is_digit c" using nat_toString_digits [of n] by (simp add: cr)
  show ?thesis by (cases ms) (simp_all add: ns cr d)
qed

lemma parse_value_bytes:
  assumes "length bytes + 1 < fuel"
  shows "parse_value fuel (JSON_stringify (JArr (map (\<lambda>b. JNum (unat b)) bytes)) @ rest)
           = Some (JArr (map (\<lambda>b. JNum (of_nat (unat b))) bytes), rest)"
proof (cases "bytes = []")
  case True
  with assms show ?thesis
    by (simp add: js_punct parse_value_unfold skip_ws_Cons not_space_punct)
next
  case False
  let ?ns = "map unat bytes"
  let ?text = "intercalate [0x2C] (map (\<lambda>b. nat_toString (unat b)) bytes)"
  from False have ne: "?ns \<noteq> []" by simp
  have t: "intercalate [0x2C] (map nat_toString ?ns) = ?text" by (simp add: comp_def)
  obtain c r where cr: "?text = c # r" and d: "is_digit c"
    using intercalate_numbers_start [OF ne] unfolding t by blast
  have c: "c \<noteq> 0x5D" using d by (auto simp: is_digit_def)
  have "length ?ns < fuel - 1" using assms by simp
  from parse_elements_numbers [OF ne this, of rest "[]"]
  have "parse_elements (fuel - 1) (?text @ 0x5D # rest) []
          = Some (JArr (map (\<lambda>b. JNum (of_nat (unat b))) bytes), rest)"
    unfolding t by (simp add: comp_def)
  then have e: "parse_elements (fuel - 1) (c # r @ 0x5D # rest) []
          = Some (JArr (map (\<lambda>b. JNum (of_nat (unat b))) bytes), rest)"
    unfolding cr by simp
  have f: "fuel \<noteq> 0" using assms by simp
  have "parse_value fuel (0x5B # (c # r) @ [0x5D] @ rest)
           = Some (JArr (map (\<lambda>b. JNum (of_nat (unat b))) bytes), rest)"
    using c d e f by (simp add: parse_value_unfold skip_ws_Cons not_space_punct digit_not_space)
  then show ?thesis
    unfolding JSON_stringify_bytes cr by simp
qed

lemma parse_value_chunks:
  assumes "length bytes + 3 < fuel"
  shows "parse_value fuel (JSON_stringify (JArr [JArr (map (\<lambda>b. JNum (unat b)) bytes)]) @ rest)
           = Some (JArr [JArr (map (\<lambda>b. JNum (of_nat (unat b))) bytes)], rest)"
proof -
  let ?inner = "JSON_stringify (JArr (map (\<lambda>b. JNum (unat b)) bytes))"
  define r where "r = intercalate [0x2C] (map (\<lambda>b. nat_toString (unat b)) bytes) @ [0x5D]"
  have inner: "?inner = 0x5B # r" unfolding r_def by (rule JSON_stringify_bytes)
  have "length bytes + 1 < fuel - 2" using assms by simp
  from parse_value_bytes [OF this, of "0x5D # rest"]
  have v: "parse_value (fuel - 2) (0x5B # r @ 0x5D # rest)
          = Some (JArr (map (\<lambda>b. JNum (of_nat (unat b))) bytes), 0x5D # rest)"
    unfolding inner by simp
  have f: "fuel \<noteq> 0" "fuel - 1 \<noteq> 0" "fuel - 1 - 1 = fuel - 2" using assms by simp_all
  have e: "parse_elements (fuel - 1) (0x5B # r @ 0x5D # rest) []
          = Some (JArr [JArr (map (\<lambda>b. JNum (of_nat (unat b))) bytes)], rest)"
    using f v by (simp add: parse_elements_unfold skip_ws_Cons not_space_punct)
  have "JSON_stringify (JArr [JArr (map (\<lambda>b. JNum (unat b)) bytes)]) = 0x5B # ?inner @ [0x5D]"
    by (subst JSON_stringify.simps(6))
       (simp only: stringify_elements.simps intercalate.simps js_punct append_Cons append_Nil)
  then have "JSON_stringify (JArr [JArr (map (\<lambda>b. JNum (unat b)) bytes)]) @ rest
               = 0x5B # (0x5B # r @ 0x5D # rest)"
    unfolding inner by simp
  then show ?thesis
    using f(1) e by (simp add: parse_value_unfold skip_ws_Cons not_space_punct)
qed


subsection \<open>The members of the envelope\<close>

lemma parse_members_unfold:
  "fuel \<noteq> 0 \<Longrightarrow> parse_members fuel s acc =
     (case skip_ws s of
        [] \<Rightarrow> None
      | q # r \<Rightarrow>
          if q = 0x22 then
            (case parse_string r of
               None \<Rightarrow> None
             | Some (k, r1) \<Rightarrow>
                 (case skip_ws r1 of
                    [] \<Rightarrow> None
                  | colon # r2 \<Rightarrow>
                      if colon = 0x3A then
                        (case parse_value (fuel - 1) r2 of
                           None \<Rightarrow> None
                         | Some (v, r3) \<Rightarrow>
                             (case skip_ws r3 of
                                [] \<Rightarrow> None
                              | c # r4 \<Rightarrow>
                                  if c = 0x2C then parse_members (fuel - 1) r4 (AList.update k v acc)
                                  else if c = 0x7D then Some (JObj (AList.update k v acc), r4)
                                  else None))
                      else None))
          else None)"
proof -
  assume "fuel \<noteq> 0"
  then obtain n where "fuel = Suc n" by (cases fuel) auto
  then show ?thesis by (simp only: parse_members.simps diff_Suc_1)
qed

text \<open>One member \<open>"k":text\<close> followed by a comma, and the last one followed by the closing brace.\<close>

lemma parse_members_more:
  assumes "fuel \<noteq> 0" and "\<forall>c \<in> set k. plain_unit c"
    and "parse_value (fuel - 1) (text @ 0x2C # rest) = Some (v, 0x2C # rest)"
  shows "parse_members fuel (0x22 # k @ 0x22 # 0x3A # text @ 0x2C # rest) acc
           = parse_members (fuel - 1) rest (AList.update k v acc)"
  using assms
  by (simp add: parse_members_unfold skip_ws_Cons not_space_punct parse_string_plain)

lemma parse_members_last:
  assumes "fuel \<noteq> 0" and "\<forall>c \<in> set k. plain_unit c"
    and "parse_value (fuel - 1) (text @ 0x7D # rest) = Some (v, 0x7D # rest)"
  shows "parse_members fuel (0x22 # k @ 0x22 # 0x3A # text @ 0x7D # rest) acc
           = Some (JObj (AList.update k v acc), rest)"
  using assms
  by (simp add: parse_members_unfold skip_ws_Cons not_space_punct parse_string_plain)

lemma plain_names:
  "\<forall>c \<in> set (js ''algorithm''). plain_unit c"
  "\<forall>c \<in> set (js ''Seal-BFV''). plain_unit c"
  "\<forall>c \<in> set (js ''publicKey''). plain_unit c"
  "\<forall>c \<in> set (js ''originalSize''). plain_unit c"
  "\<forall>c \<in> set (js ''timestamp''). plain_unit c"
  "\<forall>c \<in> set (js ''encryptedChunks''). plain_unit c"
  by (simp_all add: js_def plain_unit_def)

text \<open>The envelope as text.\<close>

lemma envelope_text:
  assumes "\<forall>c \<in> set pk. plain_unit c"
  shows "JSON_stringify (encryptionMetadata bytes (Some pk) now)
     = 0x7B # (0x22 # js ''algorithm'' @ 0x22 # 0x3A # (0x22 # js ''Seal-BFV'' @ [0x22]) @ 0x2C #
              (0x22 # js ''publicKey'' @ 0x22 # 0x3A # (0x22 # pk @ [0x22]) @ 0x2C #
              (0x22 # js ''originalSize'' @ 0x22 # 0x3A # nat_toString (length bytes) @ 0x2C #
              (0x22 # js ''timestamp'' @ 0x22 # 0x3A # nat_toString now @ 0x2C #
              (0x22 # js ''encryptedChunks'' @ 0x22 # 0x3A #
                 JSON_stringify (JArr [JArr (map (\<lambda>b. JNum (unat b)) bytes)]) @ [0x7D])))))"
proof -
  have "JSON_stringify (encryptionMetadata bytes (Some pk) now)
     = js ''{'' @ intercalate (js '','')
         [QuoteJSONString (js ''algorithm'') @ js '':'' @ QuoteJSONString (js ''Seal-BFV''),
          QuoteJSONString (js ''publicKey'') @ js '':'' @ QuoteJSONString pk,
          QuoteJSONString (js ''originalSize'') @ js '':'' @ nat_toString (length bytes),
          QuoteJSONString (js ''timestamp'') @ js '':'' @ nat_toString now,
          QuoteJSONString (js ''encryptedChunks'') @ js '':'' @
             JSON_stringify (JArr [JArr (map (\<lambda>b. JNum (unat b)) bytes)])] @ js ''}''"
    unfolding encryptionMetadata_def optional_string_def
    by (simp del: JSON_stringify.simps(6))
  then show ?thesis
    by (simp only: QuoteJSONString_plain [OF plain_names(1)] QuoteJSONString_plain [OF plain_names(2)]
        QuoteJSONString_plain [OF plain_names(3)] QuoteJSONString_plain [OF plain_names(4)]
        QuoteJSONString_plain [OF plain_names(5)] QuoteJSONString_plain [OF plain_names(6)]
        QuoteJSONString_plain [OF assms] js_punct intercalate.simps append_Cons append_Nil append_assoc)
qed


lemma names_differ:
  "js ''algorithm'' \<noteq> js ''publicKey''" "js ''algorithm'' \<noteq> js ''originalSize''"
  "js ''algorithm'' \<noteq> js ''timestamp''" "js ''algorithm'' \<noteq> js ''encryptedChunks''"
  "js ''publicKey'' \<noteq> js ''originalSize''" "js ''publicKey'' \<noteq> js ''timestamp''"
  "js ''publicKey'' \<noteq> js ''encryptedChunks''" "js ''originalSize'' \<noteq> js ''timestamp''"
  "js ''originalSize'' \<noteq> js ''encryptedChunks''" "js ''timestamp'' \<noteq> js ''encryptedChunks''"
  by (simp_all add: js_def)

lemma parse_envelope:
  assumes pk: "\<forall>c \<in> set pk. plain_unit c" and fuel: "length bytes + 9 < fuel"
  shows "parse_value fuel (JSON_stringify (encryptionMetadata bytes (Some pk) now))
           = Some (parsed_envelope bytes pk now, [])"
proof -
  let ?chunks = "JSON_stringify (JArr [JArr (map (\<lambda>b. JNum (unat b)) bytes)])"
  let ?m5 = "0x22 # js ''encryptedChunks'' @ 0x22 # 0x3A # ?chunks @ [0x7D]"
  let ?m4 = "0x22 # js ''timestamp'' @ 0x22 # 0x3A # nat_toString now @ 0x2C # ?m5"
  let ?m3 = "0x22 # js ''originalSize'' @ 0x22 # 0x3A # nat_toString (length bytes) @ 0x2C # ?m4"
  let ?m2 = "0x22 # js ''publicKey'' @ 0x22 # 0x3A # (0x22 # pk @ [0x22]) @ 0x2C # ?m3"
  let ?m1 = "0x22 # js ''algorithm'' @ 0x22 # 0x3A # (0x22 # js ''Seal-BFV'' @ [0x22]) @ 0x2C # ?m2"
  let ?v5 = "JArr [JArr (map (\<lambda>b. JNum (of_nat (unat b))) bytes)] :: rat jsval"
  have f: "fuel \<noteq> 0" "fuel - 1 \<noteq> 0" "fuel - 2 \<noteq> 0" "fuel - 3 \<noteq> 0" "fuel - 4 \<noteq> 0" "fuel - 5 \<noteq> 0"
    "fuel - 6 \<noteq> 0"
    "fuel - 1 - 1 = fuel - 2" "fuel - 2 - 1 = fuel - 3" "fuel - 3 - 1 = fuel - 4"
    "fuel - 4 - 1 = fuel - 5" "fuel - 5 - 1 = fuel - 6"
    using fuel by simp_all
  have v5: "parse_value (fuel - 6) (?chunks @ 0x7D # []) = Some (?v5, 0x7D # [])"
    using fuel by (intro parse_value_chunks) simp
  have p5: "parse_members (fuel - 5) ?m5 acc = Some (JObj (AList.update (js ''encryptedChunks'') ?v5 acc), [])" for acc
    using parse_members_last [OF f(6) plain_names(6), of ?chunks "[]" ?v5 acc] v5
    by (simp only: f append_Cons append_Nil)
  have v4: "parse_value (fuel - 5) (nat_toString now @ 0x2C # ?m5) = Some (JNum (of_nat now), 0x2C # ?m5)"
    using f(6) closer_ends_number(1) by (intro parse_value_number) simp_all
  have p4: "parse_members (fuel - 4) ?m4 acc
      = Some (JObj (AList.update (js ''encryptedChunks'') ?v5 (AList.update (js ''timestamp'') (JNum (of_nat now)) acc)), [])" for acc
    using parse_members_more [OF f(5) plain_names(5), of "nat_toString now" ?m5 "JNum (of_nat now)" acc] v4
    by (simp only: f p5)
  have v3: "parse_value (fuel - 4) (nat_toString (length bytes) @ 0x2C # ?m4) = Some (JNum (of_nat (length bytes)), 0x2C # ?m4)"
    using f(5) closer_ends_number(1) by (intro parse_value_number) simp_all
  have p3: "parse_members (fuel - 3) ?m3 acc
      = Some (JObj (AList.update (js ''encryptedChunks'') ?v5 (AList.update (js ''timestamp'') (JNum (of_nat now))
               (AList.update (js ''originalSize'') (JNum (of_nat (length bytes))) acc))), [])" for acc
    using parse_members_more [OF f(4) plain_names(4), of "nat_toString (length bytes)" ?m4 "JNum (of_nat (length bytes))" acc] v3
    by (simp only: f p4)
  have v2: "parse_value (fuel - 3) ((0x22 # pk @ [0x22]) @ 0x2C # ?m3) = Some (JStr pk, 0x2C # ?m3)"
    using parse_value_string [OF f(4) pk, of "0x2C # ?m3"] by simp
  have p2: "parse_members (fuel - 2) ?m2 acc
      = Some (JObj (AList.update (js ''encryptedChunks'') ?v5 (AList.update (js ''timestamp'') (JNum (of_nat now))
               (AList.update (js ''originalSize'') (JNum (of_nat (length bytes)))
               (AList.update (js ''publicKey'') (JStr pk) acc)))), [])" for acc
    using parse_members_more [OF f(3) plain_names(3), of "0x22 # pk @ [0x22]" ?m3 "JStr pk" acc] v2
    by (simp only: f p3)
  have v1: "parse_value (fuel - 2) ((0x22 # js ''Seal-BFV'' @ [0x22]) @ 0x2C # ?m2) = Some (JStr (js ''Seal-BFV''), 0x2C # ?m2)"
    using parse_value_string [OF f(3) plain_names(2), of "0x2C # ?m2"] by simp
  have p1: "parse_members (fuel - 1) ?m1 []
      = Some (JObj (AList.update (js ''encryptedChunks'') ?v5 (AList.update (js ''timestamp'') (JNum (of_nat now))
               (AList.update (js ''originalSize'') (JNum (of_nat (length bytes)))
               (AList.update (js ''publicKey'') (JStr pk)
               (AList.update (js ''algorithm'') (JStr (js ''Seal-BFV'')) []))))), [])"
    using parse_members_more [OF f(2) plain_names(1), of "0x22 # js ''Seal-BFV'' @ [0x22]" ?m2 "JStr (js ''Seal-BFV'')" "[]"] v1
    by (simp only: f p2)
  have obj: "AList.update (js ''encryptedChunks'') ?v5 (AList.update (js ''timestamp'') (JNum (of_nat now))
               (AList.update (js ''originalSize'') (JNum (of_nat (length bytes)))
               (AList.update (js ''publicKey'') (JStr pk)
               (AList.update (js ''algorithm'') (JStr (js ''Seal-BFV'')) []))))
        = [(js ''algorithm'', JStr (js ''Seal-BFV'')),
           (js ''publicKey'', JStr pk),
           (js ''originalSize'', JNum (of_nat (length bytes))),
           (js ''timestamp'', JNum (of_nat now)),
           (js ''encryptedChunks'', ?v5)]"
    by (simp add: names_differ)
  obtain m where m: "?m1 = 0x22 # m" by simp
  have "parse_value fuel (0x7B # ?m1) = parse_members (fuel - 1) ?m1 []"
    using f(1) unfolding m
    by (simp add: parse_value_unfold skip_ws_Cons not_space_punct)
  then show ?thesis
    unfolding envelope_text [OF pk] p1 obj parsed_envelope_def .
qed


subsection \<open>ASCII text survives encoding and decoding\<close>

lemma ascii_iff: "u < 0x80 \<longleftrightarrow> unat u < 128" for u :: code_unit
  by (simp add: word_less_nat_alt)

lemma ascii_not_surrogate:
  assumes "u < 0x80"
  shows "\<not> high_surrogate u" "\<not> low_surrogate u"
  using assms by (auto simp: ascii_iff high_surrogate_def low_surrogate_def word_le_nat_alt)

lemma concat_singletons: "\<forall>x \<in> set xs. f x = [g x] \<Longrightarrow> concat (map f xs) = map g xs"
  by (induction xs) simp_all

lemma code_points_ascii: "\<forall>u \<in> set s. u < 0x80 \<Longrightarrow> code_points s = map unat s"
proof (induction s rule: code_points.induct)
  case 1
  then show ?case by simp
next
  case (2 u)
  then show ?case by (simp add: ascii_not_surrogate)
next
  case (3 u l us)
  then have "\<not> high_surrogate u" "\<not> low_surrogate u" by (simp_all add: ascii_not_surrogate)
  with 3 show ?case by simp
qed

lemma TextEncoder_encode_ascii:
  assumes "\<forall>u \<in> set s. u < 0x80"
  shows "TextEncoder_encode s = map (\<lambda>u. of_nat (unat u)) s"
proof -
  have "utf8_bytes (unat u) = [of_nat (unat u)]" if "u \<in> set s" for u
    using that assms by (simp add: utf8_bytes_def ascii_iff)
  then have "concat (map (\<lambda>u. utf8_bytes (unat u)) s) = map (\<lambda>u. of_nat (unat u)) s"
    by (intro concat_singletons) simp
  then show ?thesis
    unfolding TextEncoder_encode_def code_points_ascii [OF assms]
    by (simp add: comp_def)
qed

lemma unat_byte_of_ascii: "unat u < 128 \<Longrightarrow> unat (of_nat (unat u) :: byte) = unat u" for u :: code_unit
  by (simp only: unat_of_nat) simp

lemma utf8_decode_ascii:
  "\<forall>u \<in> set s. u < 0x80 \<Longrightarrow>
     utf8_decode utf8_initial (map (\<lambda>u. of_nat (unat u)) s) = map unat s" for s :: jsstring
proof (induction s)
  case Nil
  then show ?case by (simp add: utf8_initial_def)
next
  case (Cons u s)
  then have u: "unat u < 128" by (simp add: ascii_iff)
  have n: "bytes_needed utf8_initial = 0" by (simp add: utf8_initial_def)
  have "lead_byte (unat (of_nat (unat u) :: byte)) = Inl (unat u)"
    using u by (simp only: unat_byte_of_ascii) (simp add: lead_byte_def)
  with Cons n show ?case by simp
qed

lemma TextDecoder_decode_ascii:
  assumes "\<forall>u \<in> set s. u < 0x80"
  shows "TextDecoder_decode (TextEncoder_encode s) = s"
proof -
  have b: "strip_bom (map unat s) = map unat s"
  proof (cases s)
    case Nil
    then show ?thesis by (simp add: strip_bom_def)
  next
    case (Cons u r)
    with assms have "unat u < 128" by (simp add: ascii_iff)
    then show ?thesis by (simp add: Cons strip_bom_def)
  qed
  have "utf16_units (unat u) = [u]" for u :: code_unit
  proof -
    have "unat u < 65536" using unsigned_less [of u] by simp
    then show ?thesis by (simp add: utf16_units_def)
  qed
  then have "concat (map (\<lambda>u. utf16_units (unat u)) s) = map (\<lambda>u. u) s"
    by (intro concat_singletons) simp
  then show ?thesis
    unfolding TextDecoder_decode_def TextEncoder_encode_ascii [OF assms] utf8_decode_ascii [OF assms] b
    by (simp add: comp_def)
qed


subsection \<open>The envelope is ASCII text\<close>

lemma plain_ascii: "plain_unit c \<Longrightarrow> c < 0x80"
  by (simp add: plain_unit_iff ascii_iff)

lemma digit_ascii: "is_digit c \<Longrightarrow> c < 0x80"
  by (simp add: is_digit_iff ascii_iff)

lemma nat_toString_ascii: "\<forall>c \<in> set (nat_toString n). c < 0x80"
  using nat_toString_digits [of n] digit_ascii by blast

lemma intercalate_ascii:
  "\<forall>x \<in> set xs. \<forall>c \<in> set x. c < 0x80 \<Longrightarrow> \<forall>c \<in> set (intercalate [0x2C] xs). c < (0x80 :: code_unit)"
  by (induction "[0x2C :: code_unit]" xs rule: intercalate.induct) auto

lemma intercalate_length:
  "\<forall>x \<in> set xs. x \<noteq> [] \<Longrightarrow> length xs \<le> length (intercalate sep xs)"
proof (induction sep xs rule: intercalate.induct)
  case (2 sep x)
  then show ?case by (cases x) simp_all
next
  case (3 sep x y ys)
  then have "x \<noteq> []" by simp
  then have "1 \<le> length x" by (cases x) simp_all
  with 3 show ?case by simp
qed simp

lemma JSON_stringify_chunks:
  "JSON_stringify (JArr [JArr (map (\<lambda>b. JNum (unat b)) bytes)])
     = 0x5B # 0x5B # intercalate [0x2C] (map (\<lambda>b. nat_toString (unat b)) bytes) @ [0x5D, 0x5D]"
proof -
  have "JSON_stringify (JArr [JArr (map (\<lambda>b. JNum (unat b)) bytes)])
      = js ''['' @ JSON_stringify (JArr (map (\<lambda>b. JNum (unat b)) bytes)) @ js '']''"
    by (subst JSON_stringify.simps(6)) simp
  then show ?thesis by (simp only: JSON_stringify_bytes js_punct) simp
qed

lemma names_ascii:
  "\<forall>c \<in> set (js ''algorithm''). c < 0x80"
  "\<forall>c \<in> set (js ''Seal-BFV''). c < 0x80"
  "\<forall>c \<in> set (js ''publicKey''). c < 0x80"
  "\<forall>c \<in> set (js ''originalSize''). c < 0x80"
  "\<forall>c \<in> set (js ''timestamp''). c < 0x80"
  "\<forall>c \<in> set (js ''encryptedChunks''). c < 0x80"
  using plain_names plain_ascii by blast+

lemma bytes_ascii:
  "\<forall>c \<in> set (intercalate [0x2C] (map (\<lambda>b. nat_toString (unat b)) bytes)). c < 0x80"
  by (rule intercalate_ascii) (simp add: nat_toString_ascii)

lemma envelope_ascii:
  assumes "\<forall>c \<in> set pk. plain_unit c"
  shows "\<forall>c \<in> set (JSON_stringify (encryptionMetadata bytes (Some pk) now)). c < 0x80"
proof -
  have pk: "\<forall>c \<in> set pk. c < 0x80" using assms plain_ascii by blast
  show ?thesis
    unfolding envelope_text [OF assms] JSON_stringify_chunks
    using pk names_ascii nat_toString_ascii [of "length bytes"] nat_toString_ascii [of now]
      bytes_ascii [of bytes]
    by (simp add: ball_Un)
qed

lemma envelope_length:
  assumes "\<forall>c \<in> set pk. plain_unit c"
  shows "length bytes + 9 < 2 * length (JSON_stringify (encryptionMetadata bytes (Some pk) now)) + 2"
proof -
  have "length (map (\<lambda>b. nat_toString (unat b)) bytes)
      \<le> length (intercalate [0x2C] (map (\<lambda>b. nat_toString (unat b)) bytes))"
    by (rule intercalate_length) (simp add: nat_toString_nonempty)
  then show ?thesis
    unfolding envelope_text [OF assms] JSON_stringify_chunks
    by (simp add: js_def)
qed

subsection \<open>The bytes come back\<close>

lemma trunc_zero_of_nat: "trunc_zero (of_nat n) = int n"
  by (simp add: trunc_zero_def)

lemma ToUint8_byte: "ToUint8 (Finite (of_nat (unat b))) = b"
  unfolding ToUint8_def by (simp only: jsnumber.simps trunc_zero_of_nat) simp

lemma ToUint8_unsigned: "ToUint8 (Finite (unsigned b)) = b"
  using ToUint8_byte [of b] by simp

lemma Uint8Array_new_bytes:
  "Uint8Array_new env (JArr (map (\<lambda>b. JNum (of_nat (unat b))) bytes)) = Inr bytes"
  by (simp add: Uint8Array_new_def ToUint8_unsigned comp_def)

lemma JSON_parse_envelope:
  assumes "\<forall>c \<in> set pk. plain_unit c"
  shows "JSON_parse env (JSON_stringify (encryptionMetadata bytes (Some pk) now))
       = Inr (parsed_envelope bytes pk now)"
  unfolding JSON_parse_def
  by (simp only: parse_envelope [OF assms envelope_length [OF assms]]) (simp add: skip_ws_def)

lemma Get_chunks:
  "Get env (parsed_envelope bytes pk now) (js ''encryptedChunks'')
     = Inr (JArr [JArr (map (\<lambda>b. JNum (of_nat (unat b))) bytes)])"
  by (simp add: Get_def parsed_envelope_def js_def)

lemma decryptData_envelope:
  assumes "\<forall>c \<in> set pk. plain_unit c"
  shows "decryptData env (TextEncoder_encode (JSON_stringify (encryptionMetadata bytes (Some pk) now))) w
       = (Inr \<lparr> success = True, ErrorOutcome.error = None, decryptedData = Some bytes \<rparr>, w)"
  unfolding decryptData_def
  by (simp only: TextDecoder_decode_ascii [OF envelope_ascii [OF assms]] JSON_parse_envelope [OF assms]
      try_catch_def pbind_lift_Inr Get_chunks)
     (simp add: Index0_def Uint8Array_new_def ToUint8_unsigned comp_def ret_def)


subsection \<open>Keys are plain text\<close>

lemma unat_hex_digit_unit:
  assumes "k < 36"
  shows "unat (hex_digit_unit k) = (if k < 10 then 48 + k else 87 + k)"
proof (cases "k < 10")
  case True
  then have "unat (of_nat (48 + k) :: code_unit) = 48 + k" by (intro unat_of_nat16) simp
  with True show ?thesis by (simp only: hex_digit_unit_def if_True)
next
  case False
  have "unat (of_nat (87 + k) :: code_unit) = 87 + k" using assms by (intro unat_of_nat16) simp
  with False show ?thesis by (simp only: hex_digit_unit_def if_False)
qed

lemma plain_digit36: "plain_unit (digit36_unit d)"
proof -
  have "d mod 36 < 36" by simp
  then have "unat (digit36_unit d) = (if d mod 36 < 10 then 48 + d mod 36 else 87 + d mod 36)"
    unfolding digit36_unit_def by (rule unat_hex_digit_unit)
  moreover have "d mod 36 < 36" by simp
  ultimately show ?thesis
    unfolding plain_unit_iff by (simp split: if_splits)
qed

lemma toString36_plain: "\<forall>c \<in> set (toString36 n). plain_unit c"
proof (induction n rule: toString36.induct)
  case (1 n)
  show ?case
  proof (cases "n < 36")
    case True
    then show ?thesis by (subst toString36.simps) (simp add: plain_digit36)
  next
    case False
    with 1 show ?thesis by (subst toString36.simps) (simp add: plain_digit36)
  qed
qed

lemma fraction_plain: "\<forall>c \<in> set (drop 2 (fraction_toString36 ds)). plain_unit c"
  by (simp add: fraction_toString36_def js_def plain_digit36)

lemma key_plain:
  "\<forall>c \<in> set (js ''seal_public_'' @ toString36 n @ drop 2 (fraction_toString36 ds)). plain_unit c"
proof -
  have "\<forall>c \<in> set (js ''seal_public_''). plain_unit c"
    by (simp add: js_def plain_unit_def)
  with toString36_plain [of n] fraction_plain [of ds] show ?thesis
    by (simp only: set_append ball_Un)
qed

subsection \<open>The steps of \<open>encryptFile\<close>\<close>

lemma generateKeyPair_result:
  "generateKeyPair env w =
     (Inr \<lparr> success = True, ErrorOutcome.error = None,
            KeyPairResult.publicKey = Some (js ''seal_public_'' @ toString36 (Date_now env (clock_reads w))
                 @ drop 2 (fraction_toString36 (Math_random env (random_reads w)))),
            KeyPairResult.secretKey = Some (js ''seal_secret_'' @ toString36 (Date_now env (clock_reads w))
                 @ drop 2 (fraction_toString36 (Math_random env (random_reads w)))) \<rparr>,
      w\<lparr>clock_reads := Suc (clock_reads w), random_reads := Suc (random_reads w)\<rparr>)"
  by (simp add: generateKeyPair_def try_catch_def pbind_def Date_now_call_def Math_random_call_def ret_def Let_def)

lemma encryptData_result:
  "encryptData env b key w =
     (Inr \<lparr> success = True, ErrorOutcome.error = None,
            EncryptDataResult.encryptedData =
              Some (TextEncoder_encode (JSON_stringify (encryptionMetadata b key (Date_now env (clock_reads w))))) \<rparr>,
      w\<lparr>clock_reads := Suc (clock_reads w)\<rparr>)"
  by (simp add: encryptData_def try_catch_def pbind_def Date_now_call_def ret_def)

lemma initialize_ready: "isInitialized w \<Longrightarrow> initialize env w = (Inr (), w)"
  by (simp add: initialize_def)

lemma encryptFile_ready:
  assumes "initialize env w = (Inr (), w1)" and "isReady_service w1" and "arrayBuffer file = Inr b"
  shows "\<exists>r w' pk now. encryptFile env file w = (Inr r, w') \<and> success r \<and> isReady_service w'
     \<and> (\<forall>c \<in> set pk. plain_unit c)
     \<and> EncryptionResult.encryptedData r
          = Some (TextEncoder_encode (JSON_stringify (encryptionMetadata b (Some pk) now)))"
proof -
  let ?pk = "js ''seal_public_'' @ toString36 (Date_now env (clock_reads w1))
                 @ drop 2 (fraction_toString36 (Math_random env (random_reads w1)))"
  let ?now = "Date_now env (Suc (clock_reads w1))"
  obtain r w' where r: "encryptFile env file w = (Inr r, w')" using encryptFile_returns by blast
  have "encryptFile env file w = (Inr r, w') \<Longrightarrow>
      success r \<and> isReady_service w' \<and>
      EncryptionResult.encryptedData r
          = Some (TextEncoder_encode (JSON_stringify (encryptionMetadata b (Some ?pk) ?now)))"
    using assms
    by (auto simp add: encryptFile_def try_catch_def pbind_def get_world_def lift_def
        generateKeyPair_result encryptData_result Date_now_call_def ret_def isReady_service_def)
  with r key_plain show ?thesis by blast
qed

lemma encryptFile_success:
  assumes "encryptFile env file w = (Inr r, w')" and "success r"
  shows "isReady_service w' \<and> (\<exists>b pk now. arrayBuffer file = Inr b \<and> (\<forall>c \<in> set pk. plain_unit c)
     \<and> EncryptionResult.encryptedData r
          = Some (TextEncoder_encode (JSON_stringify (encryptionMetadata b (Some pk) now))))"
proof -
  obtain out w1 where i: "initialize env w = (out, w1)" by force
  show ?thesis
  proof (cases out)
    case (Inl e)
    with i assms show ?thesis
      by (simp add: encryptFile_def try_catch_def pbind_def ret_def split: prod.splits) auto
  next
    case (Inr u)
    show ?thesis
    proof (cases "isReady_service w1")
      case False
      with i Inr assms show ?thesis
        by (simp add: encryptFile_def try_catch_def pbind_def get_world_def ret_def) auto
    next
      case True
      show ?thesis
      proof (cases "arrayBuffer file")
        case (Inl e)
        with i Inr True assms show ?thesis
          by (simp add: encryptFile_def try_catch_def pbind_def get_world_def lift_def ret_def) auto
      next
        case b: (Inr b)
        from i Inr have "initialize env w = (Inr (), w1)" by simp
        from encryptFile_ready [OF this True b] assms(1) b show ?thesis by auto
      qed
    qed
  qed
qed

lemma decryptFile_ready:
  assumes "isReady_service w" and "\<forall>c \<in> set pk. plain_unit c"
  shows "decryptFile env (TextEncoder_encode (JSON_stringify (encryptionMetadata b (Some pk) now))) key w
       = (Inr \<lparr> success = True, ErrorOutcome.error = None, decryptedData = Some b \<rparr>, w)"
proof -
  from assms(1) have "initialize env w = (Inr (), w)"
    by (simp add: initialize_ready isReady_service_def)
  with assms(1) show ?thesis
    by (simp add: decryptFile_def try_catch_def pbind_def get_world_def decryptData_envelope [OF assms(2)] ret_def)
qed

lemma small_file_encrypts:
  "\<exists>r w'. encryptFile (sample_env offline) small_file fresh_world = (Inr r, w') \<and> success r"
proof -
  have "isReady_service (fresh_world\<lparr> SealLibrary := Some (case import_seal (sample_env offline) of Inl e \<Rightarrow> MockLibrary | Inr u \<Rightarrow> SealModule),
                           isInitialized := True, initializationPromise := Some (Inr ()) \<rparr>)"
    by (simp add: isReady_service_def)
  moreover have "arrayBuffer small_file = Inr [0x68, 0x69, 0xFF]" by (simp add: small_file_def)
  ultimately show ?thesis
    using encryptFile_ready [OF initialize_fresh] by blast
qed

text \<open>
  Claim C1. Whenever \<open>encryptFile\<close> succeeds on a file whose contents are the
  bytes \<open>b\<close>, its result carries encrypted data, the service is ready afterwards,
  and \<open>decryptFile\<close> on that data, with any key, in any environment and in any
  state where the service is ready, succeeds with \<open>decryptedData\<close> equal to \<open>b\<close>.
  The bytes \<open>b\<close> are arbitrary: empty, ASCII, UTF-8 of any length, or no text at
  all.
\<close>

theorem encrypt_decrypt_round_trip:
  assumes "arrayBuffer file = Inr b"
    and "encryptFile env file w = (Inr r, w')"
    and "success r"
  shows "\<exists>d. EncryptionResult.encryptedData r = Some d \<and> isReady_service w' \<and>
           (\<forall>env' key w''. isReady_service w'' \<longrightarrow>
              decryptFile env' d key w''
                = (Inr \<lparr> success = True, ErrorOutcome.error = None, decryptedData = Some b \<rparr>, w''))"
proof -
  from encryptFile_success [OF assms(2,3)] assms(1)
  obtain pk now where ready: "isReady_service w'" and pk: "\<forall>c \<in> set pk. plain_unit c"
    and d: "EncryptionResult.encryptedData r
          = Some (TextEncoder_encode (JSON_stringify (encryptionMetadata b (Some pk) now)))"
    by auto
  from decryptFile_ready [OF _ pk] d ready show ?thesis by simp
qed

theorem encrypt_decrypt_round_trip_witness:
  "\<exists>r w' d. encryptFile (sample_env offline) small_file fresh_world = (Inr r, w') \<and> success r
     \<and> EncryptionResult.encryptedData r = Some d
     \<and> decryptFile (sample_env offline) d (js ''not the key'') w'
          = (Inr \<lparr> success = True, ErrorOutcome.error = None, decryptedData = Some [0x68, 0x69, 0xFF] \<rparr>, w')"
proof -
  obtain r w' where e: "encryptFile (sample_env offline) small_file fresh_world = (Inr r, w')"
    and s: "success r"
    using small_file_encrypts by blast
  have "arrayBuffer small_file = Inr [0x68, 0x69, 0xFF]" by (simp add: small_file_def)
  from encrypt_decrypt_round_trip [OF this e s] e s show ?thesis by blast
qed



section \<open>Uploading without encryption\<close>

lemma initialize_requests: "initialize env w = (out, w1) \<Longrightarrow> requests w1 = requests w"
  by (auto simp: initialize_def initializeSeal_def try_catch_def pbind_def lift_def modify_def throw_def
      split: if_splits option.splits sum.splits prod.splits)

lemma encryptFile_requests:
  assumes "encryptFile env f w = (out, w1)"
  shows "requests w1 = requests w"
proof -
  obtain out0 w0 where i: "initialize env w = (out0, w0)" by force
  then have "requests w0 = requests w" by (rule initialize_requests)
  with assms i show ?thesis
    by (auto simp: encryptFile_def try_catch_def pbind_def get_world_def lift_def
        generateKeyPair_result encryptData_result Date_now_call_def ret_def
        split: sum.splits if_splits)
qed

lemma hook_requests:
  assumes "useSealEncryption_encryptFile env st f w = (out, w1)"
  shows "requests w1 = requests w"
proof (cases "isReady st")
  case False
  with assms show ?thesis by (simp add: useSealEncryption_encryptFile_def ret_def)
next
  case True
  let ?w0 = "w\<lparr>hook_state := (hook_state w)\<lparr>isEncrypting := True, EncryptionState.error := None\<rparr>\<rparr>"
  obtain out2 w2 where e: "encryptFile env f ?w0 = (out2, w2)" by force
  then have "requests w2 = requests ?w0" by (rule encryptFile_requests)
  with assms True e show ?thesis
    by (auto simp: useSealEncryption_encryptFile_def try_finally_def try_catch_def pbind_def setState_def
        modify_def ret_def split: sum.splits if_splits)
qed

lemma no_encryption:
  assumes "\<not> isReady st \<or> (\<exists>r w1. useSealEncryption_encryptFile env st (the_file af) w = (Inr r, w1) \<and> \<not> success r)"
  shows "\<exists>w1. encrypt_before_upload env st af w = (Inr None, w1) \<and> requests w1 = requests w"
proof (cases "isReady st")
  case False
  then show ?thesis by (simp add: encrypt_before_upload_def ret_def)
next
  case True
  with assms obtain r w1 where h: "useSealEncryption_encryptFile env st (the_file af) w = (Inr r, w1)"
    and r: "\<not> success r" by blast
  from h have "requests w1 = requests w" by (rule hook_requests)
  with True h r show ?thesis
    by (simp add: encrypt_before_upload_def try_catch_def pbind_def ret_def)
qed

lemma throw_message_throws: "\<exists>e. (throw_message env d fallback :: 'a prog) = throw e"
  by (cases "Get env d (js ''message'')")
     (auto simp add: throw_message_def throw_def pbind_def lift_def fun_eq_iff)

lemma uploadFile_unencrypted:
  "\<exists>result. uploadFile env f token tm None w
       = (Inr result, w\<lparr>requests := requests w @ [upload_request f token tm None]\<rparr>)
     \<and> ((\<exists>response. fetch env (upload_request f token tm None) = Inr response
            \<and> ok response \<and> json response = Inr result)
        \<or> (\<exists>e. result = upload_failed e))"
proof (cases "fetch env (upload_request f token tm None)")
  case (Inl e)
  then show ?thesis
    by (simp add: uploadFile_def try_catch_def pbind_def do_fetch_def ret_def) blast
next
  case response: (Inr response)
  show ?thesis
  proof (cases "json response")
    case (Inl e)
    with response show ?thesis
      by (simp add: uploadFile_def try_catch_def pbind_def do_fetch_def lift_def ret_def) blast
  next
    case body: (Inr result)
    show ?thesis
    proof (cases "ok response")
      case True
      with response body show ?thesis
        by (simp add: uploadFile_def try_catch_def pbind_def do_fetch_def lift_def ret_def add_encryption_def)
    next
      case False
      obtain e where "(throw_message env result ''Upload failed'' :: unit prog) = throw e"
        using throw_message_throws by blast
      with response body False show ?thesis
        by (simp add: uploadFile_def try_catch_def pbind_def do_fetch_def lift_def ret_def throw_def) blast
    qed
  qed
qed

text \<open>The check of \<open>result.success\<close> returns the result or throws.\<close>

lemma checked_result:
  "\<exists>out. pbind (lift (Get env r0 (js ''success'')))
            (\<lambda>s. if \<not> truthy s then throw_message env r0 ''Upload failed'' else ret r0) w = (out, w)
      \<and> (out = Inr r0 \<or> (\<exists>e. out = Inl e))"
proof -
  obtain e where e: "(throw_message env r0 ''Upload failed'' :: int jsval prog) = throw e"
    using throw_message_throws by blast
  show ?thesis
    by (cases "Get env r0 (js ''success'')") (simp_all add: e throw_def ret_def)
qed

lemma uploadSingleFile_unencrypted:
  assumes "useTestMode \<or> isAuthenticated"
    and "\<not> isReady encryptionState \<or>
         (\<exists>r w1. useSealEncryption_encryptFile env encryptionState (the_file attachedFile) w = (Inr r, w1)
                  \<and> \<not> success r)"
  shows "\<exists>result w'.
           uploadSingleFile env isAuthenticated token useTestMode encryptionState attachedFile w = (Inr result, w')
         \<and> requests w' = requests w @ [upload_request (the_file attachedFile) token useTestMode None]
         \<and> ((\<exists>response. fetch env (upload_request (the_file attachedFile) token useTestMode None) = Inr response
                \<and> ok response \<and> json response = Inr result)
            \<or> (\<exists>e. result = upload_failed e))"
proof -
  let ?req = "upload_request (the_file attachedFile) token useTestMode None"
  let ?check = "\<lambda>r0. pbind (lift (Get env r0 (js ''success'')))
            (\<lambda>s. if \<not> truthy s then throw_message env r0 ''Upload failed'' else ret r0)"
  obtain w1 where 1: "encrypt_before_upload env encryptionState attachedFile w = (Inr None, w1)"
    and w1: "requests w1 = requests w"
    using no_encryption [OF assms(2)] by blast
  let ?w2 = "w1\<lparr>requests := requests w1 @ [?req]\<rparr>"
  obtain r0 where 2: "uploadFile env (the_file attachedFile) token useTestMode None w1 = (Inr r0, ?w2)"
    and r0: "(\<exists>response. fetch env ?req = Inr response \<and> ok response \<and> json response = Inr r0)
        \<or> (\<exists>e. r0 = upload_failed e)"
    using uploadFile_unencrypted by blast
  obtain out where 3: "?check r0 ?w2 = (out, ?w2)" and out: "out = Inr r0 \<or> (\<exists>e. out = Inl e)"
    using checked_result by blast
  have run: "uploadSingleFile env isAuthenticated token useTestMode encryptionState attachedFile w
      = (case out of Inl e \<Rightarrow> (Inr (upload_failed e), ?w2) | Inr x \<Rightarrow> (Inr x, ?w2))"
  proof -
    have "uploadSingleFile env isAuthenticated token useTestMode encryptionState attachedFile
        = try_catch
            (pbind (encrypt_before_upload env encryptionState attachedFile) (\<lambda>encryptionData.
             pbind (uploadFile env (the_file attachedFile) token useTestMode encryptionData) ?check))
            (\<lambda>e. ret (upload_failed e))"
      using assms(1) unfolding uploadSingleFile_def by auto
    with 1 2 3 show ?thesis
      by (simp add: try_catch_def pbind_def ret_def split: sum.splits)
  qed
  have req: "requests ?w2 = requests w @ [?req]" by (simp add: w1)
  from out show ?thesis
  proof
    assume "out = Inr r0"
    with run r0 req show ?thesis by simp
  next
    assume "\<exists>e. out = Inl e"
    then obtain e where "out = Inl e" by blast
    with run req show ?thesis by auto
  qed
qed

lemma uploadSingleFile_needs_login:
  "\<not> useTestMode \<Longrightarrow> \<not> isAuthenticated \<Longrightarrow>
   uploadSingleFile env isAuthenticated token useTestMode encryptionState attachedFile w
     = (Inl (Error (js ''Please log in to upload files'')), w)"
  by (simp add: uploadSingleFile_def throw_def)

text \<open>A file that cannot be read is not encrypted, whatever the state.\<close>

lemma unreadable_not_encrypted:
  assumes "arrayBuffer f = Inl e" and "encryptFile env f w = (Inr r, w1)"
  shows "\<not> success r"
proof
  assume "success r"
  from encryptFile_success [OF assms(2) this] assms(1) show False by auto
qed

lemma hook_fails:
  assumes "arrayBuffer f = Inl e"
  shows "\<exists>r w1. useSealEncryption_encryptFile env st f w = (Inr r, w1) \<and> \<not> success r"
proof (cases "isReady st")
  case False
  then show ?thesis by (simp add: useSealEncryption_encryptFile_def ret_def)
next
  case True
  let ?w0 = "w\<lparr>hook_state := (hook_state w)\<lparr>isEncrypting := True, EncryptionState.error := None\<rparr>\<rparr>"
  obtain r w2 where r: "encryptFile env f ?w0 = (Inr r, w2)" using encryptFile_returns by blast
  with assms have "\<not> success r" by (rule unreadable_not_encrypted)
  with True r show ?thesis
    by (simp add: useSealEncryption_encryptFile_def try_finally_def try_catch_def pbind_def setState_def
        modify_def ret_def)
qed

text \<open>
  Claim C3, with the condition it leaves out. When the user is authenticated or
  the test mode is on, and the hook's state is not ready or its \<open>encryptFile\<close>
  returns a failure, \<open>uploadSingleFile\<close> returns, having sent exactly one
  request: the upload without \<open>encryptionData\<close>, whose form holds the original
  file. Its result is the body of the backend's answer as it came, or the
  failure object \<open>{success: false, message}\<close>: the code adds neither
  \<open>encryptionKeys\<close> nor \<open>isEncrypted\<close>.
\<close>

theorem upload_falls_back:
  assumes "useTestMode \<or> isAuthenticated"
    and "\<not> isReady encryptionState \<or>
         (\<exists>r w1. useSealEncryption_encryptFile env encryptionState (the_file attachedFile) w = (Inr r, w1)
                  \<and> \<not> success r)"
  shows "\<exists>result w'.
           uploadSingleFile env isAuthenticated token useTestMode encryptionState attachedFile w = (Inr result, w')
         \<and> requests w' = requests w @ [upload_request (the_file attachedFile) token useTestMode None]
         \<and> body (upload_request (the_file attachedFile) token useTestMode None)
              = Some [(js ''file'', the_file attachedFile)]
         \<and> ((\<exists>response. fetch env (upload_request (the_file attachedFile) token useTestMode None) = Inr response
                \<and> ok response \<and> json response = Inr result)
            \<or> (\<exists>m. result = JObj [(js ''success'', JBool False), (js ''message'', JStr m)]))"
proof -
  have "body (upload_request (the_file attachedFile) token useTestMode None)
      = Some [(js ''file'', the_file attachedFile)]"
    by (simp add: upload_request_def)
  moreover have "\<exists>m. upload_failed e = JObj [(js ''success'', JBool False), (js ''message'', JStr m)]" for e
    by (simp add: upload_failed_def)
  ultimately show ?thesis
    using uploadSingleFile_unencrypted [OF assms, of token] by metis
qed

theorem upload_falls_back_witness:
  "(\<not> isReady (hook_state fresh_world) \<and>
    (\<exists>result w'.
       uploadSingleFile (sample_env (serving upload_payload (\<lambda>h. None))) True (Some (js ''t'')) False
         (hook_state fresh_world) (attached small_file) fresh_world = (Inr result, w')
     \<and> requests w' = [upload_request small_file (Some (js ''t'')) False None]
     \<and> body (upload_request small_file (Some (js ''t'')) False None) = Some [(js ''file'', small_file)]
     \<and> ((\<exists>response. serving upload_payload (\<lambda>h. None) (upload_request small_file (Some (js ''t'')) False None) = Inr response
            \<and> ok response \<and> json response = Inr result)
        \<or> (\<exists>m. result = JObj [(js ''success'', JBool False), (js ''message'', JStr m)]))))
   \<and> (isReady ready_state \<and>
      (\<exists>r w1. useSealEncryption_encryptFile (sample_env offline) ready_state unreadable_file fresh_world = (Inr r, w1)
               \<and> \<not> success r) \<and>
      (\<exists>result w'.
         uploadSingleFile (sample_env offline) False None True ready_state (attached unreadable_file) fresh_world
           = (Inr result, w')
       \<and> requests w' = [upload_request unreadable_file None True None]
       \<and> body (upload_request unreadable_file None True None) = Some [(js ''file'', unreadable_file)]
       \<and> (\<exists>m. result = JObj [(js ''success'', JBool False), (js ''message'', JStr m)])))"
proof -
  have a: "\<not> isReady (hook_state fresh_world)" by (simp add: fresh_world_def)
  have b: "isReady ready_state" by (simp add: ready_state_def)
  have f: "arrayBuffer unreadable_file = Inl (Error (js ''The file could not be read''))"
    by (simp add: unreadable_file_def)
  have h: "\<exists>r w1. useSealEncryption_encryptFile (sample_env offline) ready_state unreadable_file fresh_world = (Inr r, w1)
               \<and> \<not> success r"
    using f by (rule hook_fails)
  have 1: "the_file (attached small_file) = small_file" "the_file (attached unreadable_file) = unreadable_file"
    by (simp_all add: attached_def)
  have 2: "requests fresh_world = []" by (simp add: fresh_world_def)
  have 3: "fetch (sample_env net) = net" for net by (simp add: sample_env_def)
  have 4: "offline req \<noteq> Inr response" for req response by (simp add: offline_def)
  from upload_falls_back [of False True "hook_state fresh_world"
      "sample_env (serving upload_payload (\<lambda>h. None))" "attached small_file" fresh_world "Some (js ''t'')"] a
  have A: "\<exists>result w'.
       uploadSingleFile (sample_env (serving upload_payload (\<lambda>h. None))) True (Some (js ''t'')) False
         (hook_state fresh_world) (attached small_file) fresh_world = (Inr result, w')
     \<and> requests w' = [upload_request small_file (Some (js ''t'')) False None]
     \<and> body (upload_request small_file (Some (js ''t'')) False None) = Some [(js ''file'', small_file)]
     \<and> ((\<exists>response. serving upload_payload (\<lambda>h. None) (upload_request small_file (Some (js ''t'')) False None) = Inr response
            \<and> ok response \<and> json response = Inr result)
        \<or> (\<exists>m. result = JObj [(js ''success'', JBool False), (js ''message'', JStr m)]))"
    by (simp only: 1 2 3 append_Nil simp_thms)
  from upload_falls_back [of True False ready_state "sample_env offline" "attached unreadable_file" fresh_world None]
    h
  have B: "\<exists>result w'.
         uploadSingleFile (sample_env offline) False None True ready_state (attached unreadable_file) fresh_world
           = (Inr result, w')
       \<and> requests w' = [upload_request unreadable_file None True None]
       \<and> body (upload_request unreadable_file None True None) = Some [(js ''file'', unreadable_file)]
       \<and> (\<exists>m. result = JObj [(js ''success'', JBool False), (js ''message'', JStr m)])"
    by (simp only: 1 2 3 4 append_Nil simp_thms)
  from a b h A B show ?thesis by simp
qed

text \<open>
  Without authentication and outside the test mode nothing is uploaded: with a
  hook that is not ready, \<open>uploadSingleFile\<close> throws and sends no request.
\<close>

theorem upload_without_login_counterexample:
  "\<not> isReady (hook_state fresh_world) \<and>
   uploadSingleFile (sample_env (serving upload_payload (\<lambda>h. None))) False None False
       (hook_state fresh_world) (attached small_file) fresh_world
     = (Inl (Error (js ''Please log in to upload files'')), fresh_world) \<and>
   requests fresh_world = []"
  by (simp add: uploadSingleFile_def throw_def fresh_world_def)

text \<open>
  The result is the backend's body: when that body itself says \<open>isEncrypted\<close>,
  so does the result of an upload that was not encrypted.
\<close>

lemma backend_flag_is_returned:
  "\<exists>w'. uploadSingleFile (sample_env (serving flagged_payload (\<lambda>h. None))) True (Some (js ''t'')) False
       (hook_state fresh_world) (attached small_file) fresh_world = (Inr flagged_payload, w')"
  by (simp add: uploadSingleFile_def encrypt_before_upload_def uploadFile_def try_catch_def pbind_def
      do_fetch_def lift_def ret_def sample_env_def serving_def add_encryption_def fresh_world_def
      flagged_payload_def Get_def js_def)


end
